(* ===== verification/Py_Base.thy ===== *)
theory Py_Base
  imports Complex_Main "HOL-Library.AList" "HOL-Library.Word"
begin

text \<open>
  Prelude of the development: the part of Python that the modelled files use.

  Values that cross component borders (messages, thresholds, configuration, JSON bodies) are
  dynamically typed in the source, so they are \<open>pyval\<close>s here. A dictionary is an association
  list that keeps insertion order (\<open>AList.update\<close> overwrites in place or appends, as
  assignment to a key does). A raised exception is the left injection of a sum.
  Floating point numbers are exact rationals; dates are microseconds since the epoch.
\<close>

named_theorems res_simps \<open>unfolding of the error plumbing\<close>
named_theorems dict_simps \<open>lookups in updated dictionaries\<close>

section \<open>Exceptions\<close>

datatype exn =
    KeyError | TypeError | AttributeError | ValueError | NameError | IndexError
  | ZeroDivisionError | OverflowError | StructError | PyMongoError | ConnectionError
  | OSError | AddrFormatError | SystemExit | UnicodeError | ExnOther string

type_synonym 'a result = "exn + 'a"

definition keyboard_interrupt :: exn where
  "keyboard_interrupt = ExnOther ''KeyboardInterrupt''"

text \<open>Sequencing: the first exception ends the computation.\<close>

fun bindE :: "'a result \<Rightarrow> ('a \<Rightarrow> 'b result) \<Rightarrow> 'b result" where
  "bindE (Inl e) f = Inl e"
| "bindE (Inr x) f = f x"

lemma bindE_Inr_iff [res_simps]: "bindE r f = Inr y \<longleftrightarrow> (\<exists>x. r = Inr x \<and> f x = Inr y)"
  by (cases r) auto

lemma bindE_Inl_iff [res_simps]:
  "bindE r f = Inl e \<longleftrightarrow> r = Inl e \<or> (\<exists>x. r = Inr x \<and> f x = Inl e)"
  by (cases r) auto

lemma bindE_assoc: "bindE (bindE r f) g = bindE r (\<lambda>x. bindE (f x) g)"
  by (cases r) auto

definition of_option :: "exn \<Rightarrow> 'a option \<Rightarrow> 'a result" where
  "of_option e x = (case x of None \<Rightarrow> Inl e | Some v \<Rightarrow> Inr v)"

lemma of_option_simps [simp]:
  "of_option e None = Inl e" "of_option e (Some v) = Inr v"
  by (simp_all add: of_option_def)

lemma of_option_Inr [res_simps]: "of_option e x = Inr v \<longleftrightarrow> x = Some v"
  by (cases x) auto

section \<open>Values\<close>

datatype pyval =
    PyNone
  | PyBool bool
  | PyInt int
  | PyFloat rat
  | PyStr string
  | PyTime int
  | PyDelta int
  | PyBytes "8 word list"
  | PyIPv4 "32 word"
  | PyIPv6 "128 word"
  | PyList "pyval list"
  | PyDict "(string \<times> pyval) list"
  | PyObj "(string \<times> pyval) list"

type_synonym pydict = "(string \<times> pyval) list"

abbreviation dict_put :: "'k \<Rightarrow> 'v \<Rightarrow> ('k \<times> 'v) list \<Rightarrow> ('k \<times> 'v) list" where
  "dict_put k v d \<equiv> AList.update k v d"

abbreviation dict_del :: "'k \<Rightarrow> ('k \<times> 'v) list \<Rightarrow> ('k \<times> 'v) list" where
  "dict_del k d \<equiv> AList.delete k d"

definition has_key :: "('k \<times> 'v) list \<Rightarrow> 'k \<Rightarrow> bool" where
  "has_key d k \<longleftrightarrow> map_of d k \<noteq> None"

abbreviation wf_dict :: "('k \<times> 'v) list \<Rightarrow> bool" where
  "wf_dict d \<equiv> distinct (map fst d)"

lemma has_key_iff: "has_key d k \<longleftrightarrow> k \<in> set (map fst d)"
  by (simp add: has_key_def map_of_eq_None_iff)

lemma has_key_Nil [simp]: "\<not> has_key [] k"
  by (simp add: has_key_def)

lemma has_key_Cons [simp]: "has_key ((k', v) # d) k \<longleftrightarrow> k' = k \<or> has_key d k"
  by (auto simp: has_key_def)

lemma map_of_dict_put [simp, dict_simps]: "map_of (dict_put k v d) = (map_of d)(k \<mapsto> v)"
  by (rule AList.update_conv')

lemma map_of_dict_del [simp, dict_simps]: "map_of (dict_del k d) = (map_of d)(k := None)"
  by (rule AList.delete_conv')

lemma has_key_put [simp, dict_simps]: "has_key (dict_put k v d) k' \<longleftrightarrow> k' = k \<or> has_key d k'"
  by (simp add: has_key_def)

lemma has_key_del [simp, dict_simps]: "has_key (dict_del k d) k' \<longleftrightarrow> k' \<noteq> k \<and> has_key d k'"
  by (simp add: has_key_def)

lemma wf_dict_put [simp, intro]: "wf_dict d \<Longrightarrow> wf_dict (dict_put k v d)"
  by (rule AList.distinct_update)

lemma wf_dict_del [simp, intro]: "wf_dict d \<Longrightarrow> wf_dict (dict_del k d)"
  by (rule AList.distinct_delete)

text \<open>Numbers of any of the three numeric types compare and hash by value.\<close>

fun num_of :: "pyval \<Rightarrow> rat option" where
  "num_of (PyBool b) = Some (if b then 1 else 0)"
| "num_of (PyInt i) = Some (of_int i)"
| "num_of (PyFloat q) = Some q"
| "num_of _ = None"

text \<open>The operator \<open>==\<close>; dictionaries compare without regard to order.\<close>

fun py_eq :: "pyval \<Rightarrow> pyval \<Rightarrow> bool" where
  "py_eq (PyList xs) w = (case w of PyList ys \<Rightarrow> list_all2 py_eq xs ys | _ \<Rightarrow> False)"
| "py_eq (PyDict xs) w =
     (case w of
        PyDict ys \<Rightarrow> length xs = length ys \<and>
          (\<forall>p \<in> set xs. case map_of ys (fst p) of None \<Rightarrow> False | Some u \<Rightarrow> py_eq (snd p) u)
      | _ \<Rightarrow> False)"
| "py_eq v w = (case num_of v of Some a \<Rightarrow> num_of w = Some a | None \<Rightarrow> v = w)"

text \<open>A value whose dictionaries have distinct keys, which every Python value has.\<close>

fun wf_val :: "pyval \<Rightarrow> bool" where
  "wf_val (PyList xs) = (\<forall>x \<in> set xs. wf_val x)"
| "wf_val (PyDict d) = (wf_dict d \<and> (\<forall>p \<in> set d. wf_val (snd p)))"
| "wf_val (PyObj d) = (wf_dict d \<and> (\<forall>p \<in> set d. wf_val (snd p)))"
| "wf_val _ = True"


lemma py_eq_refl: "wf_val v \<Longrightarrow> py_eq v v"
proof (induction v)
  case (PyList xs)
  then show ?case by (auto simp: list_all2_same)
next
  case (PyDict d)
  have "\<And>p. p \<in> set d \<Longrightarrow> map_of d (fst p) = Some (snd p)"
    using PyDict.prems by (auto simp: map_of_eq_Some_iff)
  moreover have "py_eq (snd p) (snd p)" if "p \<in> set d" for p
    using PyDict that by (cases p) (auto intro: snds.intros)
  ultimately show ?case by simp
qed (auto split: option.split)

section \<open>Operators that may raise\<close>

text \<open>
  Subscription by a string key: a dictionary raises \<open>KeyError\<close>, every other value that
  can occur here (list, string, number) \<open>TypeError\<close>.
\<close>

fun py_item :: "pyval \<Rightarrow> string \<Rightarrow> pyval result" where
  "py_item (PyDict d) k = of_option KeyError (map_of d k)"
| "py_item _ k = Inl TypeError"

text \<open>Substring test of \<open>k in s\<close> on strings.\<close>

fun is_prefix :: "'a list \<Rightarrow> 'a list \<Rightarrow> bool" where
  "is_prefix [] ys = True"
| "is_prefix (x # xs) [] = False"
| "is_prefix (x # xs) (y # ys) = (x = y \<and> is_prefix xs ys)"

fun is_infix :: "'a list \<Rightarrow> 'a list \<Rightarrow> bool" where
  "is_infix xs [] = (xs = [])"
| "is_infix xs (y # ys) = (is_prefix xs (y # ys) \<or> is_infix xs ys)"

text \<open>The operator \<open>k in v\<close> for a string \<open>k\<close>.\<close>

fun py_in :: "string \<Rightarrow> pyval \<Rightarrow> bool result" where
  "py_in k (PyDict d) = Inr (has_key d k)"
| "py_in k (PyList xs) = Inr (\<exists>x \<in> set xs. py_eq x (PyStr k))"
| "py_in k (PyStr s) = Inr (is_infix k s)"
| "py_in k _ = Inl TypeError"

text \<open>The operator \<open><\<close>; comparing values of unrelated types raises \<open>TypeError\<close>.\<close>

fun list_lt :: "nat list \<Rightarrow> nat list \<Rightarrow> bool" where
  "list_lt [] ys = (ys \<noteq> [])"
| "list_lt (x # xs) [] = False"
| "list_lt (x # xs) (y # ys) = (x < y \<or> x = y \<and> list_lt xs ys)"

definition str_lt :: "string \<Rightarrow> string \<Rightarrow> bool" where
  "str_lt s t = list_lt (map of_char s) (map of_char t)"

fun py_lt :: "pyval \<Rightarrow> pyval \<Rightarrow> bool result"
  and py_lt_list :: "pyval list \<Rightarrow> pyval list \<Rightarrow> bool result" where
  "py_lt (PyList xs) w = (case w of PyList ys \<Rightarrow> py_lt_list xs ys | _ \<Rightarrow> Inl TypeError)"
| "py_lt (PyStr s) w = (case w of PyStr t \<Rightarrow> Inr (str_lt s t) | _ \<Rightarrow> Inl TypeError)"
| "py_lt (PyTime a) w = (case w of PyTime b \<Rightarrow> Inr (a < b) | _ \<Rightarrow> Inl TypeError)"
| "py_lt (PyDelta a) w = (case w of PyDelta b \<Rightarrow> Inr (a < b) | _ \<Rightarrow> Inl TypeError)"
| "py_lt v w =
     (case (num_of v, num_of w) of (Some a, Some b) \<Rightarrow> Inr (a < b) | _ \<Rightarrow> Inl TypeError)"
| "py_lt_list [] ys = Inr (ys \<noteq> [])"
| "py_lt_list (x # xs) ys =
     (case ys of
        [] \<Rightarrow> Inr False
      | y # ys' \<Rightarrow> (if py_eq x y then py_lt_list xs ys' else py_lt x y))"

text \<open>Assignment to a key; only a dictionary supports it here.\<close>

fun py_set_item :: "pyval \<Rightarrow> string \<Rightarrow> pyval \<Rightarrow> pyval" where
  "py_set_item (PyDict d) k v = PyDict (dict_put k v d)"
| "py_set_item w k v = w"

text \<open>
  Subtraction of counters. Counters come from IPFIX records and JSON bodies, so they are
  never dates or sets; anything but two numbers raises.
\<close>

fun py_sub :: "pyval \<Rightarrow> pyval \<Rightarrow> pyval result" where
  "py_sub (PyInt a) (PyInt b) = Inr (PyInt (a - b))"
| "py_sub v w =
     (case (num_of v, num_of w) of (Some a, Some b) \<Rightarrow> Inr (PyFloat (a - b)) | _ \<Rightarrow> Inl TypeError)"

text \<open>True division by an integer that is known not to be zero.\<close>

definition py_truediv :: "pyval \<Rightarrow> int \<Rightarrow> pyval result" where
  "py_truediv v n =
     (case num_of v of Some q \<Rightarrow> Inr (PyFloat (q / of_int n)) | None \<Rightarrow> Inl TypeError)"

text \<open>The attribute \<open>seconds\<close> of a time difference: the part below one day, never negative.\<close>

definition timedelta_seconds :: "int \<Rightarrow> int" where
  "timedelta_seconds us = (us div 1000000) mod 86400"

lemma timedelta_seconds_range: "0 \<le> timedelta_seconds us \<and> timedelta_seconds us < 86400"
  by (simp add: timedelta_seconds_def)

lemma py_sub_num:
  "num_of v = Some a \<Longrightarrow> num_of w = Some b \<Longrightarrow>
    \<exists>u. py_sub v w = Inr u \<and> num_of u = Some (a - b)"
  by (cases "(v, w)" rule: py_sub.cases) auto

lemma py_sub_TypeError: "py_sub v w = Inl e \<Longrightarrow> e = TypeError"
  by (cases "(v, w)" rule: py_sub.cases) (auto split: option.splits)

text \<open>
  Hashing: dictionary keys are compared by the canonical form of a scalar; lists and
  dictionaries are unhashable. Exact instances of other classes hash as themselves.
\<close>

fun hash_key :: "pyval \<Rightarrow> pyval result" where
  "hash_key (PyList xs) = Inl TypeError"
| "hash_key (PyDict d) = Inl TypeError"
| "hash_key v = Inr (case num_of v of Some q \<Rightarrow> PyFloat q | None \<Rightarrow> v)"

section \<open>Strings\<close>

definition lower_char :: "char \<Rightarrow> char" where
  "lower_char c =
     (let n = (of_char c :: nat) in if 65 \<le> n \<and> n \<le> 90 then char_of (n + 32) else c)"

definition str_lower :: "string \<Rightarrow> string" where
  "str_lower = map lower_char"

text \<open>\<open>s.split(c)\<close> for a one character separator: never the empty list.\<close>

fun split_on :: "'a \<Rightarrow> 'a list \<Rightarrow> 'a list list" where
  "split_on c [] = [[]]"
| "split_on c (x # xs) =
     (if x = c then [] # split_on c xs
      else (case split_on c xs of [] \<Rightarrow> [[x]] | w # ws \<Rightarrow> (x # w) # ws))"

lemma split_on_not_Nil [simp]: "split_on c xs \<noteq> []"
  by (induction xs) (auto split: list.splits)

lemma hd_split_on: "hd (split_on c xs) = takeWhile (\<lambda>x. x \<noteq> c) xs"
proof (induction xs)
  case (Cons x xs)
  then show ?case by (cases "split_on c xs") auto
qed simp

lemma split_on_notin: "c \<notin> set xs \<Longrightarrow> split_on c xs = [xs]"
  by (induction xs) auto

definition digit_char :: "nat \<Rightarrow> char" where
  "digit_char d = ''0123456789'' ! d"

fun nat_str :: "nat \<Rightarrow> string" where
  "nat_str n = (if n < 10 then [digit_char n] else nat_str (n div 10) @ [digit_char (n mod 10)])"

declare nat_str.simps [simp del]

definition int_str :: "int \<Rightarrow> string" where
  "int_str i = (if i < 0 then CHR ''-'' # nat_str (nat (- i)) else nat_str (nat i))"

text \<open>
  \<open>str(v)\<close>. The text of a float, a date or a container is given by the argument
  \<open>repr_of\<close>; no property depends on it.
\<close>

fun py_str :: "(pyval \<Rightarrow> string) \<Rightarrow> pyval \<Rightarrow> string" where
  "py_str repr_of PyNone = ''None''"
| "py_str repr_of (PyBool b) = (if b then ''True'' else ''False'')"
| "py_str repr_of (PyInt i) = int_str i"
| "py_str repr_of (PyStr s) = s"
| "py_str repr_of v = repr_of v"

text \<open>\<open>int(s)\<close> of a decimal numeral with surrounding white space and an optional sign.\<close>

definition is_space :: "char \<Rightarrow> bool" where
  "is_space c = (c \<in> {CHR '' '', CHR 0x09, CHR 0x0A, CHR 0x0B, CHR 0x0C, CHR 0x0D})"

definition strip :: "string \<Rightarrow> string" where
  "strip s = rev (dropWhile is_space (rev (dropWhile is_space s)))"

definition digit_of :: "char \<Rightarrow> nat option" where
  "digit_of c = map_of (zip ''0123456789'' [0..<10]) c"

fun digits_val :: "nat \<Rightarrow> string \<Rightarrow> nat option" where
  "digits_val acc [] = Some acc"
| "digits_val acc (c # cs) =
     (case digit_of c of None \<Rightarrow> None | Some d \<Rightarrow> digits_val (acc * 10 + d) cs)"

definition nat_of_string :: "string \<Rightarrow> int result" where
  "nat_of_string s = (if s = [] then Inl ValueError
     else of_option ValueError (map_option int (digits_val 0 s)))"

definition int_of_string :: "string \<Rightarrow> int result" where
  "int_of_string s =
     (case strip s of
        [] \<Rightarrow> Inl ValueError
      | c # cs \<Rightarrow>
          (if c = CHR ''-'' then bindE (nat_of_string cs) (\<lambda>n. Inr (- n))
           else if c = CHR ''+'' then nat_of_string cs
           else nat_of_string (c # cs)))"

lemma digit_char_cases: "d < 10 \<Longrightarrow> digit_of (digit_char d) = Some d \<and> \<not> is_space (digit_char d) \<and>
  digit_char d \<noteq> CHR ''-'' \<and> digit_char d \<noteq> CHR ''+''"
proof -
  assume "d < 10"
  then have "d \<in> set [0, 1, 2, 3, 4, 5, 6, 7, 8, 9]" by auto
  then show ?thesis
    unfolding digit_of_def digit_char_def is_space_def by (auto simp: upt_rec)
qed

lemma digits_val_append:
  "digits_val acc (xs @ [c]) =
    (case digits_val acc xs of None \<Rightarrow> None
     | Some v \<Rightarrow> (case digit_of c of None \<Rightarrow> None | Some d \<Rightarrow> Some (v * 10 + d)))"
  by (induction xs arbitrary: acc) (auto split: option.split)

lemma digits_val_nat_str: "digits_val 0 (nat_str n) = Some n"
proof (induction n rule: nat_str.induct)
  case (1 n)
  show ?case
  proof (cases "n < 10")
    case True
    then show ?thesis using digit_char_cases by (simp add: nat_str.simps[of n])
  next
    case False
    then show ?thesis using 1 digit_char_cases[of "n mod 10"]
      by (simp add: nat_str.simps[of n] digits_val_append)
  qed
qed

lemma nat_str_inj: "nat_str i = nat_str j \<longleftrightarrow> i = j"
  by (metis digits_val_nat_str option.inject)

lemma nat_str_digits: "set (nat_str n) \<subseteq> set ''0123456789''"
proof (induction n rule: nat_str.induct)
  case (1 n)
  have "digit_char d \<in> set ''0123456789''" if "d < 10" for d
    unfolding digit_char_def by (rule nth_mem) (use that in simp)
  moreover have "set [c] \<subseteq> D \<longleftrightarrow> c \<in> D" for c :: char and D by simp
  ultimately show ?case using 1 by (cases "n < 10") (simp_all only: nat_str.simps[of n] if_True if_False set_append Un_subset_iff
      mod_less_divisor zero_less_numeral simp_thms)
qed

lemma nat_str_chars: "nat_str n \<noteq> [] \<and> (\<forall>c \<in> set (nat_str n). \<not> is_space c \<and> c \<noteq> CHR ''-'' \<and> c \<noteq> CHR ''+'')"
proof (induction n rule: nat_str.induct)
  case (1 n)
  show ?case using 1 digit_char_cases[of n] digit_char_cases[of "n mod 10"]
    by (cases "n < 10") (auto simp: nat_str.simps[of n])
qed

lemma dropWhile_first: "xs \<noteq> [] \<Longrightarrow> \<not> P (hd xs) \<Longrightarrow> dropWhile P xs = xs"
  by (cases xs) auto

lemma dropWhile_none: "\<forall>c \<in> set s. \<not> P c \<Longrightarrow> dropWhile P s = s"
  by (cases s) auto

lemma strip_id: "\<forall>c \<in> set s. \<not> is_space c \<Longrightarrow> strip s = s"
  by (simp add: strip_def dropWhile_none)

lemma strip_newline: "\<forall>c \<in> set s. \<not> is_space c \<Longrightarrow> s \<noteq> [] \<Longrightarrow> strip (s @ [CHR 0x0A]) = s"
proof -
  assume s: "\<forall>c \<in> set s. \<not> is_space c" "s \<noteq> []"
  have "dropWhile is_space (s @ [CHR 0x0A]) = s @ [CHR 0x0A]"
    by (rule dropWhile_first) (use s in \<open>simp_all add: hd_append\<close>)
  then show ?thesis using s by (simp add: strip_def is_space_def[of "CHR 0x0A"] dropWhile_none)
qed

lemma int_of_nat_str: "strip s = nat_str n \<Longrightarrow> int_of_string s = Inr (int n)"
  using nat_str_chars[of n] digits_val_nat_str[of n]
  by (cases "nat_str n") (auto simp: int_of_string_def nat_of_string_def)

lemma int_of_int_str: "int_of_string (int_str i) = Inr i"
proof (cases "i < 0")
  case True
  have "strip (CHR ''-'' # nat_str (nat (- i))) = CHR ''-'' # nat_str (nat (- i))"
    by (rule strip_id) (use nat_str_chars in \<open>auto simp: is_space_def\<close>)
  then show ?thesis using True nat_str_chars[of "nat (- i)"] digits_val_nat_str[of "nat (- i)"]
    by (simp add: int_str_def int_of_string_def nat_of_string_def)
next
  case False
  have "strip (nat_str (nat i)) = nat_str (nat i)" by (rule strip_id) (use nat_str_chars in blast)
  from int_of_nat_str[OF this] show ?thesis using False by (simp add: int_str_def)
qed

definition join :: "'a list \<Rightarrow> 'a list list \<Rightarrow> 'a list" where
  "join sep xss = (case xss of [] \<Rightarrow> [] | xs # rest \<Rightarrow> xs @ concat (map (\<lambda>ys. sep @ ys) rest))"

text \<open>The slice \<open>xs[-n:]\<close>: the last \<open>n\<close> elements, but the whole list for \<open>n = 0\<close>.\<close>

definition slice_last :: "nat \<Rightarrow> 'a list \<Rightarrow> 'a list" where
  "slice_last n xs = (if n = 0 then xs else drop (length xs - n) xs)"

lemma slice_last_append: "0 < length ys \<Longrightarrow> slice_last (length ys) (xs @ ys) = ys"
  by (simp add: slice_last_def)

text \<open>Truth value of an object, as \<open>if v:\<close> tests it.\<close>

fun py_truth :: "pyval \<Rightarrow> bool" where
  "py_truth PyNone = False"
| "py_truth (PyBool b) = b"
| "py_truth (PyInt i) = (i \<noteq> 0)"
| "py_truth (PyFloat q) = (q \<noteq> 0)"
| "py_truth (PyStr s) = (s \<noteq> [])"
| "py_truth (PyDelta d) = (d \<noteq> 0)"
| "py_truth (PyBytes b) = (b \<noteq> [])"
| "py_truth (PyList xs) = (xs \<noteq> [])"
| "py_truth (PyDict d) = (d \<noteq> [])"
| "py_truth _ = True"

text \<open>The right operand of \<open>str + v\<close>, or the left one of \<open>v + str\<close>.\<close>

fun as_str :: "pyval \<Rightarrow> string result" where
  "as_str (PyStr s) = Inr s"
| "as_str _ = Inl TypeError"

lemma as_str_Inr [res_simps]: "as_str v = Inr s \<longleftrightarrow> v = PyStr s"
  by (cases v) auto

lemma as_str_Inl: "as_str v = Inl e \<Longrightarrow> e = TypeError"
  by (cases v) auto

section \<open>Lists\<close>

lemma length_filter_eq_iff: "length (filter P xs) = length xs \<longleftrightarrow> (\<forall>x \<in> set xs. P x)"
proof (induction xs)
  case (Cons x xs)
  moreover have "length (filter P xs) \<noteq> Suc (length xs)"
    using length_filter_le[of P xs] by linarith
  ultimately show ?case by auto
qed simp

text \<open>The first element with the largest key, as a scan with a strict comparison finds it.\<close>

fun first_max :: "('a \<Rightarrow> 'b::linorder) \<Rightarrow> 'a \<Rightarrow> 'a list \<Rightarrow> 'a" where
  "first_max f h [] = h"
| "first_max f h (x # xs) = first_max f (if f h < f x then x else h) xs"

lemma first_max_ge: "x \<in> set (h # xs) \<Longrightarrow> f x \<le> f (first_max f h xs)"
proof (induction xs arbitrary: h x)
  case (Cons y ys)
  let ?k = "if f h < f y then y else h"
  have "f x \<le> f ?k \<or> x \<in> set ys" using Cons.prems by auto
  then show ?case
    using Cons.IH[of ?k ?k] Cons.IH[of x ?k] by fastforce
qed simp

lemma first_max_split:
  "\<exists>pre post. h # xs = pre @ first_max f h xs # post \<and> (\<forall>x \<in> set pre. f x < f (first_max f h xs))"
proof (induction xs arbitrary: h)
  case Nil
  show ?case by (rule exI[of _ "[]"]) simp
next
  case (Cons y ys)
  show ?case
  proof (cases "f h < f y")
    case True
    have eq: "first_max f h (y # ys) = first_max f y ys" using True by simp
    obtain pre post where split: "y # ys = pre @ first_max f y ys # post"
      "\<forall>x \<in> set pre. f x < f (first_max f y ys)" using Cons.IH[of y] by blast
    have "f h < f (first_max f y ys)"
      using True first_max_ge[of y y ys f] by simp
    then have "\<forall>x \<in> set (h # pre). f x < f (first_max f y ys)" using split(2) by simp
    moreover have "h # y # ys = (h # pre) @ first_max f y ys # post" using split(1) by simp
    ultimately show ?thesis unfolding eq by blast
  next
    case False
    have eq: "first_max f h (y # ys) = first_max f h ys" using False by simp
    obtain pre post where split: "h # ys = pre @ first_max f h ys # post"
      "\<forall>x \<in> set pre. f x < f (first_max f h ys)" using Cons.IH[of h] by blast
    show ?thesis
    proof (cases pre)
      case Nil
      then have "h # y # ys = [] @ first_max f h ys # y # ys" using split(1) by (metis append_Nil list.inject)
      then show ?thesis unfolding eq by (metis empty_iff list.set(1))
    next
      case (Cons z zs)
      then have "h # y # ys = (h # y # zs) @ first_max f h ys # post"
        "\<forall>x \<in> set (h # y # zs). f x < f (first_max f h ys)"
        using split False by (auto simp: not_less intro: le_less_trans)
      then show ?thesis unfolding eq by blast
    qed
  qed
qed

lemma first_max_in: "first_max f h xs \<in> set (h # xs)"
  using first_max_split[of h xs f] by (metis in_set_conv_decomp)

lemma first_max_again: "first_max f h (h # xs) = first_max f h xs"
  by simp

text \<open>A filter whose test may raise: the first exception ends it.\<close>

fun filterE :: "('a \<Rightarrow> bool result) \<Rightarrow> 'a list \<Rightarrow> 'a list result" where
  "filterE P [] = Inr []"
| "filterE P (x # xs) =
     bindE (P x) (\<lambda>b. bindE (filterE P xs) (\<lambda>ys. Inr (if b then x # ys else ys)))"

lemma filterE_Inr:
  "filterE P xs = Inr ys \<longleftrightarrow> (\<forall>x \<in> set xs. \<exists>b. P x = Inr b) \<and> ys = filter (\<lambda>x. P x = Inr True) xs"
proof (induction xs arbitrary: ys)
  case (Cons x xs)
  then show ?case by (cases "P x") (auto simp: res_simps)
qed auto

lemma filterE_Inl: "(\<exists>e. filterE P xs = Inl e) \<longleftrightarrow> (\<exists>x \<in> set xs. \<exists>e. P x = Inl e)"
proof (induction xs)
  case (Cons x xs)
  then show ?case
    by (cases "P x"; cases "filterE P xs") auto
qed auto

lemma filterE_append:
  "filterE P (xs @ ys) = bindE (filterE P xs) (\<lambda>as. bindE (filterE P ys) (\<lambda>bs. Inr (as @ bs)))"
proof (induction xs)
  case Nil
  show ?case by (cases "filterE P ys") auto
next
  case (Cons x xs)
  show ?case
    by (cases "P x"; cases "filterE P xs"; cases "filterE P ys") (auto simp: Cons.IH)
qed

lemma filterE_cong:
  "(\<And>x. x \<in> set xs \<Longrightarrow> P x = Q x) \<Longrightarrow> filterE P xs = filterE Q xs"
  by (induction xs) auto

text \<open>A map whose function may raise: the first exception ends it.\<close>

fun mapE :: "('a \<Rightarrow> 'b result) \<Rightarrow> 'a list \<Rightarrow> 'b list result" where
  "mapE f [] = Inr []"
| "mapE f (x # xs) = bindE (f x) (\<lambda>y. bindE (mapE f xs) (\<lambda>ys. Inr (y # ys)))"

lemma mapE_Inr: "(\<And>x. x \<in> set xs \<Longrightarrow> f x = Inr (g x)) \<Longrightarrow> mapE f xs = Inr (map g xs)"
  by (induction xs) auto

lemma mapE_Inl: "(\<exists>e. mapE f xs = Inl e) \<longleftrightarrow> (\<exists>x \<in> set xs. \<exists>e. f x = Inl e)"
proof (induction xs)
  case (Cons x xs)
  then show ?case by (cases "f x"; cases "mapE f xs") auto
qed auto

section \<open>HTTP requests\<close>

text \<open>
  What a handler reads of a request: the content type header, if there is one, and the body as
  JSON or the exception decoding it raises.
\<close>

record http_body =
  content_type :: "string option"
  json_body :: "pyval result"

definition json_post :: "pyval \<Rightarrow> http_body" where
  "json_post v = \<lparr>content_type = Some ''application/json'', json_body = Inr v\<rparr>"

text \<open>Iteration over a JSON value.\<close>

fun py_iter :: "pyval \<Rightarrow> pyval list result" where
  "py_iter (PyList xs) = Inr xs"
| "py_iter (PyStr s) = Inr (map (\<lambda>c. PyStr [c]) s)"
| "py_iter (PyDict d) = Inr (map (\<lambda>p. PyStr (fst p)) d)"
| "py_iter _ = Inl TypeError"

text \<open>\<open>all(key in v for key in keys)\<close> and \<open>v.items()\<close>.\<close>

fun all_in :: "string list \<Rightarrow> pyval \<Rightarrow> bool result" where
  "all_in [] v = Inr True"
| "all_in (k # ks) v = bindE (py_in k v) (\<lambda>b. if b then all_in ks v else Inr False)"

fun py_items :: "pyval \<Rightarrow> pydict result" where
  "py_items (PyDict d) = Inr d"
| "py_items _ = Inl AttributeError"

lemma all_in_dict: "all_in ks (PyDict d) = Inr (\<forall>k \<in> set ks. has_key d k)"
  by (induction ks) auto

section \<open>Keyed tables\<close>

text \<open>
  The interface every dictionary of the coordinator is used through. The laws are those of a
  Python dictionary; the derived facts are shared by the threshold tables, the application
  registry and the flow tables.
\<close>

locale keyed_table =
  fixes lookup :: "'t \<Rightarrow> 'k \<Rightarrow> 'v option"
    and put :: "'k \<Rightarrow> 'v \<Rightarrow> 't \<Rightarrow> 't"
    and del :: "'k \<Rightarrow> 't \<Rightarrow> 't"
  assumes lookup_put: "lookup (put k v t) k' = (if k' = k then Some v else lookup t k')"
    and lookup_del: "lookup (del k t) k' = (if k' = k then None else lookup t k')"
begin

lemma put_found: "lookup (put k v t) k = Some v"
  by (simp add: lookup_put)

lemma put_other: "k' \<noteq> k \<Longrightarrow> lookup (put k v t) k' = lookup t k'"
  by (simp add: lookup_put)

lemma del_gone: "lookup (del k t) k = None"
  by (simp add: lookup_del)

lemma del_put_fresh: "lookup t k = None \<Longrightarrow> lookup (del k (put k v t)) = lookup t"
  by (rule ext) (simp add: lookup_put lookup_del)

lemma put_put: "lookup (put k v (put k u t)) = lookup (put k v t)"
  by (rule ext) (simp add: lookup_put)

lemma put_commute: "k \<noteq> k' \<Longrightarrow> lookup (put k v (put k' v' t)) = lookup (put k' v' (put k v t))"
  by (rule ext) (simp add: lookup_put)

end

interpretation dict: keyed_table map_of dict_put dict_del
  by unfold_locales simp_all

section \<open>Machines with an invariant\<close>

text \<open>
  Several components are a state, a step per event and an invariant each step keeps. The
  lift to whole runs is proved once.
\<close>

locale invariant_machine =
  fixes step :: "'s \<Rightarrow> 'e \<Rightarrow> 's"
    and inv :: "'s \<Rightarrow> bool"
  assumes step_inv: "inv s \<Longrightarrow> inv (step s e)"
begin

lemma run_inv: "inv s \<Longrightarrow> inv (foldl step s es)"
  by (induction es arbitrary: s) (auto intro: step_inv)

lemma run_inv_at: "inv s \<Longrightarrow> inv (foldl step s (take n es))"
  by (rule run_inv)

end

end
