(* ===== verification/Rpc.thy ===== *)
theory Rpc
  imports Py_Base
begin

text \<open>
  Remote calls and treatments: \<open>coordinator/core/rpc.py\<close> and
  \<open>coordinator/core/treatment.py\<close>.

  An HTTP request is a value; what the network answers is the argument \<open>net\<close> (a status code or
  the exception the \<open>requests\<close> library raises). Every operation returns the requests it sent,
  in order. The payload dictionary is mutated in place by the code
  (\<open>_dict_to_url_string\<close> rewrites the protocol), so the mutated payload is returned too.
\<close>

section \<open>Configuration and requests\<close>

record rpc =
  snort_uris :: "string list"
  onos_uri :: string

datatype http_req = HttpGet string | HttpPost string "pyval option"

type_synonym net = "http_req \<Rightarrow> int result"

definition snort_endpoint :: string where
  "snort_endpoint = ''snort''"

definition onos_endpoint :: string where
  "onos_endpoint = ''mervyn''"

definition onos_keys :: "string list" where
  "onos_keys = [''sourceIPv4Address'', ''sourceTransportPort'', ''destinationIPv4Address'',
     ''destinationTransportPort'', ''protocolIdentifier'']"

text \<open>The class attribute lists \<open>icmp\<close> twice and has no \<open>icmp6\<close>.\<close>

definition valid_protocol_identifiers :: "pyval list" where
  "valid_protocol_identifiers = [PyInt 1, PyInt 6, PyInt 17, PyInt 58,
     PyStr ''icmp'', PyStr ''tcp'', PyStr ''udp'', PyStr ''icmp'']"

definition protocol_identifier_map :: "(int \<times> string) list" where
  "protocol_identifier_map = [(1, ''icmp''), (6, ''tcp''), (17, ''udp''), (58, ''icmp6'')]"

text \<open>A dictionary lookup by an arbitrary value: keys that are equal numbers are the same key.\<close>

definition lookup_protocol :: "(int \<times> string) list \<Rightarrow> pyval \<Rightarrow> string option result" where
  "lookup_protocol m v = bindE (hash_key v) (\<lambda>h. Inr
     (case h of PyFloat q \<Rightarrow> map_of (map (\<lambda>p. (of_int (fst p) :: rat, snd p)) m) q | _ \<Rightarrow> None))"

section \<open>URL construction\<close>

fun wildcard_keys :: "string list \<Rightarrow> pydict \<Rightarrow> pydict" where
  "wildcard_keys [] d = d"
| "wildcard_keys (k # ks) d =
     wildcard_keys ks (if has_key d k then d else dict_put k (PyStr ''*'') d)"

definition wildcard_payload :: "pydict \<Rightarrow> pydict" where
  "wildcard_payload d = wildcard_keys onos_keys d"

definition payload_url :: "(pyval \<Rightarrow> string) \<Rightarrow> pydict \<Rightarrow> string result" where
  "payload_url repr_of d =
     bindE (bindE (py_item (PyDict d) ''sourceIPv4Address'') as_str) (\<lambda>src.
     bindE (py_item (PyDict d) ''sourceTransportPort'') (\<lambda>sport.
     bindE (bindE (py_item (PyDict d) ''destinationIPv4Address'') as_str) (\<lambda>dst.
     bindE (py_item (PyDict d) ''destinationTransportPort'') (\<lambda>dport.
     bindE (bindE (py_item (PyDict d) ''protocolIdentifier'') as_str) (\<lambda>prot.
       Inr (src @ ''/'' @ py_str repr_of sport @ ''/'' @ dst @ ''/'' @
            py_str repr_of dport @ ''/'' @ prot))))))"

text \<open>
  Result: the payload after the in-place rewrite, and \<open>None\<close> for an invalid protocol. On a
  payload that is not a dictionary the code fails at the membership test, at the subscription
  or at \<open>payload.keys()\<close>.
\<close>

fun dict_to_url_string :: "(pyval \<Rightarrow> string) \<Rightarrow> pyval \<Rightarrow> pyval \<times> string option result" where
  "dict_to_url_string repr_of (PyDict d) =
     (case map_of d ''protocolIdentifier'' of
        None \<Rightarrow> (PyDict d, bindE (payload_url repr_of (wildcard_payload d)) (\<lambda>u. Inr (Some u)))
      | Some p \<Rightarrow>
          if \<not> (\<exists>x \<in> set valid_protocol_identifiers. py_eq p x) then (PyDict d, Inr None)
          else
            (let d' = (case lookup_protocol protocol_identifier_map p of
                         Inr (Some name) \<Rightarrow> dict_put ''protocolIdentifier'' (PyStr name) d
                       | _ \<Rightarrow> d)
             in (PyDict d', bindE (payload_url repr_of (wildcard_payload d')) (\<lambda>u. Inr (Some u)))))"
| "dict_to_url_string repr_of v =
     (v, bindE (py_in ''protocolIdentifier'' v) (\<lambda>b. Inl (if b then TypeError else AttributeError)))"

section \<open>The two endpoints\<close>

definition parse_http_return_code :: "int \<Rightarrow> bool" where
  "parse_http_return_code status = (status = 200)"

definition onos_url :: "rpc \<Rightarrow> string \<Rightarrow> string \<Rightarrow> string" where
  "onos_url c modul method = ''http://'' @ onos_uri c @ ''/'' @ onos_endpoint @ ''/'' @ modul @ ''/'' @ method"

definition onos_get :: "net \<Rightarrow> string \<Rightarrow> http_req list \<times> bool result" where
  "onos_get net url =
     ([HttpGet url],
      Inr (case net (HttpGet url) of Inr status \<Rightarrow> parse_http_return_code status | Inl _ \<Rightarrow> False))"

definition rpc_onos ::
  "(pyval \<Rightarrow> string) \<Rightarrow> net \<Rightarrow> rpc \<Rightarrow> string \<Rightarrow> pyval \<Rightarrow> string \<Rightarrow> pyval \<times> http_req list \<times> bool result"
where
  "rpc_onos repr_of net c method payload modul =
     (if py_truth payload then
        (let (payload', r) = dict_to_url_string repr_of payload
         in (payload',
             (case r of
                Inl e \<Rightarrow> ([], Inl e)
              | Inr None \<Rightarrow> ([], Inr False)
              | Inr (Some u) \<Rightarrow> onos_get net (onos_url c modul method @ ''/'' @ u))))
      else (payload, onos_get net (onos_url c modul method)))"

fun snort_posts :: "net \<Rightarrow> string \<Rightarrow> pyval \<Rightarrow> string list \<Rightarrow> http_req list \<times> bool list" where
  "snort_posts net method payload [] = ([], [])"
| "snort_posts net method payload (uri # uris) =
     (let url = ''http://'' @ uri @ ''/'' @ snort_endpoint @ ''/'' @ ''rule/'' @ method;
          req = HttpPost url (if py_truth payload then Some payload else None);
          (reqs, res) = snort_posts net method payload uris
      in (req # reqs,
          (case net req of Inr status \<Rightarrow> parse_http_return_code status # res | Inl _ \<Rightarrow> res)))"

definition rpc_snort :: "net \<Rightarrow> rpc \<Rightarrow> string \<Rightarrow> pyval \<Rightarrow> http_req list \<times> bool" where
  "rpc_snort net c method payload =
     (let (reqs, res) = snort_posts net method payload (snort_uris c)
      in (reqs, length res = length (snort_uris c)))"

text \<open>Dispatch of \<open>RPC.call\<close> by component name; other names have no method.\<close>

definition rpc_call ::
  "(pyval \<Rightarrow> string) \<Rightarrow> net \<Rightarrow> rpc \<Rightarrow> string \<Rightarrow> string \<Rightarrow> pyval \<Rightarrow> string
    \<Rightarrow> pyval \<times> http_req list \<times> bool result"
where
  "rpc_call repr_of net c component method payload modul =
     (if component = ''onos'' then rpc_onos repr_of net c method payload modul
      else if component = ''snort'' then
        (let (reqs, b) = rpc_snort net c method payload in (payload, reqs, Inr b))
      else (payload, [], Inl AttributeError))"

section \<open>Treatments\<close>

text \<open>The methods of class \<open>Treatment\<close>: the ONOS method and module each one calls.\<close>

definition treatment_methods :: "(string \<times> string \<times> string) list" where
  "treatment_methods =
     [(''ipfix'', ''add'', ''ipfix''),
      (''snort_mirror'', ''add'', ''mirror''),
      (''snort_redir'', ''add'', ''redirect''),
      (''block'', ''add'', ''block''),
      (''ddos_set'', ''add'', ''block''),
      (''ddos_clear'', ''delete'', ''block'')]"

text \<open>
  \<open>getattr(self, '_' + match['treatment'])(treatment_fields)\<close>. The attribute
  \<open>_rpc_handler\<close> exists and is not callable; any other name is a missing attribute.
\<close>

definition treatment_apply ::
  "(pyval \<Rightarrow> string) \<Rightarrow> net \<Rightarrow> rpc \<Rightarrow> pyval \<Rightarrow> pyval \<Rightarrow> pyval \<times> http_req list \<times> unit result"
where
  "treatment_apply repr_of net c match tfields =
     (case bindE (py_item match ''treatment'') as_str of
        Inl e \<Rightarrow> (tfields, [], Inl e)
      | Inr t \<Rightarrow>
          (case map_of treatment_methods t of
             Some (method, modul) \<Rightarrow>
               (let (tfields', reqs, r) = rpc_call repr_of net c ''onos'' method tfields modul
                in (tfields', reqs, bindE r (\<lambda>_. Inr ())))
           | None \<Rightarrow>
               (tfields, [], Inl (if t = ''rpc_handler'' then TypeError else AttributeError))))"

section \<open>Lemmas\<close>

lemma wildcard_keys_lookup:
  "map_of (wildcard_keys ks d) k =
     (if k \<in> set ks \<and> \<not> has_key d k then Some (PyStr ''*'') else map_of d k)"
  by (induction ks arbitrary: d) (auto simp: has_key_def)

lemma wildcard_payload_lookup:
  "map_of (wildcard_payload d) k =
     (if k \<in> set onos_keys \<and> \<not> has_key d k then Some (PyStr ''*'') else map_of d k)"
  by (simp add: wildcard_payload_def wildcard_keys_lookup)

lemma wildcard_payload_id: "\<forall>k \<in> set onos_keys. has_key d k \<Longrightarrow> wildcard_payload d = d"
  by (simp add: wildcard_payload_def onos_keys_def)

text \<open>The text a payload field contributes to the URL; a missing field is a wildcard.\<close>

definition field_text :: "(pyval \<Rightarrow> string) \<Rightarrow> pydict \<Rightarrow> string \<Rightarrow> string" where
  "field_text repr_of d k = (case map_of d k of None \<Rightarrow> ''*'' | Some v \<Rightarrow> py_str repr_of v)"

text \<open>A field the code concatenates without \<open>str\<close> has to be a string when it is there.\<close>

definition text_or_missing :: "pydict \<Rightarrow> string \<Rightarrow> bool" where
  "text_or_missing d k = (case map_of d k of None \<Rightarrow> True | Some v \<Rightarrow> (\<exists>s. v = PyStr s))"

lemma field_text_wild:
  "text_or_missing d k \<Longrightarrow> k \<in> set onos_keys \<Longrightarrow>
    bindE (py_item (PyDict (wildcard_payload d)) k) as_str = Inr (field_text repr_of d k)"
  by (cases "map_of d k") (auto simp: wildcard_payload_lookup has_key_def text_or_missing_def field_text_def)

lemma port_text_wild:
  "k \<in> set onos_keys \<Longrightarrow>
    \<exists>v. py_item (PyDict (wildcard_payload d)) k = Inr v \<and> py_str repr_of v = field_text repr_of d k"
  by (cases "map_of d k") (auto simp: wildcard_payload_lookup has_key_def field_text_def)

lemma payload_url_ok:
  assumes "text_or_missing d ''sourceIPv4Address''" "text_or_missing d ''destinationIPv4Address''"
    "text_or_missing d ''protocolIdentifier''"
  shows "payload_url repr_of (wildcard_payload d) =
    Inr (join ''/'' (map (field_text repr_of d) onos_keys))"
proof -
  have k: "set onos_keys = {''sourceIPv4Address'', ''sourceTransportPort'', ''destinationIPv4Address'',
     ''destinationTransportPort'', ''protocolIdentifier''}" by (simp add: onos_keys_def)
  obtain v where v: "py_item (PyDict (wildcard_payload d)) ''sourceTransportPort'' = Inr v"
      "py_str repr_of v = field_text repr_of d ''sourceTransportPort''"
    using port_text_wild[of "''sourceTransportPort''" d repr_of] by (auto simp: k)
  obtain w where w: "py_item (PyDict (wildcard_payload d)) ''destinationTransportPort'' = Inr w"
      "py_str repr_of w = field_text repr_of d ''destinationTransportPort''"
    using port_text_wild[of "''destinationTransportPort''" d repr_of] by (auto simp: k)
  show ?thesis
    unfolding payload_url_def v(1) w(1)
    using assms k
    by (simp add: field_text_wild[where repr_of = repr_of] v w onos_keys_def join_def del: py_item.simps)
qed

lemma lookup_protocol_str [simp]: "lookup_protocol m (PyStr s) = Inr None"
  by (simp add: lookup_protocol_def)

definition resolve_protocol :: "pydict \<Rightarrow> pydict" where
  "resolve_protocol d =
     (case map_of d ''protocolIdentifier'' of
        None \<Rightarrow> d
      | Some p \<Rightarrow> (case lookup_protocol protocol_identifier_map p of
            Inr (Some name) \<Rightarrow> dict_put ''protocolIdentifier'' (PyStr name) d | _ \<Rightarrow> d))"

definition valid_protocol :: "pydict \<Rightarrow> bool" where
  "valid_protocol d =
     (case map_of d ''protocolIdentifier'' of
        None \<Rightarrow> True | Some p \<Rightarrow> (\<exists>x \<in> set valid_protocol_identifiers. py_eq p x))"

lemma dict_to_url_string_valid:
  "valid_protocol d \<Longrightarrow>
    dict_to_url_string repr_of (PyDict d) =
      (PyDict (resolve_protocol d),
       bindE (payload_url repr_of (wildcard_payload (resolve_protocol d))) (\<lambda>u. Inr (Some u)))"
  by (auto simp: valid_protocol_def resolve_protocol_def Let_def split: option.splits)

lemma dict_to_url_string_invalid:
  "\<not> valid_protocol d \<Longrightarrow> dict_to_url_string repr_of (PyDict d) = (PyDict d, Inr None)"
  by (auto simp: valid_protocol_def split: option.splits)

lemma valid_protocol_cases:
  assumes "py_eq p x" "x \<in> set valid_protocol_identifiers"
  shows "num_of p \<in> {Some 1, Some 6, Some 17, Some 58} \<or>
    p \<in> {PyStr ''icmp'', PyStr ''tcp'', PyStr ''udp''}"
  using assms by (cases p) (auto simp: valid_protocol_identifiers_def split: option.splits if_splits)

lemma lookup_protocol_num:
  "num_of p = Some q \<Longrightarrow>
    lookup_protocol m p = Inr (map_of (map (\<lambda>p. (of_int (fst p) :: rat, snd p)) m) q)"
  by (cases p) (auto simp: lookup_protocol_def)

lemma resolve_protocol_text: "valid_protocol d \<Longrightarrow> text_or_missing (resolve_protocol d) ''protocolIdentifier''"
proof (cases "map_of d ''protocolIdentifier''")
  case (Some p)
  assume "valid_protocol d"
  then have "num_of p \<in> {Some 1, Some 6, Some 17, Some 58} \<or>
      p \<in> {PyStr ''icmp'', PyStr ''tcp'', PyStr ''udp''}"
    using Some valid_protocol_cases by (auto simp: valid_protocol_def)
  then show ?thesis using Some
    by (auto simp: text_or_missing_def resolve_protocol_def lookup_protocol_num protocol_identifier_map_def)
qed (simp add: text_or_missing_def resolve_protocol_def)

lemma resolve_protocol_other:
  "k \<noteq> ''protocolIdentifier'' \<Longrightarrow> map_of (resolve_protocol d) k = map_of d k"
  by (auto simp: resolve_protocol_def split: option.splits sum.splits)

lemma resolve_protocol_Nil [simp]: "resolve_protocol d = [] \<longleftrightarrow> d = []"
  by (auto simp: resolve_protocol_def split: option.splits sum.splits)

lemma text_or_missing_resolve:
  "k \<noteq> ''protocolIdentifier'' \<Longrightarrow> text_or_missing (resolve_protocol d) k = text_or_missing d k"
  by (simp add: text_or_missing_def resolve_protocol_other)

lemma resolve_protocol_58:
  assumes "map_of d ''protocolIdentifier'' = Some p" "num_of p = Some 58"
  shows "\<not> valid_protocol (resolve_protocol d)"
  using assms
  by (simp add: resolve_protocol_def lookup_protocol_num protocol_identifier_map_def valid_protocol_def
      valid_protocol_identifiers_def)

lemma resolve_protocol_again:
  assumes "valid_protocol d" "\<And>p. map_of d ''protocolIdentifier'' = Some p \<Longrightarrow> num_of p \<noteq> Some 58"
  shows "valid_protocol (resolve_protocol d) \<and> resolve_protocol (resolve_protocol d) = resolve_protocol d"
proof (cases "map_of d ''protocolIdentifier''")
  case None
  then show ?thesis using assms by (simp add: resolve_protocol_def)
next
  case (Some p)
  have "num_of p \<in> {Some 1, Some 6, Some 17} \<or> p \<in> {PyStr ''icmp'', PyStr ''tcp'', PyStr ''udp''}"
    using Some assms valid_protocol_cases by (fastforce simp: valid_protocol_def)
  then show ?thesis using Some
    by (auto simp: resolve_protocol_def lookup_protocol_num protocol_identifier_map_def valid_protocol_def
        valid_protocol_identifiers_def)
qed

lemma rpc_onos_valid:
  assumes "d \<noteq> []" "valid_protocol d"
    "text_or_missing d ''sourceIPv4Address''" "text_or_missing d ''destinationIPv4Address''"
  shows "rpc_onos repr_of net c method (PyDict d) modul =
    (PyDict (resolve_protocol d),
     onos_get net (onos_url c modul method @ ''/'' @
       join ''/'' (map (field_text repr_of (resolve_protocol d)) onos_keys)))"
  using assms
  by (simp add: rpc_onos_def dict_to_url_string_valid resolve_protocol_text text_or_missing_resolve
      payload_url_ok del: dict_to_url_string.simps)

lemma rpc_onos_invalid:
  "d \<noteq> [] \<Longrightarrow> \<not> valid_protocol d \<Longrightarrow> rpc_onos repr_of net c method (PyDict d) modul = (PyDict d, [], Inr False)"
  by (simp add: rpc_onos_def dict_to_url_string_invalid del: dict_to_url_string.simps)

lemma rpc_onos_at_most_one: "length (fst (snd (rpc_onos repr_of net c method payload modul))) \<le> 1"
  by (auto simp: rpc_onos_def onos_get_def Let_def case_prod_beta split: sum.splits option.splits)

lemma treatment_apply_at_most_one:
  "treatment_apply repr_of net c match tfields = (tfields', reqs, r) \<Longrightarrow> length reqs \<le> 1"
proof -
  assume a: "treatment_apply repr_of net c match tfields = (tfields', reqs, r)"
  have "length (fst (snd (treatment_apply repr_of net c match tfields))) \<le> 1"
    using rpc_onos_at_most_one
    by (auto simp: treatment_apply_def rpc_call_def Let_def case_prod_beta split: sum.splits option.splits)
  then show ?thesis using a by simp
qed

lemma snort_posts_length:
  "length (fst (snort_posts net m p uris)) = length uris"
  "length (snd (snort_posts net m p uris)) =
     length (filter (\<lambda>r. \<exists>s. net r = Inr s) (fst (snort_posts net m p uris)))"
  by (induction uris) (auto simp: Let_def split: prod.splits sum.splits)

lemma snort_posts_all_answered:
  "length (snd (snort_posts net m p uris)) = length uris \<longleftrightarrow>
     (\<forall>r \<in> set (fst (snort_posts net m p uris)). \<exists>s. net r = Inr s)"
proof -
  let ?reqs = "fst (snort_posts net m p uris)"
  from length_filter_eq_iff[of "\<lambda>r. \<exists>s. net r = Inr s" ?reqs] show ?thesis
    by (simp only: snort_posts_length)
qed

section \<open>Properties\<close>





text \<open>
  \<open>RPC._snort\<close> posts to every configured Snort endpoint, in order, whatever the earlier
  ones answered; the result is true exactly when every endpoint answered at all. The status codes
  do not matter: a rule that every endpoint refused counts as installed.
\<close>

theorem snort_call_ignores_status:
  "let (reqs, ok) = rpc_snort net c method payload
   in map (\<lambda>r. case r of HttpPost u _ \<Rightarrow> u | HttpGet u \<Rightarrow> []) reqs =
        map (\<lambda>uri. ''http://'' @ uri @ ''/snort/rule/'' @ method) (snort_uris c) \<and>
      (ok \<longleftrightarrow> (\<forall>r \<in> set reqs. \<exists>status. net r = Inr status))"
proof -
  have "map (\<lambda>r. case r of HttpPost u _ \<Rightarrow> u | HttpGet u \<Rightarrow> []) (fst (snort_posts net method payload uris)) =
      map (\<lambda>uri. ''http://'' @ uri @ ''/snort/rule/'' @ method) uris" for uris
    by (induction uris) (auto simp: Let_def snort_endpoint_def split: prod.splits)
  then show ?thesis
    using snort_posts_all_answered[of net "method" payload "snort_uris c"]
    by (simp add: rpc_snort_def Let_def case_prod_beta)
qed

end
