(* ===== verification/Threshold_Store.thy ===== *)
theory Threshold_Store
  imports Py_Base
begin

text \<open>
  The threshold tables of \<open>coordinator/tennison.py\<close>, which the coordinator, the message
  handlers and the northbound interface share.

  A threshold is a mutable dictionary: the handlers keep references to it in their mask index
  while the northbound interface changes it in place. So thresholds live in an explicit heap and the tables
  map identifiers to addresses. A nested dictionary (\<open>fields\<close>, \<open>treatment_fields\<close>)
  belongs to one threshold and is part of its value.
\<close>

type_synonym table = "(pyval \<times> nat) list"

record store =
  heap :: "nat \<Rightarrow> pyval"
  next_addr :: nat
  ipfix_thr :: table
  snort_thr :: table

definition empty_store :: store where
  "empty_store = \<lparr>heap = (\<lambda>_. PyNone), next_addr = 0, ipfix_thr = [], snort_thr = []\<rparr>"

definition alloc :: "pyval \<Rightarrow> store \<Rightarrow> nat \<times> store" where
  "alloc v s = (next_addr s, s\<lparr>heap := (heap s)(next_addr s := v), next_addr := Suc (next_addr s)\<rparr>)"

definition heap_set :: "nat \<Rightarrow> pyval \<Rightarrow> store \<Rightarrow> store" where
  "heap_set a v s = s\<lparr>heap := (heap s)(a := v)\<rparr>"

text \<open>
  Every table entry points to an allocated object, ids are unique, and no two entries share an
  object.
\<close>

definition wf_table :: "nat \<Rightarrow> table \<Rightarrow> bool" where
  "wf_table n t \<longleftrightarrow> wf_dict t \<and> (\<forall>p \<in> set t. snd p < n) \<and> distinct (map snd t)"

definition wf_store :: "store \<Rightarrow> bool" where
  "wf_store s \<longleftrightarrow> wf_table (next_addr s) (ipfix_thr s) \<and> wf_table (next_addr s) (snort_thr s) \<and>
     snd ` set (ipfix_thr s) \<inter> snd ` set (snort_thr s) = {}"

text \<open>The operator \<open>==\<close> on two tables: same ids, and identical or equal values.\<close>

definition table_eq :: "store \<Rightarrow> table \<Rightarrow> table \<Rightarrow> bool" where
  "table_eq s t u \<longleftrightarrow> length t = length u \<and>
     (\<forall>p \<in> set t. case map_of u (fst p) of
        None \<Rightarrow> False | Some b \<Rightarrow> snd p = b \<or> py_eq (heap s (snd p)) (heap s b))"

section \<open>Loading the threshold file\<close>

text \<open>
  \<open>_extract_ipfix_thresholds\<close> and \<open>_extract_snort_thresholds\<close>: the same loop with
  another default prefix. An entry with an id is stored under it and loses its id field; the
  others get a default id from their position.
\<close>

fun extract_entry :: "string \<Rightarrow> nat \<Rightarrow> pyval \<Rightarrow> (pyval \<times> pyval) result" where
  "extract_entry prefix ti v =
     bindE (py_in ''id'' v) (\<lambda>b.
       if b then
         bindE (py_item v ''id'') (\<lambda>k. bindE (hash_key k) (\<lambda>_.
           Inr (k, (case v of PyDict d \<Rightarrow> PyDict (dict_del ''id'' d) | _ \<Rightarrow> v))))
       else Inr (PyStr (prefix @ nat_str ti), v))"

fun extract_loop :: "string \<Rightarrow> nat \<Rightarrow> pyval list \<Rightarrow> store \<Rightarrow> table \<Rightarrow> (store \<times> table) result" where
  "extract_loop prefix ti [] s t = Inr (s, t)"
| "extract_loop prefix ti (v # vs) s t =
     bindE (extract_entry prefix ti v) (\<lambda>(k, w).
       let (a, s') = alloc w s in extract_loop prefix (Suc ti) vs s' (dict_put k a t))"

definition extract_ipfix_thresholds :: "pyval list \<Rightarrow> store \<Rightarrow> (store \<times> table) result" where
  "extract_ipfix_thresholds vs s = extract_loop ''default_ipfix_'' 0 vs s []"

definition extract_snort_thresholds :: "pyval list \<Rightarrow> store \<Rightarrow> (store \<times> table) result" where
  "extract_snort_thresholds vs s = extract_loop ''default_snort_'' 0 vs s []"

text \<open>A YAML sequence; iterating over another value is outside the configuration format.\<close>

fun py_seq :: "pyval \<Rightarrow> pyval list result" where
  "py_seq (PyList xs) = Inr xs"
| "py_seq _ = Inl TypeError"

definition setup_thresholds :: "pyval \<Rightarrow> store result" where
  "setup_thresholds doc =
     bindE (bindE (py_item doc ''ipfix'') py_seq) (\<lambda>is.
     bindE (extract_ipfix_thresholds is empty_store) (\<lambda>(s1, ti).
     bindE (bindE (py_item doc ''snort'') py_seq) (\<lambda>ss.
     bindE (extract_snort_thresholds ss s1) (\<lambda>(s2, ts).
       Inr (s2\<lparr>ipfix_thr := ti, snort_thr := ts\<rparr>)))))"

section \<open>Well-formedness\<close>

lemma wf_table_put:
  assumes "wf_table n t" "n \<le> a"
  shows "wf_table (Suc a) (dict_put k a t)"
proof -
  have old: "wf_dict t" "distinct (map snd t)" "\<And>p. p \<in> set t \<Longrightarrow> snd p < n"
    using assms(1) by (auto simp: wf_table_def)
  have sub: "snd ` set (dict_put k a t) \<subseteq> insert a (snd ` set t)" for t :: table
    by (induction t) auto
  have "distinct (map snd (dict_put k a t))" if "distinct (map snd t)" "a \<notin> snd ` set t" for t :: table
    using that
  proof (induction t)
    case (Cons p t)
    then show ?case using sub[of t] by auto
  qed simp
  moreover have "a \<notin> snd ` set t" using old(3) assms(2) by fastforce
  ultimately have "distinct (map snd (dict_put k a t))" using old(2) by blast
  moreover have "\<forall>p \<in> set (dict_put k a t). snd p < Suc a"
    using sub[of t] old(3) assms(2) by fastforce
  ultimately show ?thesis using old(1) by (simp add: wf_table_def)
qed

lemma wf_table_mono: "wf_table n t \<Longrightarrow> n \<le> m \<Longrightarrow> wf_table m t"
  by (auto simp: wf_table_def)

lemma wf_table_del: "wf_table n t \<Longrightarrow> wf_table n (dict_del k t)"
proof -
  assume wf: "wf_table n t"
  have sub: "set (dict_del k t) \<subseteq> set t" for t :: table
    by (auto simp: AList.delete_eq)
  have "distinct (map snd t) \<Longrightarrow> distinct (map snd (dict_del k t))" for t :: table
    by (auto simp: AList.delete_eq distinct_map_filter)
  then show ?thesis using wf sub[of t] by (auto simp: wf_table_def)
qed

lemma table_values_put: "snd ` set (dict_put k a t) \<subseteq> insert a (snd ` set (t :: table))"
  by (induction t) auto

lemma table_values_del: "snd ` set (dict_del k t) \<subseteq> snd ` set (t :: table)"
  by (auto simp: AList.delete_eq)

lemma table_eq_refl: "wf_dict t \<Longrightarrow> table_eq s t t"
  by (auto simp: table_eq_def)

lemma table_eq_dom: "table_eq s t u \<Longrightarrow> wf_dict t \<Longrightarrow> wf_dict u \<Longrightarrow> set (map fst t) = set (map fst u)"
proof -
  assume eq: "table_eq s t u" and wf: "wf_dict t" "wf_dict u"
  have "set (map fst t) \<subseteq> set (map fst u)"
  proof
    fix k assume "k \<in> set (map fst t)"
    then obtain p where "p \<in> set t" "k = fst p" by auto
    with eq have "map_of u k \<noteq> None" by (auto simp: table_eq_def split: option.splits)
    then show "k \<in> set (map fst u)" by (simp add: map_of_eq_None_iff)
  qed
  moreover have "card (set (map fst t)) = card (set (map fst u))"
    using eq wf distinct_card[of "map fst t"] distinct_card[of "map fst u"] by (simp add: table_eq_def)
  ultimately show ?thesis by (simp add: card_subset_eq)
qed

lemma alloc_simps [simp]:
  "fst (alloc v s) = next_addr s"
  "heap (snd (alloc v s)) = (heap s)(next_addr s := v)"
  "next_addr (snd (alloc v s)) = Suc (next_addr s)"
  "ipfix_thr (snd (alloc v s)) = ipfix_thr s"
  "snort_thr (snd (alloc v s)) = snort_thr s"
  by (simp_all add: alloc_def)

lemma heap_set_simps [simp]:
  "heap (heap_set a v s) = (heap s)(a := v)"
  "next_addr (heap_set a v s) = next_addr s"
  "ipfix_thr (heap_set a v s) = ipfix_thr s"
  "snort_thr (heap_set a v s) = snort_thr s"
  by (simp_all add: heap_set_def)

lemma wf_store_heap_set [simp]: "wf_store (heap_set a v s) = wf_store s"
  by (simp add: wf_store_def)

lemma extract_loop_wf:
  assumes "extract_loop prefix ti vs s t = Inr (s', t')" "wf_table (next_addr s) t"
  shows "wf_table (next_addr s') t' \<and> next_addr s \<le> next_addr s' \<and>
    (\<forall>a < next_addr s. heap s' a = heap s a) \<and>
    snd ` set t' \<subseteq> snd ` set t \<union> {next_addr s ..< next_addr s'} \<and>
    ipfix_thr s' = ipfix_thr s \<and> snort_thr s' = snort_thr s"
  using assms
proof (induction vs arbitrary: ti s t)
  case (Cons v vs)
  then obtain k w where e: "extract_entry prefix ti v = Inr (k, w)"
    and rest: "extract_loop prefix (Suc ti) vs (snd (alloc w s)) (dict_put k (next_addr s) t) = Inr (s', t')"
    by (auto simp: res_simps alloc_def Let_def split: prod.splits simp del: extract_entry.simps)
  have wf: "wf_table (next_addr (snd (alloc w s))) (dict_put k (next_addr s) t)"
    using wf_table_put[OF Cons.prems(2), of "next_addr s" k] by simp
  note IH = Cons.IH[OF rest wf]
  have "snd ` set t' \<subseteq> snd ` set t \<union> {next_addr s ..< next_addr s'}"
  proof -
    have widen: "A \<subseteq> C \<union> {n ..< m}"
      if "A \<subseteq> B \<union> {Suc n ..< m}" "B \<subseteq> insert n C" "Suc n \<le> m" for A B C :: "nat set" and n m
      using that by fastforce
    show ?thesis by (rule widen[OF _ table_values_put[of k]]) (use IH in simp_all)
  qed
  moreover have "\<forall>a < next_addr s. heap s' a = heap s a"
    using IH by (simp add: less_Suc_eq)
  ultimately show ?case using IH by simp
qed simp

end
