(* ===== verification/Message_Handler.thy ===== *)
theory Message_Handler
  imports Threshold_Store Rpc "HOL-Library.Multiset"
begin

text \<open>
  The policy engine: \<open>coordinator/core/messagehandler.py\<close>.

  A message is a dictionary. A handler takes the shared threshold store and its own state and
  returns both updated, the HTTP requests it caused, and either success or the exception that
  left it. State changed before an exception stays changed, as in the code. The arguments of
  the environment record \<open>world\<close> stand for code outside the repository: the subnet test of the
  \<open>netaddr\<close> package, the text of values \<open>str\<close> prints, and the network. Each handler call gets the
  readings of the clock it makes, in microseconds.
\<close>

record world =
  in_network :: "pyval \<Rightarrow> pyval \<Rightarrow> bool result"
  text_of :: "pyval \<Rightarrow> string"
  answers :: net
  rpc_conf :: rpc

section \<open>Shared part: class MessageHandler\<close>

definition form_match_result :: "nat list \<Rightarrow> nat list option" where
  "form_match_result matches = (if length matches > 0 then Some matches else None)"

fun highest_from :: "store \<Rightarrow> nat \<Rightarrow> nat list \<Rightarrow> nat result" where
  "highest_from s highest [] = Inr highest"
| "highest_from s highest (m # ms) =
     bindE (py_item (heap s m) ''priority'') (\<lambda>pm.
     bindE (py_item (heap s highest) ''priority'') (\<lambda>ph.
     bindE (py_lt ph pm) (\<lambda>b.
       highest_from s (if b then m else highest) ms)))"

definition find_highest_priority_match :: "store \<Rightarrow> nat list \<Rightarrow> nat result" where
  "find_highest_priority_match s matches =
     (case matches of [] \<Rightarrow> Inl IndexError | m # _ \<Rightarrow> highest_from s m matches)"

text \<open>
  \<open>_create_treatment_fields\<close> replaces every field whose value is a dollar sign by the field of
  the message, inside the threshold itself. A missing field raises in the middle of the loop.
\<close>

fun resolve_dollars :: "pyval \<Rightarrow> pydict \<Rightarrow> pydict \<times> unit result" where
  "resolve_dollars pkt [] = ([], Inr ())"
| "resolve_dollars pkt ((k, v) # fs) =
     (if py_eq v (PyStr ''$'') then
        (case py_item pkt k of
           Inl e \<Rightarrow> ((k, v) # fs, Inl e)
         | Inr x \<Rightarrow> (let (fs', r) = resolve_dollars pkt fs in ((k, x) # fs', r)))
      else (let (fs', r) = resolve_dollars pkt fs in ((k, v) # fs', r)))"

text \<open>Result: the store, and the fields with a flag telling that they belong to the threshold.\<close>

definition create_treatment_fields :: "store \<Rightarrow> nat \<Rightarrow> pyval \<Rightarrow> store \<times> (bool \<times> pyval) result" where
  "create_treatment_fields s a pkt =
     (case py_in ''treatment_fields'' (heap s a) of
        Inl e \<Rightarrow> (s, Inl e)
      | Inr False \<Rightarrow> (s, Inr (False, pkt))
      | Inr True \<Rightarrow>
          (case py_item (heap s a) ''treatment_fields'' of
             Inl e \<Rightarrow> (s, Inl e)
           | Inr (PyDict d) \<Rightarrow>
               (let (d', r) = resolve_dollars pkt d
                in (heap_set a (py_set_item (heap s a) ''treatment_fields'' (PyDict d')) s,
                    bindE r (\<lambda>_. Inr (True, PyDict d'))))
           | Inr _ \<Rightarrow> (s, Inl AttributeError)))"

text \<open>
  \<open>Treatment.apply\<close> on a match: when the payload is the threshold's own dictionary the in-place
  rewrite of the RPC layer changes the threshold.
\<close>

definition apply_treatment ::
  "world \<Rightarrow> store \<Rightarrow> nat \<Rightarrow> bool \<Rightarrow> pyval \<Rightarrow> store \<times> http_req list \<times> unit result"
where
  "apply_treatment w s a own payload =
     (let (payload', reqs, r) = treatment_apply (text_of w) (answers w) (rpc_conf w) (heap s a) payload
      in (if own then heap_set a (py_set_item (heap s a) ''treatment_fields'' payload') s else s,
          reqs, r))"

section \<open>Class Snort\<close>

fun snort_matches :: "store \<Rightarrow> pydict \<Rightarrow> nat list \<Rightarrow> nat list result" where
  "snort_matches s msg as =
     filterE (\<lambda>a. bindE (py_item (heap s a) ''alertmsg'') (\<lambda>t.
                  bindE (py_item (PyDict msg) ''alertmsg'') (\<lambda>m. Inr (py_eq t m)))) as"

definition snort_find_match :: "store \<Rightarrow> pydict \<Rightarrow> nat list option result" where
  "snort_find_match s msg =
     bindE (snort_matches s msg (map snd (snort_thr s))) (\<lambda>ms. Inr (form_match_result ms))"

definition snort_handle :: "world \<Rightarrow> store \<Rightarrow> pydict \<Rightarrow> store \<times> http_req list \<times> unit result" where
  "snort_handle w s msg =
     (case snort_find_match s msg of
        Inl e \<Rightarrow> (s, [], Inl e)
      | Inr None \<Rightarrow> (s, [], bindE (bindE (py_item (PyDict msg) ''alertmsg'') as_str) (\<lambda>_. Inr ()))
      | Inr (Some matches) \<Rightarrow>
          (case bindE (find_highest_priority_match s matches) (\<lambda>a.
                bindE (py_item (PyDict msg) ''pkt'') (\<lambda>pkt. Inr (a, pkt))) of
             Inl e \<Rightarrow> (s, [], Inl e)
           | Inr (a, pkt) \<Rightarrow>
               (case create_treatment_fields s a pkt of
                  (s', Inl e) \<Rightarrow> (s', [], Inl e)
                | (s', Inr (own, payload)) \<Rightarrow> apply_treatment w s' a own payload)))"

section \<open>Class sFlowRT\<close>

definition split_head :: "char \<Rightarrow> pyval \<Rightarrow> string result" where
  "split_head c v = (case v of PyStr s \<Rightarrow> Inr (hd (split_on c s)) | _ \<Rightarrow> Inl AttributeError)"

definition sflow_host :: "pydict \<Rightarrow> string result" where
  "sflow_host msg =
     bindE (py_item (PyDict msg) ''action'') (\<lambda>act.
       if py_eq act (PyStr ''ddos_set'')
       then bindE (py_item (PyDict msg) ''dst'') (split_head (CHR '':''))
       else bindE (py_item (PyDict msg) ''flowKey'') (split_head (CHR '','')))"

definition sflow_handle :: "world \<Rightarrow> pydict \<Rightarrow> http_req list \<times> unit result" where
  "sflow_handle w msg =
     (case bindE (sflow_host msg) (\<lambda>host.
           bindE (py_item (PyDict msg) ''action'') (\<lambda>act. Inr (host, act))) of
        Inl e \<Rightarrow> ([], Inl e)
      | Inr (host, act) \<Rightarrow>
          (let criteria = PyDict [(''sourceIPv4Address'', PyStr host)];
               match = PyDict [(''priority'', PyInt 10), (''treatment'', act), (''criteria'', criteria)];
               (_, reqs, r) = treatment_apply (text_of w) (answers w) (rpc_conf w) match criteria
           in (reqs, r)))"

section \<open>Class IPFIX: state and mask index\<close>

text \<open>
  A flow is the tuple of its four fields in hashed form. \<open>masks\<close> files every threshold under
  the tuple of its field names; \<open>loaded\<close> is the copy of the table the index was built from.
\<close>

type_synonym flow = "pyval \<times> pyval \<times> pyval \<times> pyval"
type_synonym mask_index = "(string list \<times> nat list) list"

record delta_rec =
  last_message_time :: int
  last_byte_count :: pyval
  last_packet_count :: pyval

record avg_rec =
  total_bps :: rat
  total_pps :: rat
  message_count :: nat

record ipfix =
  loaded :: table
  masks :: mask_index
  delta_bps :: "(flow \<times> delta_rec) list"
  avg_bps :: "(flow \<times> avg_rec) list"

definition ipfix_empty :: ipfix where
  "ipfix_empty = \<lparr>loaded = [], masks = [], delta_bps = [], avg_bps = []\<rparr>"

definition mask_keys :: "pyval \<Rightarrow> string list result" where
  "mask_keys state =
     bindE (py_item state ''fields'') (\<lambda>f.
       case f of PyDict d \<Rightarrow> Inr (map fst d) | _ \<Rightarrow> Inl AttributeError)"

definition add_mask :: "string list \<Rightarrow> nat \<Rightarrow> mask_index \<Rightarrow> mask_index" where
  "add_mask ks a m = dict_put ks ((case map_of m ks of None \<Rightarrow> [] | Some as \<Rightarrow> as) @ [a]) m"

fun add_masks :: "store \<Rightarrow> nat list \<Rightarrow> mask_index \<Rightarrow> mask_index \<times> unit result" where
  "add_masks s [] m = (m, Inr ())"
| "add_masks s (a # as) m =
     (case mask_keys (heap s a) of
        Inl e \<Rightarrow> (m, Inl e)
      | Inr ks \<Rightarrow> add_masks s as (add_mask ks a m))"

definition create_initial_masks :: "store \<Rightarrow> table \<Rightarrow> ipfix \<Rightarrow> ipfix \<times> unit result" where
  "create_initial_masks s t i =
     (let (m, r) = add_masks s (map snd t) [] in (i\<lparr>loaded := t, masks := m\<rparr>, r))"

section \<open>Class IPFIX: matching\<close>

definition protocol_identifiers :: "(int \<times> string) list" where
  "protocol_identifiers = [(1, ''icmp''), (6, ''tcp''), (17, ''udp''), (58, ''icmp6'')]"

fun py_lower :: "pyval \<Rightarrow> string result" where
  "py_lower (PyStr s) = Inr (str_lower s)"
| "py_lower _ = Inl AttributeError"

definition test_protocol :: "pyval \<Rightarrow> pyval \<Rightarrow> bool result" where
  "test_protocol mv sv =
     bindE (lookup_protocol protocol_identifiers mv) (\<lambda>n.
     bindE (of_option KeyError n) (\<lambda>name.
     bindE (py_lower sv) (\<lambda>l. Inr (name = l))))"

definition test_ip_address :: "world \<Rightarrow> pyval \<Rightarrow> pyval \<Rightarrow> bool result" where
  "test_ip_address w mv sv =
     bindE (py_in ''/'' sv) (\<lambda>masked.
       if masked then in_network w mv sv else Inr (py_eq sv mv))"

definition test_field :: "world \<Rightarrow> string \<Rightarrow> pyval \<Rightarrow> pyval \<Rightarrow> bool result" where
  "test_field w k mv sv =
     (if k = ''protocolIdentifier'' then test_protocol mv sv
      else if k = ''sourceIPv4Address'' \<or> k = ''destinationIPv4Address'' then test_ip_address w mv sv
      else Inr (py_eq mv sv))"

fun test_fields :: "world \<Rightarrow> pydict \<Rightarrow> pydict \<Rightarrow> bool result" where
  "test_fields w msg [] = Inr True"
| "test_fields w msg ((k, sv) # fs) =
     bindE (py_item (PyDict msg) k) (\<lambda>mv.
     bindE (test_field w k mv sv) (\<lambda>b. if b then test_fields w msg fs else Inr False))"

definition test_match_similarity :: "world \<Rightarrow> pyval \<Rightarrow> pydict \<Rightarrow> bool result" where
  "test_match_similarity w state msg =
     bindE (py_item state ''fields'') (\<lambda>f.
       case f of PyDict d \<Rightarrow> test_fields w msg d | _ \<Rightarrow> Inl AttributeError)"

definition test_subtype :: "pyval \<Rightarrow> pydict \<Rightarrow> bool result" where
  "test_subtype state msg =
     bindE (py_in ''subtype'' state) (\<lambda>b.
       if b \<and> has_key msg ''subtype'' then
         bindE (py_item (PyDict msg) ''subtype'') (\<lambda>m.
         bindE (py_item state ''subtype'') (\<lambda>t. Inr (py_eq m t)))
       else Inr True)"

definition state_matches :: "world \<Rightarrow> store \<Rightarrow> pydict \<Rightarrow> nat \<Rightarrow> bool result" where
  "state_matches w s msg a =
     bindE (test_match_similarity w (heap s a) msg) (\<lambda>b.
       if b then test_subtype (heap s a) msg else Inr False)"

definition mask_applies :: "string list \<Rightarrow> pydict \<Rightarrow> bool" where
  "mask_applies ks msg = (\<forall>k \<in> set ks. has_key msg k)"

fun search_masks :: "world \<Rightarrow> store \<Rightarrow> pydict \<Rightarrow> mask_index \<Rightarrow> nat list result" where
  "search_masks w s msg [] = Inr []"
| "search_masks w s msg ((ks, as) # m) =
     (if mask_applies ks msg then
        bindE (filterE (state_matches w s msg) as) (\<lambda>xs.
        bindE (search_masks w s msg m) (\<lambda>ys. Inr (xs @ ys)))
      else search_masks w s msg m)"

definition find_mask_match :: "world \<Rightarrow> store \<Rightarrow> ipfix \<Rightarrow> pydict \<Rightarrow> nat list option result" where
  "find_mask_match w s i msg =
     bindE (search_masks w s msg (masks i)) (\<lambda>ms. Inr (form_match_result ms))"

section \<open>Class IPFIX: statistics\<close>

definition valid_metrics :: "string list" where
  "valid_metrics = [''byte_total'', ''packet_total'', ''byte_diff'', ''packet_diff'', ''time_diff'',
     ''delta_bps'', ''delta_pps'', ''avg_bps'', ''avg_pps'']"

definition check_threshold :: "pydict \<Rightarrow> pyval \<Rightarrow> bool result" where
  "check_threshold stats match =
     bindE (py_in ''metric'' match) (\<lambda>hm.
     bindE (py_in ''threshold'' match) (\<lambda>ht.
       if \<not> hm \<or> \<not> ht then Inr True else
       bindE (py_item match ''metric'') (\<lambda>metric.
         if \<not> (\<exists>v \<in> set valid_metrics. py_eq metric (PyStr v))
         then bindE (as_str metric) (\<lambda>_. Inr False)
         else bindE (as_str metric) (\<lambda>m.
           case map_of stats m of
             None \<Rightarrow> Inr False
           | Some x \<Rightarrow> bindE (py_item match ''threshold'') (\<lambda>t. py_lt t x)))))"

definition flow_of :: "pydict \<Rightarrow> flow result" where
  "flow_of msg =
     bindE (bindE (py_item (PyDict msg) ''sourceIPv4Address'') hash_key) (\<lambda>a.
     bindE (bindE (py_item (PyDict msg) ''destinationIPv4Address'') hash_key) (\<lambda>b.
     bindE (bindE (py_item (PyDict msg) ''sourceTransportPort'') hash_key) (\<lambda>c.
     bindE (bindE (py_item (PyDict msg) ''destinationTransportPort'') hash_key) (\<lambda>d.
       Inr (a, b, c, d)))))"

definition recognised :: "pydict \<Rightarrow> bool" where
  "recognised msg = (\<not> (\<not> has_key msg ''sourceIPv4Address'' \<or> \<not> has_key msg ''destinationIPv4Address'' \<or>
     \<not> has_key msg ''sourceTransportPort'' \<or> \<not> has_key msg ''destinationTransportPort''))"

definition diff_stats :: "int \<Rightarrow> delta_rec \<Rightarrow> pyval \<Rightarrow> pyval \<Rightarrow> pydict \<Rightarrow> pydict result" where
  "diff_stats now prev bytes packets stats =
     bindE (py_sub bytes (last_byte_count prev)) (\<lambda>bd.
     bindE (py_sub packets (last_packet_count prev)) (\<lambda>pd.
       let td = now - last_message_time prev;
           secs = timedelta_seconds td;
           stats' = stats @ [(''byte_diff'', bd), (''packet_diff'', pd), (''time_diff'', PyDelta td)]
       in if secs > 0 then
            bindE (py_truediv bd secs) (\<lambda>b.
            bindE (py_truediv pd secs) (\<lambda>p.
              Inr (stats' @ [(''delta_bps'', b), (''delta_pps'', p)])))
          else Inr stats'))"

definition stat_num :: "pydict \<Rightarrow> string \<Rightarrow> rat option" where
  "stat_num stats k = (case map_of stats k of Some (PyFloat q) \<Rightarrow> Some q | _ \<Rightarrow> None)"

text \<open>The running totals change only when the message yields both rates.\<close>

definition update_totals :: "pydict \<Rightarrow> avg_rec option \<Rightarrow> avg_rec option" where
  "update_totals stats old =
     (case (stat_num stats ''delta_bps'', stat_num stats ''delta_pps'') of
        (Some b, Some p) \<Rightarrow>
          (case old of
             Some r \<Rightarrow> Some \<lparr>total_bps = total_bps r + b, total_pps = total_pps r + p,
                          message_count = message_count r + 1\<rparr>
           | None \<Rightarrow> Some \<lparr>total_bps = b, total_pps = p, message_count = 1\<rparr>)
      | _ \<Rightarrow> old)"

definition average_stats :: "avg_rec option \<Rightarrow> pydict \<Rightarrow> pydict" where
  "average_stats r stats =
     (case r of
        None \<Rightarrow> stats
      | Some r \<Rightarrow> stats @
          [(''avg_bps'', PyFloat (total_bps r / of_nat (message_count r))),
           (''avg_pps'', PyFloat (total_pps r / of_nat (message_count r)))])"

text \<open>
  The middle part of \<open>IPFIX.handle\<close>: gather the statistics of the message's flow and update both
  tables. \<open>now1\<close> is read for the difference (if the flow is known), \<open>now2\<close> for the table.
\<close>

definition record_flow :: "int \<Rightarrow> int \<Rightarrow> pydict \<Rightarrow> ipfix \<Rightarrow> ipfix \<times> pydict result" where
  "record_flow now1 now2 msg i =
     (case bindE (py_item (PyDict msg) ''octetDeltaCount'') (\<lambda>bytes.
           bindE (py_item (PyDict msg) ''packetDeltaCount'') (\<lambda>packets.
           bindE (flow_of msg) (\<lambda>f.
           bindE (case map_of (delta_bps i) f of
                    None \<Rightarrow> Inr [(''byte_total'', bytes), (''packet_total'', packets)]
                  | Some prev \<Rightarrow> diff_stats now1 prev bytes packets
                      [(''byte_total'', bytes), (''packet_total'', packets)]) (\<lambda>stats.
             Inr (bytes, packets, f, stats))))) of
        Inl e \<Rightarrow> (i, Inl e)
      | Inr (bytes, packets, f, stats) \<Rightarrow>
          (let totals = update_totals stats (map_of (avg_bps i) f)
           in (i\<lparr>delta_bps := dict_put f \<lparr>last_message_time = now2, last_byte_count = bytes,
                                 last_packet_count = packets\<rparr> (delta_bps i),
                 avg_bps := (case totals of None \<Rightarrow> avg_bps i | Some r \<Rightarrow> dict_put f r (avg_bps i))\<rparr>,
               Inr (average_stats totals stats))))"

section \<open>Class IPFIX: handle\<close>

definition reload_masks :: "store \<Rightarrow> ipfix \<Rightarrow> ipfix \<times> unit result" where
  "reload_masks s i =
     (if table_eq s (loaded i) (ipfix_thr s) then (i, Inr ())
      else create_initial_masks s (ipfix_thr s) i)"

text \<open>The last part: pick the threshold with the highest priority and treat if it is exceeded.\<close>

definition ipfix_decide ::
  "world \<Rightarrow> store \<Rightarrow> ipfix \<Rightarrow> pydict \<Rightarrow> pydict \<Rightarrow> store \<times> http_req list \<times> unit result"
where
  "ipfix_decide w s i msg stats =
     (case find_mask_match w s i msg of
        Inl e \<Rightarrow> (s, [], Inl e)
      | Inr None \<Rightarrow> (s, [], Inr ())
      | Inr (Some matches) \<Rightarrow>
          (case bindE (find_highest_priority_match s matches) (\<lambda>a.
                bindE (check_threshold stats (heap s a)) (\<lambda>exceeded. Inr (a, exceeded))) of
             Inl e \<Rightarrow> (s, [], Inl e)
           | Inr (a, False) \<Rightarrow> (s, [], Inr ())
           | Inr (a, True) \<Rightarrow>
               (case py_in ''treatment_fields'' (heap s a) of
                  Inl e \<Rightarrow> (s, [], Inl e)
                | Inr True \<Rightarrow>
                    (case py_item (heap s a) ''treatment_fields'' of
                       Inl e \<Rightarrow> (s, [], Inl e)
                     | Inr payload \<Rightarrow> apply_treatment w s a True payload)
                | Inr False \<Rightarrow> apply_treatment w s a False (PyDict msg))))"

definition ipfix_handle ::
  "world \<Rightarrow> int \<Rightarrow> int \<Rightarrow> pydict \<Rightarrow> store \<Rightarrow> ipfix \<Rightarrow> store \<times> ipfix \<times> http_req list \<times> unit result"
where
  "ipfix_handle w now1 now2 msg s i =
     (case reload_masks s i of
        (i1, Inl e) \<Rightarrow> (s, i1, [], Inl e)
      | (i1, Inr _) \<Rightarrow>
          (if \<not> recognised msg then (s, i1, [], Inr ())
           else (case record_flow now1 now2 msg i1 of
               (i2, Inl e) \<Rightarrow> (s, i2, [], Inl e)
             | (i2, Inr stats) \<Rightarrow>
                 (let (s', reqs, r) = ipfix_decide w s i2 msg stats in (s', i2, reqs, r)))))"

section \<open>Dispatch\<close>

text \<open>
  \<open>MessageHandler.handle\<close>: \<open>getattr(self, '_' + message['type']).handle(message)\<close>. No
  attribute of another name has a method \<open>handle\<close>.
\<close>

definition handle_message ::
  "world \<Rightarrow> int \<Rightarrow> int \<Rightarrow> pydict \<Rightarrow> store \<Rightarrow> ipfix \<Rightarrow> store \<times> ipfix \<times> http_req list \<times> unit result"
where
  "handle_message w now1 now2 msg s i =
     (case bindE (py_item (PyDict msg) ''type'') as_str of
        Inl e \<Rightarrow> (s, i, [], Inl e)
      | Inr t \<Rightarrow>
          (if t = ''ipfix'' then ipfix_handle w now1 now2 msg s i
           else if t = ''snort'' then
             (let (s', reqs, r) = snort_handle w s msg in (s', i, reqs, r))
           else if t = ''sflowrt'' then
             (let (reqs, r) = sflow_handle w msg in (s, i, reqs, r))
           else (s, i, [], Inl AttributeError)))"

section \<open>The mask index is an optimisation\<close>

text \<open>
  The reference: a threshold matches a message directly when the message has all its fields and
  every field and the subtype agree.
\<close>

definition direct_match :: "world \<Rightarrow> store \<Rightarrow> pydict \<Rightarrow> nat \<Rightarrow> bool result" where
  "direct_match w s msg a =
     bindE (mask_keys (heap s a)) (\<lambda>ks.
       if mask_applies ks msg then state_matches w s msg a else Inr False)"

definition filed_under :: "store \<Rightarrow> mask_index \<Rightarrow> bool" where
  "filed_under s m \<longleftrightarrow> (\<forall>e \<in> set m. \<forall>a \<in> set (snd e). mask_keys (heap s a) = Inr (fst e))"

definition filed :: "mask_index \<Rightarrow> nat list" where
  "filed m = concat (map snd m)"

lemma filed_simps [simp]: "filed [] = []" "filed (e # m) = snd e @ filed m"
  by (simp_all add: filed_def)

lemma search_masks_direct:
  "filed_under s m \<Longrightarrow> search_masks w s msg m = filterE (direct_match w s msg) (filed m)"
proof (induction w s msg m rule: search_masks.induct)
  case (2 w s msg ks as m)
  have dm: "\<And>a. a \<in> set as \<Longrightarrow> direct_match w s msg a =
      (if mask_applies ks msg then state_matches w s msg a else Inr False)"
    using 2(3) by (auto simp: filed_under_def direct_match_def)
  have fm: "filed_under s m" using 2(3) by (auto simp: filed_under_def)
  show ?case
  proof (cases "mask_applies ks msg")
    case True
    have "filterE (direct_match w s msg) as = filterE (state_matches w s msg) as"
      by (rule filterE_cong) (simp add: dm True)
    then show ?thesis using 2(1)[OF True fm] True
      by (cases "filterE (state_matches w s msg) as") (auto simp: filterE_append)
  next
    case False
    have "filterE (direct_match w s msg) as = Inr []"
      unfolding filterE_Inr by (auto simp: dm False intro: exI[of _ False])
    then show ?thesis using 2(2)[OF False fm] False
      by (cases "filterE (direct_match w s msg) (filed m)") (auto simp: filterE_append)
  qed
qed simp

lemma mset_filed_add: "mset (filed (add_mask ks a m)) = add_mset a (mset (filed m))"
proof -
  have "mset (filed (dict_put ks xs m)) + mset (case map_of m ks of None \<Rightarrow> [] | Some as \<Rightarrow> as) =
      mset (filed m) + mset xs" for xs
    by (induction m) (auto simp: filed_def)
  from this[of "(case map_of m ks of None \<Rightarrow> [] | Some as \<Rightarrow> as) @ [a]"] show ?thesis
    by (simp add: add_mask_def add.commute)
qed

lemma filed_under_add:
  assumes "filed_under s m" "mask_keys (heap s a) = Inr ks"
  shows "filed_under s (add_mask ks a m)"
proof -
  have "set (dict_put ks xs m) \<subseteq> insert (ks, xs) (set m)" for xs
    by (induction m) auto
  moreover have "\<And>b as. map_of m ks = Some as \<Longrightarrow> b \<in> set as \<Longrightarrow> mask_keys (heap s b) = Inr ks"
    using assms(1) by (fastforce simp: filed_under_def dest: map_of_SomeD)
  ultimately show ?thesis using assms
    by (fastforce simp: filed_under_def add_mask_def split: option.splits)
qed

lemma add_masks_ok:
  assumes "add_masks s as m = (m', Inr ())" "filed_under s m"
  shows "filed_under s m' \<and> mset (filed m') = mset (filed m) + mset as"
  using assms
proof (induction s as m arbitrary: m' rule: add_masks.induct)
  case (2 s a as m)
  then obtain ks where ks: "mask_keys (heap s a) = Inr ks"
    and rest: "add_masks s as (add_mask ks a m) = (m', Inr ())"
    by (auto split: sum.splits)
  show ?case
    using 2(1)[OF ks rest filed_under_add[OF 2(3) ks]] by (simp add: mset_filed_add)
qed simp

text \<open>
  The state of the index: built from the loaded table without an exception and still filing
  every threshold under its present field names.
\<close>

definition index_ok :: "store \<Rightarrow> ipfix \<Rightarrow> bool" where
  "index_ok s i \<longleftrightarrow> filed_under s (masks i) \<and> mset (filed (masks i)) = mset (map snd (loaded i))"

lemma create_initial_masks_ok:
  assumes "create_initial_masks s t i = (i', Inr ())"
  shows "index_ok s i' \<and> loaded i' = t \<and> delta_bps i' = delta_bps i \<and> avg_bps i' = avg_bps i"
proof -
  obtain m where m: "add_masks s (map snd t) [] = (m, Inr ())" "i' = i\<lparr>loaded := t, masks := m\<rparr>"
    using assms by (auto simp: create_initial_masks_def split: prod.splits)
  have "filed_under s [] \<Longrightarrow> filed_under s m \<and> mset (filed m) = mset (filed []) + mset (map snd t)"
    by (rule add_masks_ok[OF m(1)])
  then show ?thesis using m(2) by (simp add: index_ok_def filed_under_def)
qed

lemma filterE_mset_Inl:
  assumes "mset xs = mset ys"
  shows "(\<exists>e. filterE P xs = Inl e) \<longleftrightarrow> (\<exists>e. filterE P ys = Inl e)"
  using assms by (metis filterE_Inl mset_eq_setD)

lemma find_mask_match_direct:
  assumes "index_ok s i"
  shows "find_mask_match w s i msg =
    bindE (filterE (direct_match w s msg) (filed (masks i))) (\<lambda>ms. Inr (form_match_result ms))"
  using assms by (simp add: find_mask_match_def index_ok_def search_masks_direct)

lemma form_match_result_simps:
  "form_match_result ms = None \<longleftrightarrow> ms = []"
  "form_match_result ms = Some ns \<longleftrightarrow> ms = ns \<and> ns \<noteq> []"
  by (auto simp: form_match_result_def)

section \<open>Priorities\<close>

text \<open>The priority of a threshold as a number; \<open>None\<close> when it is missing or not numeric.\<close>

definition priority_of :: "store \<Rightarrow> nat \<Rightarrow> rat option" where
  "priority_of s a = (case py_item (heap s a) ''priority'' of Inl _ \<Rightarrow> None | Inr v \<Rightarrow> num_of v)"

lemma priority_of_Some:
  "priority_of s a = Some p \<Longrightarrow> \<exists>v. py_item (heap s a) ''priority'' = Inr v \<and> num_of v = Some p"
  by (auto simp: priority_of_def split: sum.splits)

lemma py_lt_num: "num_of v = Some a \<Longrightarrow> num_of w = Some b \<Longrightarrow> py_lt v w = Inr (a < b)"
  by (cases v) auto

lemma highest_from_step:
  assumes "priority_of s h = Some ph" "priority_of s m = Some pm"
  shows "highest_from s h (m # ms) = highest_from s (if ph < pm then m else h) ms"
  using priority_of_Some[OF assms(1)] priority_of_Some[OF assms(2)]
  by (auto simp: py_lt_num)

lemma highest_from_first_max:
  assumes "\<forall>m \<in> set (h # ms). \<exists>p. priority_of s m = Some p"
  shows "highest_from s h ms = Inr (first_max (\<lambda>m. the (priority_of s m)) h ms)"
  using assms
proof (induction ms arbitrary: h)
  case (Cons m ms)
  then obtain ph pm where p: "priority_of s h = Some ph" "priority_of s m = Some pm" by auto
  show ?case
    using Cons.prems p by (simp add: highest_from_step[OF p] Cons.IH del: highest_from.simps(2))
qed simp

lemma find_highest_first_max:
  assumes "\<forall>m \<in> set (h # ms). \<exists>p. priority_of s m = Some p"
  shows "find_highest_priority_match s (h # ms) = Inr (first_max (\<lambda>m. the (priority_of s m)) h (h # ms))"
  unfolding find_highest_priority_match_def using highest_from_first_max[of h "h # ms"] assms by simp

section \<open>What a decision sends\<close>

lemma apply_treatment_at_most_one:
  "apply_treatment w s a own payload = (s', reqs, r) \<Longrightarrow> length reqs \<le> 1"
  using treatment_apply_at_most_one
  by (auto simp: apply_treatment_def split: prod.splits)

lemma ipfix_decide_sends:
  assumes "ipfix_decide w s i msg stats = (s', reqs, r)" "reqs \<noteq> []"
  shows "length reqs = 1 \<and> (\<exists>matches a. find_mask_match w s i msg = Inr (Some matches) \<and>
    find_highest_priority_match s matches = Inr a \<and> check_threshold stats (heap s a) = Inr True)"
proof -
  obtain matches where m: "find_mask_match w s i msg = Inr (Some matches)"
    using assms by (auto simp: ipfix_decide_def split: sum.splits option.splits)
  obtain a b where ab: "find_highest_priority_match s matches = Inr a" "check_threshold stats (heap s a) = Inr b"
    using assms by (auto simp: ipfix_decide_def m res_simps split: sum.splits)
  have b: "b" using assms by (auto simp: ipfix_decide_def m ab split: bool.splits)
  have "length reqs \<le> 1"
    using assms apply_treatment_at_most_one
    by (auto simp: ipfix_decide_def m ab b split: sum.splits bool.splits)
  with assms(2) have "length reqs = 1" by (cases reqs) auto
  with m ab b show ?thesis by simp
qed

lemma index_ok_equivalent:
  assumes ok: "index_ok s i"
  shows "case find_mask_match w s i msg of
      Inr found \<Rightarrow>
        (\<forall>a \<in> set (map snd (loaded i)). \<exists>b. direct_match w s msg a = Inr b) \<and> found \<noteq> Some [] \<and>
        mset (case found of None \<Rightarrow> [] | Some ms \<Rightarrow> ms) =
          mset (filter (\<lambda>a. direct_match w s msg a = Inr True) (map snd (loaded i)))
    | Inl e \<Rightarrow> (\<exists>a \<in> set (map snd (loaded i)). \<exists>e'. direct_match w s msg a = Inl e')"
proof -
  have perm: "mset (filed (masks i)) = mset (map snd (loaded i))" using ok by (simp add: index_ok_def)
  then have same: "set (filed (masks i)) = set (map snd (loaded i))" by (metis set_mset_mset)
  show ?thesis
  proof (cases "filterE (direct_match w s msg) (filed (masks i))")
    case (Inl e)
    then have "\<exists>a \<in> set (map snd (loaded i)). \<exists>e'. direct_match w s msg a = Inl e'"
      using filterE_Inl[of "direct_match w s msg" "filed (masks i)"] same by blast
    then show ?thesis by (simp add: find_mask_match_direct[OF ok] Inl)
  next
    case (Inr ms)
    then have all: "\<forall>a \<in> set (map snd (loaded i)). \<exists>b. direct_match w s msg a = Inr b"
      and ms: "ms = filter (\<lambda>a. direct_match w s msg a = Inr True) (filed (masks i))"
      using same by (simp_all add: filterE_Inr)
    have "mset ms = mset (filter (\<lambda>a. direct_match w s msg a = Inr True) (map snd (loaded i)))"
      unfolding ms mset_filter perm ..
    moreover have "(case form_match_result ms of None \<Rightarrow> [] | Some ns \<Rightarrow> ns) = ms"
      by (simp add: form_match_result_def)
    ultimately show ?thesis using all
      by (simp add: find_mask_match_direct[OF ok] Inr form_match_result_simps)
  qed
qed

section \<open>Handlers and the mask index\<close>

text \<open>No handler writes the \<open>fields\<close> of a threshold, so the index stays correct.\<close>

lemma mask_keys_set_treatment [simp]:
  "mask_keys (py_set_item v ''treatment_fields'' x) = mask_keys v"
  by (cases v) (auto simp: mask_keys_def)

definition same_fields :: "store \<Rightarrow> store \<Rightarrow> bool" where
  "same_fields s s' \<longleftrightarrow> (\<forall>a. mask_keys (heap s' a) = mask_keys (heap s a)) \<and>
     ipfix_thr s' = ipfix_thr s \<and> snort_thr s' = snort_thr s \<and> next_addr s' = next_addr s"

lemma same_fields_refl [simp]: "same_fields s s"
  by (simp add: same_fields_def)

lemma same_fields_trans: "same_fields s s' \<Longrightarrow> same_fields s' s'' \<Longrightarrow> same_fields s s''"
  by (simp add: same_fields_def)

lemma same_fields_set_treatment [simp]:
  "same_fields s (heap_set a (py_set_item (heap s a) ''treatment_fields'' x) s)"
  by (simp add: same_fields_def)

lemma same_fields_index: "same_fields s s' \<Longrightarrow> index_ok s i \<Longrightarrow> index_ok s' i"
  by (simp add: same_fields_def index_ok_def filed_under_def)

lemma apply_treatment_fields: "same_fields s (fst (apply_treatment w s a own payload))"
  by (simp add: apply_treatment_def case_prod_beta)

lemma create_treatment_fields_fields: "same_fields s (fst (create_treatment_fields s a pkt))"
  by (auto simp: create_treatment_fields_def case_prod_beta Let_def split: sum.split bool.split pyval.split)

lemma snort_handle_fields: "same_fields s (fst (snort_handle w s msg))"
proof -
  have "same_fields s (fst (case create_treatment_fields s a pkt of
      (s', Inl e) \<Rightarrow> (s', [], Inl e) | (s', Inr (own, payload)) \<Rightarrow> apply_treatment w s' a own payload))" for a pkt
    using create_treatment_fields_fields[of s a pkt] apply_treatment_fields same_fields_trans
    by (auto split: prod.split sum.split)
  then show ?thesis
    by (auto simp: snort_handle_def split: sum.split option.split)
qed

lemma ipfix_decide_fields: "same_fields s (fst (ipfix_decide w s i msg stats))"
  using apply_treatment_fields
  by (auto simp: ipfix_decide_def split: sum.split option.split bool.split)

lemma record_flow_index:
  "masks (fst (record_flow n1 n2 msg i)) = masks i" "loaded (fst (record_flow n1 n2 msg i)) = loaded i"
  by (auto simp: record_flow_def Let_def split: sum.split)

lemma reload_masks_ok:
  assumes "index_ok s i" "wf_dict (ipfix_thr s)" "reload_masks s i = (i', Inr ())"
  shows "index_ok s i' \<and> table_eq s (loaded i') (ipfix_thr s) \<and> delta_bps i' = delta_bps i \<and> avg_bps i' = avg_bps i"
proof (cases "table_eq s (loaded i) (ipfix_thr s)")
  case True
  then show ?thesis using assms by (simp add: reload_masks_def)
next
  case False
  then have "create_initial_masks s (ipfix_thr s) i = (i', Inr ())"
    using assms by (simp add: reload_masks_def)
  then show ?thesis using create_initial_masks_ok table_eq_refl assms(2) by metis
qed

lemma index_ok_frame: "masks i = masks j \<Longrightarrow> loaded i = loaded j \<Longrightarrow> index_ok s i = index_ok s j"
  by (simp add: index_ok_def)

lemma ipfix_handle_index:
  assumes "index_ok s i" "wf_dict (ipfix_thr s)" "ipfix_handle w n1 n2 msg s i = (s', i', reqs, Inr ())"
  shows "same_fields s s' \<and> index_ok s' i'"
proof -
  obtain i1 r1 where rl: "reload_masks s i = (i1, r1)" by fastforce
  then have "r1 = Inr ()" using assms(3) by (auto simp: ipfix_handle_def split: sum.splits)
  then have ok1: "index_ok s i1" using reload_masks_ok assms rl by blast
  show ?thesis
  proof (cases "recognised msg")
    case False
    then show ?thesis using assms(3) ok1 \<open>r1 = Inr ()\<close> by (auto simp: ipfix_handle_def rl)
  next
    case True
    obtain i2 r2 where rf: "record_flow n1 n2 msg i1 = (i2, r2)" by fastforce
    then obtain stats where r2: "r2 = Inr stats"
      using assms(3) True \<open>r1 = Inr ()\<close> by (cases r2) (auto simp: ipfix_handle_def rl)
    have "i' = i2" "s' = fst (ipfix_decide w s i2 msg stats)"
      using assms(3) True \<open>r1 = Inr ()\<close> by (auto simp: ipfix_handle_def rl rf r2 split: prod.splits)
    moreover have "index_ok s i2"
      using ok1 record_flow_index[of n1 n2 msg i1] index_ok_frame[of i2 i1 s] rf by simp
    ultimately show ?thesis
      using ipfix_decide_fields[of s w i2 msg stats] same_fields_index by blast
  qed
qed

section \<open>Properties: matching\<close>

text \<open>
  C3: the mask index never changes the outcome of matching. On an index built from a threshold
  table the search returns the thresholds that match the message directly, each once and none
  else; it reports "no match" exactly when there is none, and it raises exactly when testing
  some threshold of the table raises.
\<close>

theorem mask_index_equivalent:
  assumes "create_initial_masks s t i = (i', Inr ())"
  shows "case find_mask_match w s i' msg of
      Inr found \<Rightarrow>
        (\<forall>a \<in> set (map snd t). \<exists>b. direct_match w s msg a = Inr b) \<and> found \<noteq> Some [] \<and>
        mset (case found of None \<Rightarrow> [] | Some ms \<Rightarrow> ms) =
          mset (filter (\<lambda>a. direct_match w s msg a = Inr True) (map snd t))
    | Inl e \<Rightarrow> (\<exists>a \<in> set (map snd t). \<exists>e'. direct_match w s msg a = Inl e')"
proof -
  have ok: "index_ok s i'" and t: "t = loaded i'" using create_initial_masks_ok[OF assms] by auto
  show ?thesis unfolding t by (rule index_ok_equivalent[OF ok])
qed

definition demo_world :: world where
  "demo_world = \<lparr>in_network = (\<lambda>a n. Inr (a = PyStr ''10.0.0.7'' \<and> n = PyStr ''10.0.0.0/24'')),
     text_of = (\<lambda>_. []), answers = (\<lambda>_. Inr 200),
     rpc_conf = \<lparr>snort_uris = [], onos_uri = ''onos''\<rparr>\<rparr>"

definition demo_threshold :: "int \<Rightarrow> string \<Rightarrow> pyval" where
  "demo_threshold p t = PyDict [(''priority'', PyInt p), (''subtype'', PyStr ''prefix''),
     (''treatment'', PyStr t), (''fields'', PyDict [(''destinationTransportPort'', PyInt 21)])]"

definition demo_store :: store where
  "demo_store = \<lparr>heap = (\<lambda>_. PyNone)(0 := demo_threshold 10 ''block'', 1 := demo_threshold 40 ''snort_mirror''),
     next_addr = 2, ipfix_thr = [(PyStr ''a'', 0), (PyStr ''b'', 1)], snort_thr = []\<rparr>"

lemma demo_heap: "heap demo_store 0 = demo_threshold 10 ''block''"
  "heap demo_store 1 = demo_threshold 40 ''snort_mirror''" "heap demo_store (Suc 0) = demo_threshold 40 ''snort_mirror''"
  by (simp_all add: demo_store_def)

definition demo_ipfix :: ipfix where
  "demo_ipfix = fst (create_initial_masks demo_store (ipfix_thr demo_store) ipfix_empty)"

lemma demo_ipfix_built:
  "create_initial_masks demo_store (ipfix_thr demo_store) ipfix_empty = (demo_ipfix, Inr ())"
  by (simp add: demo_ipfix_def create_initial_masks_def demo_store_def demo_threshold_def mask_keys_def
      Let_def)

lemma demo_ipfix_masks: "masks demo_ipfix = [([''destinationTransportPort''], [0, 1])]"
  by (simp add: demo_ipfix_def create_initial_masks_def demo_store_def demo_threshold_def mask_keys_def
      add_mask_def)

definition demo_message :: "int \<Rightarrow> pydict" where
  "demo_message port = [(''type'', PyStr ''ipfix''), (''subtype'', PyStr ''prefix''),
     (''sourceIPv4Address'', PyStr ''10.0.0.9''), (''destinationIPv4Address'', PyStr ''10.0.0.7''),
     (''sourceTransportPort'', PyInt 4000), (''destinationTransportPort'', PyInt port),
     (''protocolIdentifier'', PyInt 6), (''octetDeltaCount'', PyInt 900), (''packetDeltaCount'', PyInt 9)]"

lemma demo_message_recognised: "recognised (demo_message port)"
  by (simp add: recognised_def demo_message_def)

lemma demo_message_payload:
  "demo_message port \<noteq> []" "valid_protocol (demo_message port)"
  "text_or_missing (demo_message port) ''sourceIPv4Address''"
  "text_or_missing (demo_message port) ''destinationIPv4Address''"
  by (simp_all add: demo_message_def valid_protocol_def valid_protocol_identifiers_def text_or_missing_def)

theorem mask_index_equivalent_witness:
  "find_mask_match demo_world demo_store demo_ipfix (demo_message 21) = Inr (Some [0, 1]) \<and>
   mset [0, 1] = mset (filter (\<lambda>a. direct_match demo_world demo_store (demo_message 21) a = Inr True) [0, 1])"
proof -
  have "find_mask_match demo_world demo_store demo_ipfix (demo_message 21) = Inr (Some [0, 1])"
    by (simp add: find_mask_match_def demo_ipfix_masks mask_applies_def demo_message_def state_matches_def
      test_match_similarity_def demo_store_def demo_threshold_def test_field_def test_subtype_def
      form_match_result_def)
  with mask_index_equivalent[OF demo_ipfix_built, of demo_world "demo_message 21"] show ?thesis
    by (simp add: demo_store_def)
qed

text \<open>
  C4: among the matches the treatment comes from the threshold with the highest priority, and
  from the first one found when several share it. This holds for every non-empty list of
  matches whose priorities are numbers; the choice never fails on such a list.
\<close>

theorem highest_priority_chosen:
  assumes "matches \<noteq> []" and "\<forall>m \<in> set matches. \<exists>p. priority_of s m = Some p"
  shows "\<exists>a pre post. find_highest_priority_match s matches = Inr a \<and> matches = pre @ a # post \<and>
    (\<forall>m \<in> set matches. the (priority_of s m) \<le> the (priority_of s a)) \<and>
    (\<forall>m \<in> set pre. the (priority_of s m) < the (priority_of s a))"
proof -
  let ?p = "\<lambda>m. the (priority_of s m)"
  obtain h ms where ms: "matches = h # ms" using assms(1) by (cases matches) auto
  have "find_highest_priority_match s matches = Inr (first_max ?p h ms)"
    using find_highest_first_max[of h ms s] assms(2) ms by simp
  then show ?thesis
    using first_max_split[of h ms ?p] first_max_ge[of _ h ms ?p] unfolding ms by blast
qed

theorem highest_priority_chosen_witness:
  "find_highest_priority_match demo_store [0, 1] = Inr 1"
proof -
  have p: "priority_of demo_store 0 = Some 10" "priority_of demo_store 1 = Some 40"
    by (simp_all add: priority_of_def demo_store_def demo_threshold_def)
  have ne: "[0, 1] \<noteq> ([] :: nat list)" and all: "\<forall>m \<in> set [0, 1]. \<exists>p. priority_of demo_store m = Some p"
    using p by simp_all
  from highest_priority_chosen[OF ne all] obtain a pre post
    where a: "find_highest_priority_match demo_store [0, 1] = Inr a" and m: "[0, 1] = pre @ a # post"
      "\<forall>m \<in> set [0, 1]. the (priority_of demo_store m) \<le> the (priority_of demo_store a)" by blast
  have "the (priority_of demo_store 1) \<le> the (priority_of demo_store a)" using m(2) by simp
  then have "a \<noteq> 0" using p by (intro notI) simp
  moreover have "a \<in> set [0, 1]" unfolding m(1) by simp
  ultimately show ?thesis using a by simp
qed





text \<open>
  C27: changes of the threshold table reach the engine. In a state where the index files every
  loaded threshold under its field names, any message that is handled without an exception
  leaves such a state; and the check made before an IPFIX message leaves an index whose loaded
  table is equal to the present table, so the thresholds found are those of the present table.
\<close>

theorem index_follows_table:
  assumes "index_ok s i" "wf_dict (ipfix_thr s)"
  shows "(handle_message w n1 n2 msg s i = (s', i', reqs, Inr ()) \<longrightarrow>
            index_ok s' i' \<and> ipfix_thr s' = ipfix_thr s) \<and>
    (reload_masks s i = (i1, Inr ()) \<longrightarrow>
       table_eq s (loaded i1) (ipfix_thr s) \<and>
       (\<forall>found. find_mask_match w s i1 msg = Inr found \<longrightarrow>
          mset (case found of None \<Rightarrow> [] | Some ms \<Rightarrow> ms) =
            mset (filter (\<lambda>a. direct_match w s msg a = Inr True) (map snd (loaded i1)))))"
proof (intro conjI impI allI)
  assume h: "handle_message w n1 n2 msg s i = (s', i', reqs, Inr ())"
  have "same_fields s s' \<and> index_ok s' i'"
    using h assms ipfix_handle_index[OF assms] same_fields_index[OF _ assms(1)] snort_handle_fields[of s w msg]
    by (auto simp: handle_message_def case_prod_beta split: sum.splits if_splits)
  then show "index_ok s' i'" "ipfix_thr s' = ipfix_thr s" by (simp_all add: same_fields_def)
next
  assume rl: "reload_masks s i = (i1, Inr ())"
  from reload_masks_ok[OF assms rl] show "table_eq s (loaded i1) (ipfix_thr s)" by simp
  fix found assume "find_mask_match w s i1 msg = Inr found"
  with index_ok_equivalent[of s i1 w msg] reload_masks_ok[OF assms rl]
  show "mset (case found of None \<Rightarrow> [] | Some ms \<Rightarrow> ms) =
    mset (filter (\<lambda>a. direct_match w s msg a = Inr True) (map snd (loaded i1)))" by simp
qed

theorem index_follows_table_witness:
  "reload_masks demo_store (demo_ipfix\<lparr>loaded := [], masks := []\<rparr>) = (demo_ipfix, Inr ()) \<and>
   table_eq demo_store (loaded demo_ipfix) (ipfix_thr demo_store)"
proof -
  let ?i = "demo_ipfix\<lparr>loaded := [], masks := []\<rparr>"
  have ok: "index_ok demo_store ?i" by (simp add: index_ok_def filed_under_def)
  have wf: "wf_dict (ipfix_thr demo_store)" by (simp add: demo_store_def)
  have rl: "reload_masks demo_store ?i = (demo_ipfix, Inr ())"
  proof -
    have "\<not> table_eq demo_store (loaded ?i) (ipfix_thr demo_store)"
      by (simp add: table_eq_def demo_store_def)
    moreover have "create_initial_masks demo_store (ipfix_thr demo_store) ?i =
        create_initial_masks demo_store (ipfix_thr demo_store) ipfix_empty"
      using create_initial_masks_ok[OF demo_ipfix_built]
      by (simp add: create_initial_masks_def ipfix_empty_def case_prod_beta)
    ultimately show ?thesis by (simp add: reload_masks_def demo_ipfix_built)
  qed
  show ?thesis
    using index_follows_table[OF ok wf, of demo_world 0 0 "[]" demo_store demo_ipfix "[]" demo_ipfix] rl by simp
qed

end
