(* ===== verification/Message_Policies.thy ===== *)
theory Message_Policies
  imports Message_Handler
begin

text \<open>
  What the policy engine of \<open>coordinator/core/messagehandler.py\<close> computes over several
  messages: flow rates and their averages, treatments with message fields, block rules set and
  cleared by sFlow alerts, and the messages that make a handler raise.
\<close>

section \<open>Running averages\<close>

definition add_rate :: "avg_rec option \<Rightarrow> rat \<times> rat \<Rightarrow> avg_rec option" where
  "add_rate old bp =
     (case old of
        Some r \<Rightarrow> Some \<lparr>total_bps = total_bps r + fst bp, total_pps = total_pps r + snd bp,
                     message_count = message_count r + 1\<rparr>
      | None \<Rightarrow> Some \<lparr>total_bps = fst bp, total_pps = snd bp, message_count = 1\<rparr>)"

definition rates_in :: "pydict \<Rightarrow> (rat \<times> rat) list" where
  "rates_in stats =
     (case (stat_num stats ''delta_bps'', stat_num stats ''delta_pps'') of
        (Some b, Some p) \<Rightarrow> [(b, p)] | _ \<Rightarrow> [])"

lemma update_totals_rates: "update_totals stats old = foldl add_rate old (rates_in stats)"
  by (auto simp: update_totals_def rates_in_def add_rate_def split: option.split)

text \<open>The rates a sequence of messages yields for one flow, and the state after it.\<close>

definition message_rates :: "flow \<Rightarrow> int \<times> int \<times> pydict \<Rightarrow> ipfix \<Rightarrow> (rat \<times> rat) list" where
  "message_rates f e i =
     (case e of (now1, now2, msg) \<Rightarrow>
       (case snd (record_flow now1 now2 msg i) of
          Inr stats \<Rightarrow> if flow_of msg = Inr f then rates_in stats else []
        | Inl _ \<Rightarrow> []))"

definition record_event :: "ipfix \<Rightarrow> int \<times> int \<times> pydict \<Rightarrow> ipfix" where
  "record_event i e = (case e of (now1, now2, msg) \<Rightarrow> fst (record_flow now1 now2 msg i))"

fun flow_rates :: "flow \<Rightarrow> (int \<times> int \<times> pydict) list \<Rightarrow> ipfix \<Rightarrow> (rat \<times> rat) list" where
  "flow_rates f [] i = []"
| "flow_rates f (e # es) i = message_rates f e i @ flow_rates f es (record_event i e)"

lemma rates_in_average [simp]: "rates_in (average_stats r stats) = rates_in stats"
  by (auto simp: average_stats_def rates_in_def stat_num_def map_add_def split: option.split)

lemma foldl_add_rate_Some:
  "foldl add_rate (Some r) rs = Some \<lparr>total_bps = total_bps r + sum_list (map fst rs),
     total_pps = total_pps r + sum_list (map snd rs), message_count = message_count r + length rs\<rparr>"
  by (induction rs arbitrary: r) (auto simp: add_rate_def)

lemma foldl_add_rate_None:
  "foldl add_rate None rs = (if rs = [] then None else Some \<lparr>total_bps = sum_list (map fst rs),
     total_pps = sum_list (map snd rs), message_count = length rs\<rparr>)"
  by (cases rs) (auto simp: add_rate_def foldl_add_rate_Some)

lemma foldl_add_rate_keeps: "foldl add_rate old rs = None \<Longrightarrow> old = None"
  by (cases old) (auto simp: foldl_add_rate_Some)

lemma record_flow_avg:
  "map_of (avg_bps (record_event i (n1, n2, msg))) f =
     foldl add_rate (map_of (avg_bps i) f) (message_rates f (n1, n2, msg) i)"
proof (cases "snd (record_flow n1 n2 msg i)")
  case (Inl e)
  then have "record_flow n1 n2 msg i = (i, Inl e)"
    by (auto simp: record_flow_def Let_def split: sum.splits)
  then show ?thesis by (simp add: message_rates_def record_event_def)
next
  case (Inr stats)
  then obtain bytes packets g st where
    pre: "bindE (py_item (PyDict msg) ''octetDeltaCount'') (\<lambda>bytes.
           bindE (py_item (PyDict msg) ''packetDeltaCount'') (\<lambda>packets.
           bindE (flow_of msg) (\<lambda>f.
           bindE (case map_of (delta_bps i) f of
                    None \<Rightarrow> Inr [(''byte_total'', bytes), (''packet_total'', packets)]
                  | Some prev \<Rightarrow> diff_stats n1 prev bytes packets
                      [(''byte_total'', bytes), (''packet_total'', packets)]) (\<lambda>stats.
             Inr (bytes, packets, f, stats))))) = Inr (bytes, packets, g, st)"
    by (auto simp: record_flow_def split: sum.splits)
  have g: "flow_of msg = Inr g" using pre by (auto simp: res_simps)
  have rf: "record_flow n1 n2 msg i =
    (i\<lparr>delta_bps := dict_put g \<lparr>last_message_time = n2, last_byte_count = bytes,
                                 last_packet_count = packets\<rparr> (delta_bps i),
       avg_bps := (case update_totals st (map_of (avg_bps i) g) of
          None \<Rightarrow> avg_bps i | Some r \<Rightarrow> dict_put g r (avg_bps i))\<rparr>,
     Inr (average_stats (update_totals st (map_of (avg_bps i) g)) st))"
    unfolding record_flow_def pre by (simp add: Let_def)
  show ?thesis
    by (cases "update_totals st (map_of (avg_bps i) g)")
      (auto simp: record_event_def message_rates_def rf g update_totals_rates dest: foldl_add_rate_keeps)
qed

lemma flow_rates_total:
  "map_of (avg_bps (foldl record_event i es)) f = foldl add_rate (map_of (avg_bps i) f) (flow_rates f es i)"
proof (induction es arbitrary: i)
  case (Cons e es)
  obtain n1 n2 msg where e: "e = (n1, n2, msg)" by (cases e) auto
  show ?case by (simp add: Cons.IH record_flow_avg e)
qed simp

text \<open>No division by zero: every stored count is positive, an invariant of every run.\<close>

definition counts_positive :: "ipfix \<Rightarrow> bool" where
  "counts_positive i \<longleftrightarrow> (\<forall>f r. map_of (avg_bps i) f = Some r \<longrightarrow> message_count r > 0)"

lemma add_rate_positive:
  "(\<And>r. old = Some r \<Longrightarrow> message_count r > 0) \<Longrightarrow> foldl add_rate old rs = Some r' \<Longrightarrow> message_count r' > 0"
  by (cases old) (auto simp: foldl_add_rate_None foldl_add_rate_Some split: if_splits)

interpretation rates: invariant_machine record_event counts_positive
proof unfold_locales
  fix i :: ipfix and e :: "int \<times> int \<times> pydict" assume inv: "counts_positive i"
  obtain n1 n2 msg where e: "e = (n1, n2, msg)" by (cases e) auto
  have "message_count r > 0" if "map_of (avg_bps (record_event i e)) f = Some r" for f r
  proof (rule add_rate_positive)
    show "foldl add_rate (map_of (avg_bps i) f) (message_rates f e i) = Some r"
      using that by (simp add: e record_flow_avg)
    show "map_of (avg_bps i) f = Some r' \<Longrightarrow> message_count r' > 0" for r'
      using inv unfolding counts_positive_def by blast
  qed
  then show "counts_positive (record_event i e)" by (auto simp: counts_positive_def)
qed


definition count_message :: "int \<Rightarrow> int \<Rightarrow> pydict" where
  "count_message bytes packets =
     [(''sourceIPv4Address'', PyStr ''10.0.0.1''), (''destinationIPv4Address'', PyStr ''10.0.0.2''),
      (''sourceTransportPort'', PyInt 5), (''destinationTransportPort'', PyInt 80),
      (''octetDeltaCount'', PyInt bytes), (''packetDeltaCount'', PyInt packets)]"

definition count_flow :: flow where
  "count_flow = (PyStr ''10.0.0.1'', PyStr ''10.0.0.2'', PyFloat 5, PyFloat 80)"

lemma count_flow_of: "flow_of (count_message b p) = Inr count_flow"
  by (simp add: flow_of_def count_message_def count_flow_def)

lemma count_get:
  "map_of (count_message b p) ''octetDeltaCount'' = Some (PyInt b)"
  "map_of (count_message b p) ''packetDeltaCount'' = Some (PyInt p)"
  by (simp_all add: count_message_def)

lemma count_first:
  "record_event ipfix_empty (n1, n2, count_message b p) = \<lparr>loaded = [], masks = [],
     delta_bps = [(count_flow, \<lparr>last_message_time = n2, last_byte_count = PyInt b,
       last_packet_count = PyInt p\<rparr>)], avg_bps = []\<rparr>"
  by (simp add: record_event_def record_flow_def count_get count_flow_of ipfix_empty_def Let_def
      update_totals_def stat_num_def)

lemma count_first_rates: "message_rates f (n1, n2, count_message b p) ipfix_empty = []"
  by (simp add: message_rates_def record_flow_def count_get count_flow_of ipfix_empty_def Let_def
      rates_in_def stat_num_def average_stats_def update_totals_def)

lemma count_next:
  assumes "0 < timedelta_seconds (n1 - t0)"
  shows "record_event \<lparr>loaded = [], masks = [], delta_bps = [(count_flow, \<lparr>last_message_time = t0,
      last_byte_count = PyInt b0, last_packet_count = PyInt p0\<rparr>)], avg_bps = as\<rparr>
      (n1, n2, count_message b p) =
    \<lparr>loaded = [], masks = [], delta_bps = [(count_flow, \<lparr>last_message_time = n2,
      last_byte_count = PyInt b, last_packet_count = PyInt p\<rparr>)],
     avg_bps = dict_put count_flow (the (add_rate (map_of as count_flow)
       (of_int (b - b0) / of_int (timedelta_seconds (n1 - t0)),
        of_int (p - p0) / of_int (timedelta_seconds (n1 - t0))))) as\<rparr>"
    (is "record_event ?i _ = _")
  and "message_rates count_flow (n1, n2, count_message b p) \<lparr>loaded = [], masks = [],
      delta_bps = [(count_flow, \<lparr>last_message_time = t0,
      last_byte_count = PyInt b0, last_packet_count = PyInt p0\<rparr>)], avg_bps = as\<rparr> =
    [(of_int (b - b0) / of_int (timedelta_seconds (n1 - t0)),
      of_int (p - p0) / of_int (timedelta_seconds (n1 - t0)))]"
  using assms
  by (auto simp: record_event_def message_rates_def record_flow_def count_get count_flow_of Let_def
      diff_stats_def py_truediv_def update_totals_def add_rate_def rates_in_def stat_num_def
      average_stats_def split: option.split)

text \<open>
  Rates ignore whole days. The code divides by the attribute \<open>seconds\<close> of the time
  difference, which is only the part below a day: when a flow is seen again after any number
  of days and \<open>secs\<close> seconds (also when the clock was set back), its rates are the differences
  divided by \<open>secs\<close> alone.
\<close>

theorem rates_ignore_days:
  assumes "flow_of msg = Inr f" "map_of (delta_bps i) f = Some prev"
    and "map_of msg ''octetDeltaCount'' = Some (PyInt b1)" "last_byte_count prev = PyInt b0"
    and "map_of msg ''packetDeltaCount'' = Some (PyInt p1)" "last_packet_count prev = PyInt p0"
    and "now1 = last_message_time prev + (days * 86400 + secs) * 1000000" "0 < secs" "secs < 86400"
  shows "\<exists>i' stats. record_flow now1 now2 msg i = (i', Inr stats) \<and>
    stat_num stats ''delta_bps'' = Some (of_int (b1 - b0) / of_int secs) \<and>
    stat_num stats ''delta_pps'' = Some (of_int (p1 - p0) / of_int secs)"
proof -
  have td: "timedelta_seconds (now1 - last_message_time prev) = secs"
    using assms(7-9) by (simp add: timedelta_seconds_def)
  let ?base = "[(''byte_total'', PyInt b1), (''packet_total'', PyInt p1)]"
  have st: "diff_stats now1 prev (PyInt b1) (PyInt p1) ?base =
    Inr (?base @ [(''byte_diff'', PyInt (b1 - b0)), (''packet_diff'', PyInt (p1 - p0)),
      (''time_diff'', PyDelta (now1 - last_message_time prev)),
      (''delta_bps'', PyFloat (of_int (b1 - b0) / of_int secs)),
      (''delta_pps'', PyFloat (of_int (p1 - p0) / of_int secs))])"
    using assms(4,6,8) by (simp add: diff_stats_def td py_truediv_def Let_def)
  show ?thesis using assms(1-3,5) st
    by (auto simp: record_flow_def Let_def stat_num_def average_stats_def split: option.split)
qed

theorem rates_ignore_days_witness:
  "let i = record_event ipfix_empty (0, 0, count_message 1000 10);
       now1 = (3 * 86400 + 2) * 1000000
   in \<exists>i' stats. record_flow now1 now1 (count_message 5000 30) i = (i', Inr stats) \<and>
     stat_num stats ''delta_bps'' = Some 2000"
proof -
  let ?i = "record_event ipfix_empty (0, 0, count_message 1000 10)"
  let ?now = "(3 * 86400 + 2) * 1000000 :: int"
  have prev: "map_of (delta_bps ?i) count_flow =
      Some \<lparr>last_message_time = 0, last_byte_count = PyInt 1000, last_packet_count = PyInt 10\<rparr>"
    by (simp add: count_first)
  have "\<exists>i' stats. record_flow ?now ?now (count_message 5000 30) ?i = (i', Inr stats) \<and>
    stat_num stats ''delta_bps'' = Some (of_int (5000 - 1000) / of_int 2) \<and>
    stat_num stats ''delta_pps'' = Some (of_int (30 - 10) / of_int 2)"
    by (rule rates_ignore_days[OF count_flow_of prev, where days = 3]) (simp_all add: count_message_def)
  then show ?thesis by (auto simp: Let_def)
qed


section \<open>Treatments with message fields\<close>

lemma resolve_dollars_ok:
  "resolve_dollars pkt tf = (tf', Inr ()) \<Longrightarrow>
    map fst tf' = map fst tf \<and>
    (\<forall>k v. map_of tf k = Some v \<longrightarrow>
       map_of tf' k = (if py_eq v (PyStr ''$'') then (case py_item pkt k of Inr x \<Rightarrow> Some x | Inl _ \<Rightarrow> None) else Some v))"
proof (induction tf arbitrary: tf')
  case (Cons p tf)
  obtain k v where p: "p = (k, v)" by (cases p)
  obtain tf1 r where rec: "resolve_dollars pkt tf = (tf1, r)" by fastforce
  show ?case
  proof (cases "py_eq v (PyStr ''$'')")
    case True
    then obtain x where "py_item pkt k = Inr x" "tf' = (k, x) # tf1" "r = Inr ()"
      using Cons.prems by (auto simp: p rec split: sum.splits)
    then show ?thesis using Cons.IH[of tf1] rec True by (auto simp: p)
  next
    case False
    then have "tf' = (k, v) # tf1" "r = Inr ()" using Cons.prems by (auto simp: p rec)
    then show ?thesis using Cons.IH[of tf1] rec False by (auto simp: p)
  qed
qed simp

definition no_dollar :: "pydict \<Rightarrow> bool" where
  "no_dollar d = (\<forall>p \<in> set d. \<not> py_eq (snd p) (PyStr ''$''))"

lemma resolve_dollars_id: "no_dollar d \<Longrightarrow> resolve_dollars pkt d = (d, Inr ())"
  by (induction d) (auto simp: no_dollar_def)

lemma dict_put_same: "map_of d k = Some v \<Longrightarrow> dict_put k v d = d"
  by (induction d) auto

lemma create_treatment_fields_own:
  assumes "create_treatment_fields s a pkt = (s1, Inr (True, payload))"
  obtains d tf tf' where "heap s a = PyDict d" "map_of d ''treatment_fields'' = Some (PyDict tf)"
    "resolve_dollars pkt tf = (tf', Inr ())" "payload = PyDict tf'"
    "s1 = heap_set a (PyDict (dict_put ''treatment_fields'' (PyDict tf') d)) s"
proof -
  from assms obtain d where d: "heap s a = PyDict d"
    by (cases "heap s a") (auto simp: create_treatment_fields_def split: sum.splits bool.splits)
  from assms d obtain tf where tf: "map_of d ''treatment_fields'' = Some (PyDict tf)"
    by (auto simp: create_treatment_fields_def has_key_def Let_def split: bool.splits pyval.splits sum.splits)
  obtain tf' r where rd: "resolve_dollars pkt tf = (tf', r)" by fastforce
  with assms d tf have "r = Inr ()" "payload = PyDict tf'"
    "s1 = heap_set a (PyDict (dict_put ''treatment_fields'' (PyDict tf') d)) s"
    by (auto simp: create_treatment_fields_def has_key_def res_simps)
  with d tf rd that show thesis by blast
qed

lemma create_treatment_fields_fixed:
  assumes "heap s a = PyDict d" "map_of d ''treatment_fields'' = Some (PyDict tf)" "no_dollar tf"
  shows "create_treatment_fields s a pkt = (heap_set a (heap s a) s, Inr (True, PyDict tf))"
  using assms
  by (simp add: create_treatment_fields_def has_key_def resolve_dollars_id dict_put_same)

lemma treatment_apply_payload:
  "fst (treatment_apply repr_of net c m (PyDict d)) \<in> {PyDict d, PyDict (resolve_protocol d)}"
  using dict_to_url_string_valid[of d repr_of] dict_to_url_string_invalid[of d repr_of]
  by (cases "valid_protocol d")
    (auto simp: treatment_apply_def rpc_call_def rpc_onos_def Let_def case_prod_beta
      simp del: dict_to_url_string.simps split: sum.splits option.splits)

lemma no_dollar_resolve:
  assumes "no_dollar d" shows "no_dollar (resolve_protocol d)"
proof -
  have names: "name \<noteq> ''$''" if nm: "lookup_protocol protocol_identifier_map p = Inr (Some name)" for p name
  proof -
    obtain h where "(case h of PyFloat q \<Rightarrow>
        map_of (map (\<lambda>p. (of_int (fst p) :: rat, snd p)) protocol_identifier_map) q | _ \<Rightarrow> None) = Some name"
      using nm unfolding lookup_protocol_def bindE_Inr_iff sum.inject by blast
    then show ?thesis by (cases h) (auto simp: protocol_identifier_map_def split: if_splits)
  qed
  have "snd ` set (dict_put ''protocolIdentifier'' (PyStr name) d) \<subseteq> insert (PyStr name) (snd ` set d)" for name
    by (induction d) auto
  with assms names show ?thesis
    by (fastforce simp: no_dollar_def resolve_protocol_def split: option.splits sum.splits)
qed


definition dollar_store :: store where
  "dollar_store = empty_store\<lparr>heap := (\<lambda>_. PyNone)(0 := PyDict
     [(''alertmsg'', PyStr ''scan''), (''priority'', PyInt 10), (''treatment'', PyStr ''block''),
      (''treatment_fields'', PyDict [(''sourceIPv4Address'', PyStr ''$'')])]),
    next_addr := 1, snort_thr := [(PyStr ''t'', 0)]\<rparr>"


section \<open>sFlow alerts\<close>

text \<open>
  The URL of a block rule for a host: every other field is a wildcard.
\<close>

definition block_url :: "rpc \<Rightarrow> string \<Rightarrow> string \<Rightarrow> string" where
  "block_url c meth host = onos_url c ''block'' meth @ ''/'' @ join ''/'' [host, ''*'', ''*'', ''*'', ''*'']"

lemma split_on_head: "c \<notin> set xs \<Longrightarrow> rest = [] \<or> hd rest = c \<Longrightarrow> hd (split_on c (xs @ rest)) = xs"
  by (cases rest) (auto simp: hd_split_on takeWhile_append)

lemma sflow_treatment:
  assumes "map_of treatment_methods t = Some (meth, ''block'')"
  shows "treatment_apply repr_of net c
      (PyDict [(''priority'', p), (''treatment'', PyStr t), (''criteria'', q)])
      (PyDict [(''sourceIPv4Address'', PyStr host)]) =
    (PyDict [(''sourceIPv4Address'', PyStr host)], [HttpGet (block_url c meth host)], Inr ())"
proof -
  let ?d = "[(''sourceIPv4Address'', PyStr host)]"
  have ok: "?d \<noteq> []" "valid_protocol ?d" "text_or_missing ?d ''sourceIPv4Address''"
    "text_or_missing ?d ''destinationIPv4Address''"
    by (simp_all add: valid_protocol_def text_or_missing_def)
  have res: "resolve_protocol ?d = ?d" by (simp add: resolve_protocol_def)
  have url: "map (field_text repr_of ?d) onos_keys = [host, ''*'', ''*'', ''*'', ''*'']"
    by (simp add: field_text_def onos_keys_def)
  show ?thesis
    by (simp add: treatment_apply_def assms rpc_call_def rpc_onos_valid[OF ok] res url onos_get_def block_url_def)
qed



section \<open>Messages a handler raises on\<close>

lemma test_fields_raises:
  assumes "test_fields w msg pre = Inr True"
    and "py_item (PyDict msg) k = Inr mv" "test_field w k mv sv = Inl e"
  shows "test_fields w msg (pre @ (k, sv) # post) = Inl e"
  using assms(1)
proof (induction pre)
  case (Cons p pre)
  obtain k' v' where p: "p = (k', v')" by (cases p)
  from Cons.prems show ?case
    by (auto simp: p res_simps Cons.IH split: if_splits)
next
  case Nil
  show ?case using assms(2,3) by simp
qed

text \<open>
  A protocol number the handler does not know stops it. If a loaded threshold restricts the
  protocol, a message has all its fields, the fields before the protocol match and the message's
  protocol number is none of 1, 6, 17 and 58, then handling the message raises; nothing is sent
  and no threshold is changed, also when other thresholds would have matched.
\<close>

theorem unknown_protocol_raises:
  assumes "index_ok s i" "table_eq s (loaded i) (ipfix_thr s)" "a \<in> set (map snd (loaded i))"
    and "py_item (heap s a) ''fields'' = Inr (PyDict (pre @ (''protocolIdentifier'', sv) # post))"
    and "mask_applies (map fst (pre @ (''protocolIdentifier'', sv) # post)) msg"
    and "test_fields w msg pre = Inr True"
    and "map_of msg ''protocolIdentifier'' = Some (PyInt n)" "n \<notin> {1, 6, 17, 58}"
    and "map_of msg ''type'' = Some (PyStr ''ipfix'')" "recognised msg"
  shows "\<exists>i' e. handle_message w now1 now2 msg s i = (s, i', [], Inl e)"
proof -
  have "test_field w ''protocolIdentifier'' (PyInt n) sv = Inl KeyError"
    using assms(8) by (simp add: test_field_def test_protocol_def protocol_identifiers_def lookup_protocol_def)
  then have "test_match_similarity w (heap s a) msg = Inl KeyError"
    using test_fields_raises[OF assms(6)] assms(4,7) by (simp add: test_match_similarity_def)
  then have dm: "direct_match w s msg a = Inl KeyError"
    using assms(4,5) by (simp add: direct_match_def mask_keys_def state_matches_def)
  have load: "reload_masks s i = (i, Inr ())" using assms(2) by (simp add: reload_masks_def)
  obtain i2 r2 where rf: "record_flow now1 now2 msg i = (i2, r2)" by fastforce
  have i2: "index_ok s i2" "loaded i2 = loaded i"
    using record_flow_index[of now1 now2 msg i] rf assms(1) index_ok_frame[of i2 i s] by simp_all
  obtain e where "find_mask_match w s i2 msg = Inl e"
  proof (cases "find_mask_match w s i2 msg")
    case (Inr found)
    then have "\<exists>b. direct_match w s msg a = Inr b"
      using index_ok_equivalent[OF i2(1), of w msg] assms(3) i2(2) by auto
    then show thesis using dm by simp
  qed (rule that)
  then have dec: "ipfix_decide w s i2 msg stats = (s, [], Inl e)" for stats
    by (simp add: ipfix_decide_def)
  have "\<exists>i' e. ipfix_handle w now1 now2 msg s i = (s, i', [], Inl e)"
    by (cases r2) (simp_all add: ipfix_handle_def load rf assms(10) dec)
  then show ?thesis using assms(9) by (auto simp: handle_message_def)
qed

definition icmp_store :: store where
  "icmp_store = \<lparr>heap = (\<lambda>_. PyNone)(0 := PyDict [(''priority'', PyInt 10), (''treatment'', PyStr ''block''),
     (''fields'', PyDict [(''protocolIdentifier'', PyStr ''icmp'')])]),
     next_addr = 1, ipfix_thr = [(PyStr ''t'', 0)], snort_thr = []\<rparr>"

definition icmp_ipfix :: ipfix where
  "icmp_ipfix = ipfix_empty\<lparr>loaded := [(PyStr ''t'', 0)], masks := [([''protocolIdentifier''], [0])]\<rparr>"

definition sctp_message :: pydict where
  "sctp_message = [(''type'', PyStr ''ipfix''), (''protocolIdentifier'', PyInt 132),
     (''sourceIPv4Address'', PyStr ''a''), (''destinationIPv4Address'', PyStr ''b''),
     (''sourceTransportPort'', PyInt 1), (''destinationTransportPort'', PyInt 2),
     (''octetDeltaCount'', PyInt 1), (''packetDeltaCount'', PyInt 1)]"

theorem unknown_protocol_raises_witness:
  "\<exists>i' e. handle_message demo_world 0 0 sctp_message icmp_store icmp_ipfix = (icmp_store, i', [], Inl e)"
proof (rule unknown_protocol_raises[where pre = "[]" and post = "[]" and sv = "PyStr ''icmp''" and n = 132 and a = 0])
  show "index_ok icmp_store icmp_ipfix"
    by (simp add: index_ok_def filed_under_def icmp_ipfix_def icmp_store_def mask_keys_def)
  show "table_eq icmp_store (loaded icmp_ipfix) (ipfix_thr icmp_store)"
    by (simp add: table_eq_def icmp_ipfix_def icmp_store_def)
qed (simp_all add: icmp_ipfix_def icmp_store_def sctp_message_def mask_applies_def recognised_def)

text \<open>
  What a threshold's metric means. A threshold without a metric or without a limit is always
  exceeded; a metric the message does not provide is never exceeded; a numeric statistic exceeds a
  numeric limit exactly when it is strictly greater. The metric \<open>time_diff\<close> is a time difference,
  so comparing it with a number raises.
\<close>

theorem threshold_semantics:
  assumes "match = PyDict d"
  shows "(\<not> has_key d ''metric'' \<or> \<not> has_key d ''threshold'' \<longrightarrow> check_threshold stats match = Inr True) \<and>
    (\<forall>m t q. map_of d ''metric'' = Some (PyStr m) \<longrightarrow> m \<in> set valid_metrics \<longrightarrow>
       map_of d ''threshold'' = Some t \<longrightarrow> num_of t = Some q \<longrightarrow>
       check_threshold stats match =
         (case map_of stats m of
            None \<Rightarrow> Inr False
          | Some v \<Rightarrow> (case num_of v of Some x \<Rightarrow> Inr (q < x) | None \<Rightarrow> Inl TypeError)))"
proof -
  have lt: "py_lt t v = (case num_of v of Some x \<Rightarrow> Inr (q < x) | None \<Rightarrow> Inl TypeError)"
    if "num_of t = Some q" for t v q
    using that by (cases t) (auto split: option.split)
  have "py_eq (PyStr m) (PyStr v) = (v = m)" for m v by auto
  then show ?thesis
    by (auto simp: check_threshold_def assms has_key_def lt split: option.split)
qed

theorem threshold_semantics_witness:
  "check_threshold [(''byte_total'', PyInt 900)]
      (PyDict [(''metric'', PyStr ''byte_total''), (''threshold'', PyInt 900)]) = Inr False \<and>
   check_threshold [(''time_diff'', PyDelta 5)]
      (PyDict [(''metric'', PyStr ''time_diff''), (''threshold'', PyInt 900)]) = Inl TypeError"
  using threshold_semantics[OF refl, of "[(''metric'', PyStr ''byte_total''), (''threshold'', PyInt 900)]"
      "[(''byte_total'', PyInt 900)]"]
    threshold_semantics[OF refl, of "[(''metric'', PyStr ''time_diff''), (''threshold'', PyInt 900)]"
      "[(''time_diff'', PyDelta 5)]"]
  by (simp add: valid_metrics_def)

end
