(* ===== verification/Alert_Format.thy ===== *)
theory Alert_Format
  imports Py_Base
begin

text \<open>
  The binary alert of the snort unix socket: \<open>pig-relay/alert.py\<close> (and its copy
  \<open>coordinator/core/alert.py\<close>).

  Every field is read by \<open>struct.unpack_from\<close> in network byte order from a fixed offset; a buffer
  that is too short raises \<open>StructError\<close>. The inverse \<open>pack_alert\<close>, which the repository does not
  have (snort writes the alerts), is the specification the parser is checked against.
\<close>

type_synonym bytes = "8 word list"

section \<open>Integers in network byte order\<close>

definition be32 :: "bytes \<Rightarrow> 32 word" where
  "be32 bs = word_of_int (foldl (\<lambda>acc b. acc * 256 + uint b) 0 bs)"

definition unpack_u32 :: "bytes \<Rightarrow> nat \<Rightarrow> 32 word result" where
  "unpack_u32 buf off =
     (if off + 4 \<le> length buf then Inr (be32 (take 4 (drop off buf))) else Inl StructError)"

definition unpack_s :: "nat \<Rightarrow> bytes \<Rightarrow> nat \<Rightarrow> bytes result" where
  "unpack_s n buf off = (if off + n \<le> length buf then Inr (take n (drop off buf)) else Inl StructError)"

section \<open>The four classes\<close>

record timeval =
  tv_sec :: "32 word"
  tv_usec :: "32 word"

definition timeval_parser :: "bytes \<Rightarrow> nat \<Rightarrow> timeval result" where
  "timeval_parser buf off =
     bindE (unpack_u32 buf off) (\<lambda>sec.
     bindE (unpack_u32 buf (off + 4)) (\<lambda>usec.
       Inr \<lparr>tv_sec = sec, tv_usec = usec\<rparr>))"

record event =
  sig_generator :: "32 word"
  sig_id :: "32 word"
  sig_rev :: "32 word"
  sig_classification :: "32 word"
  sig_priority :: "32 word"
  event_id :: "32 word"
  event_reference :: "32 word"
  ref_time :: timeval

definition event_parser :: "bytes \<Rightarrow> nat \<Rightarrow> event result" where
  "event_parser buf off =
     bindE (unpack_u32 buf off) (\<lambda>gen.
     bindE (unpack_u32 buf (off + 4)) (\<lambda>sid.
     bindE (unpack_u32 buf (off + 8)) (\<lambda>rev.
     bindE (unpack_u32 buf (off + 12)) (\<lambda>cls.
     bindE (unpack_u32 buf (off + 16)) (\<lambda>prio.
     bindE (unpack_u32 buf (off + 20)) (\<lambda>eid.
     bindE (unpack_u32 buf (off + 24)) (\<lambda>eref.
     bindE (timeval_parser buf (off + 28)) (\<lambda>rt.
       Inr \<lparr>sig_generator = gen, sig_id = sid, sig_rev = rev, sig_classification = cls,
            sig_priority = prio, event_id = eid, event_reference = eref, ref_time = rt\<rparr>))))))))"

record pcap_hdr =
  pkt_ts :: timeval
  pkt_caplen :: "32 word"
  pkt_len :: "32 word"

definition pcap_hdr_parser :: "bytes \<Rightarrow> nat \<Rightarrow> pcap_hdr result" where
  "pcap_hdr_parser buf off =
     bindE (timeval_parser buf off) (\<lambda>t.
     bindE (unpack_u32 buf (off + 8)) (\<lambda>cap.
     bindE (unpack_u32 buf (off + 12)) (\<lambda>l.
       Inr \<lparr>pkt_ts = t, pkt_caplen = cap, pkt_len = l\<rparr>)))"

record alert_pkt =
  alert_msg :: bytes
  alert_pkth :: pcap_hdr
  alert_dlthdr :: "32 word"
  alert_nethdr :: "32 word"
  alert_transhdr :: "32 word"
  alert_data :: "32 word"
  alert_val :: "32 word"
  alert_data_pkt :: bytes
  alert_event :: event

definition ALERTPKT_SIZE :: nat where
  "ALERTPKT_SIZE = 65863"

text \<open>
  \<open>AlertPkt.parser\<close>. The constructor is an argument: the copy of the class in the coordinator keeps
  the 256 bytes of the message, the copy in the relay strips the trailing zero bytes.
\<close>

definition alert_parser :: "(bytes \<Rightarrow> bytes) \<Rightarrow> bytes \<Rightarrow> alert_pkt result" where
  "alert_parser init_msg buf =
     bindE (unpack_s 256 buf 0) (\<lambda>msg.
     bindE (pcap_hdr_parser buf 256) (\<lambda>ph.
     bindE (unpack_u32 buf 272) (\<lambda>dlt.
     bindE (unpack_u32 buf 276) (\<lambda>neth.
     bindE (unpack_u32 buf 280) (\<lambda>trans.
     bindE (unpack_u32 buf 284) (\<lambda>dat.
     bindE (unpack_u32 buf 288) (\<lambda>v.
     bindE (unpack_s 65535 buf 292) (\<lambda>p.
     bindE (event_parser buf 65827) (\<lambda>ev.
       Inr \<lparr>alert_msg = init_msg msg, alert_pkth = ph, alert_dlthdr = dlt, alert_nethdr = neth,
            alert_transhdr = trans, alert_data = dat, alert_val = v, alert_data_pkt = p,
            alert_event = ev\<rparr>)))))))))"

definition rstrip_nul :: "bytes \<Rightarrow> bytes" where
  "rstrip_nul bs = rev (dropWhile (\<lambda>b. b = 0) (rev bs))"

definition relay_alert_parser :: "bytes \<Rightarrow> alert_pkt result" where
  "relay_alert_parser = alert_parser rstrip_nul"

definition core_alert_parser :: "bytes \<Rightarrow> alert_pkt result" where
  "core_alert_parser = alert_parser (\<lambda>m. m)"

section \<open>The encoder snort implements\<close>

definition put32 :: "32 word \<Rightarrow> bytes" where
  "put32 w = map (\<lambda>k. word_of_int (uint w div 256 ^ k)) [3, 2, 1, 0]"

definition pack_timeval :: "timeval \<Rightarrow> bytes" where
  "pack_timeval t = put32 (tv_sec t) @ put32 (tv_usec t)"

definition pack_event :: "event \<Rightarrow> bytes" where
  "pack_event e = put32 (sig_generator e) @ put32 (sig_id e) @ put32 (sig_rev e) @
     put32 (sig_classification e) @ put32 (sig_priority e) @ put32 (event_id e) @
     put32 (event_reference e) @ pack_timeval (ref_time e)"

definition pack_pcap :: "pcap_hdr \<Rightarrow> bytes" where
  "pack_pcap h = pack_timeval (pkt_ts h) @ put32 (pkt_caplen h) @ put32 (pkt_len h)"

definition pack_alert :: "alert_pkt \<Rightarrow> bytes" where
  "pack_alert a = alert_msg a @ replicate (256 - length (alert_msg a)) 0 @ pack_pcap (alert_pkth a) @
     put32 (alert_dlthdr a) @ put32 (alert_nethdr a) @ put32 (alert_transhdr a) @
     put32 (alert_data a) @ put32 (alert_val a) @ alert_data_pkt a @ pack_event (alert_event a)"

definition wf_alert :: "alert_pkt \<Rightarrow> bool" where
  "wf_alert a \<longleftrightarrow> length (alert_msg a) \<le> 256 \<and> (alert_msg a \<noteq> [] \<longrightarrow> last (alert_msg a) \<noteq> 0) \<and>
     length (alert_data_pkt a) = 65535"

section \<open>Lemmas\<close>

lemma length_put32 [simp]: "length (put32 w) = 4"
  by (simp add: put32_def)

lemma length_pack_timeval [simp]: "length (pack_timeval t) = 8"
  by (simp add: pack_timeval_def)

lemma length_pack_event [simp]: "length (pack_event e) = 36"
  by (simp add: pack_event_def)

lemma length_pack_pcap [simp]: "length (pack_pcap h) = 16"
  by (simp add: pack_pcap_def)

lemma base256:
  fixes x :: int
  assumes "0 \<le> x" "x < 2 ^ 32"
  shows "(((x div 16777216) mod 256 * 256 + (x div 65536) mod 256) * 256 + (x div 256) mod 256) * 256 + x mod 256 = x"
proof -
  define q1 q2 q3 where q: "q1 = x div 256" "q2 = q1 div 256" "q3 = q2 div 256"
  have d: "x div 65536 = q2" "x div 16777216 = q3"
    using zdiv_zmult2_eq[of 256 x 256] zdiv_zmult2_eq[of 256 x 65536] zdiv_zmult2_eq[of 256 q1 256]
    by (simp_all add: q)
  have "q3 < 256" "0 \<le> q3" using assms unfolding d(2)[symmetric] by simp_all
  then have "q3 mod 256 = q3" by simp
  then show ?thesis
    using div_mult_mod_eq[of x 256] div_mult_mod_eq[of q1 256] div_mult_mod_eq[of q2 256]
    unfolding d q(1)[symmetric] q(2)[symmetric] q(3)[symmetric] by simp
qed

lemma be32_put32 [simp]: "be32 (put32 w) = w"
proof -
  have u: "uint (word_of_int y :: 8 word) = y mod 256" for y
    by (simp add: uint_word_of_int)
  have p: "(256 :: int) ^ 3 = 16777216" "(256 :: int) ^ 2 = 65536" "(256 :: int) ^ 1 = 256" "(256 :: int) ^ 0 = 1"
    by simp_all
  have "uint w < 2 ^ 32" using uint_lt2p[of w] by simp
  then have "(((uint w div 16777216) mod 256 * 256 + (uint w div 65536) mod 256) * 256 +
      (uint w div 256) mod 256) * 256 + uint w mod 256 = uint w" (is "?b = _")
    by (intro base256) simp
  moreover have "foldl (\<lambda>acc b. acc * 256 + uint b) 0 (put32 w) = ?b"
    by (simp only: put32_def list.map foldl.simps u p div_by_1 mult_zero_left add_0)
  ultimately have "foldl (\<lambda>acc b. acc * 256 + uint b) 0 (put32 w) = uint w" by (simp only:)
  then show ?thesis by (simp add: be32_def)
qed

lemma drop_step: "drop off buf = xs @ ys \<Longrightarrow> length xs = n \<Longrightarrow> drop (off + n) buf = ys"
  by (metis add.commute append_eq_conv_conj drop_drop)

lemma unpack_s_at:
  assumes "drop off buf = xs @ rest" "length xs = n" "0 < n"
  shows "unpack_s n buf off = Inr xs"
proof -
  have "length (drop off buf) \<ge> n" using assms by simp
  then have "off + n \<le> length buf" using assms(3) by simp
  then show ?thesis using assms by (simp add: unpack_s_def)
qed

lemma unpack_u32_at:
  assumes "drop off buf = put32 w @ rest"
  shows "unpack_u32 buf off = Inr w"
  using unpack_s_at[OF assms, of 4] assms
  by (auto simp: unpack_u32_def unpack_s_def split: if_splits)

lemma timeval_at:
  assumes "drop off buf = pack_timeval t @ rest"
  shows "timeval_parser buf off = Inr t"
proof -
  have 1: "drop off buf = put32 (tv_sec t) @ put32 (tv_usec t) @ rest"
    using assms by (simp add: pack_timeval_def)
  note 2 = drop_step[OF 1 length_put32]
  show ?thesis
    by (simp add: timeval_parser_def unpack_u32_at[OF 1] unpack_u32_at[OF 2])
qed

lemma event_at:
  assumes "drop off buf = pack_event e @ rest"
  shows "event_parser buf off = Inr e"
proof -
  have 0: "drop off buf = put32 (sig_generator e) @ put32 (sig_id e) @ put32 (sig_rev e) @
      put32 (sig_classification e) @ put32 (sig_priority e) @ put32 (event_id e) @
      put32 (event_reference e) @ pack_timeval (ref_time e) @ rest"
    using assms by (simp add: pack_event_def)
  note 1 = drop_step[OF 0 length_put32]
  note 2 = drop_step[OF 1 length_put32]
  note 3 = drop_step[OF 2 length_put32]
  note 4 = drop_step[OF 3 length_put32]
  note 5 = drop_step[OF 4 length_put32]
  note 6 = drop_step[OF 5 length_put32]
  note 7 = drop_step[OF 6 length_put32]
  note at = unpack_u32_at[OF 0] unpack_u32_at[OF 1] unpack_u32_at[OF 2] unpack_u32_at[OF 3]
    unpack_u32_at[OF 4] unpack_u32_at[OF 5] unpack_u32_at[OF 6] timeval_at[OF 7]
  from at show ?thesis by (simp add: event_parser_def add.assoc)
qed

lemma pcap_at:
  assumes "drop off buf = pack_pcap h @ rest"
  shows "pcap_hdr_parser buf off = Inr h"
proof -
  have 0: "drop off buf = pack_timeval (pkt_ts h) @ put32 (pkt_caplen h) @ put32 (pkt_len h) @ rest"
    using assms by (simp add: pack_pcap_def)
  note 1 = drop_step[OF 0 length_pack_timeval]
  note 2 = drop_step[OF 1 length_put32]
  show ?thesis using timeval_at[OF 0] unpack_u32_at[OF 1] unpack_u32_at[OF 2]
    by (simp add: pcap_hdr_parser_def add.assoc)
qed

lemma rstrip_nul_pad:
  assumes "m \<noteq> [] \<longrightarrow> last m \<noteq> 0"
  shows "rstrip_nul (m @ replicate n 0) = m"
proof -
  have "dropWhile (\<lambda>b. b = 0) (rev m) = rev m"
  proof (cases m rule: rev_cases)
    case (snoc ys y)
    then show ?thesis using assms by simp
  qed simp
  then show ?thesis by (simp add: rstrip_nul_def dropWhile_append)
qed

lemma alert_parser_packed:
  assumes "wf_alert a"
  shows "alert_parser f (pack_alert a @ rest) =
    Inr (a\<lparr>alert_msg := f (alert_msg a @ replicate (256 - length (alert_msg a)) 0)\<rparr>)"
proof -
  let ?m = "alert_msg a @ replicate (256 - length (alert_msg a)) 0"
  let ?buf = "pack_alert a @ rest"
  have m: "length ?m = 256" and p: "length (alert_data_pkt a) = 65535"
    using assms by (simp_all add: wf_alert_def)
  have 0: "drop 0 ?buf = ?m @ pack_pcap (alert_pkth a) @ put32 (alert_dlthdr a) @ put32 (alert_nethdr a) @
      put32 (alert_transhdr a) @ put32 (alert_data a) @ put32 (alert_val a) @ alert_data_pkt a @
      pack_event (alert_event a) @ rest"
    by (simp add: pack_alert_def)
  note 1 = drop_step[OF 0 m]
  note 2 = drop_step[OF 1 length_pack_pcap]
  note 3 = drop_step[OF 2 length_put32]
  note 4 = drop_step[OF 3 length_put32]
  note 5 = drop_step[OF 4 length_put32]
  note 6 = drop_step[OF 5 length_put32]
  note 7 = drop_step[OF 6 length_put32]
  note 8 = drop_step[OF 7 p]
  note at = unpack_s_at[OF 0 m] pcap_at[OF 1] unpack_u32_at[OF 2] unpack_u32_at[OF 3] unpack_u32_at[OF 4]
    unpack_u32_at[OF 5] unpack_u32_at[OF 6] unpack_s_at[OF 7 p] event_at[OF 8]
  from at show ?thesis by (simp add: alert_parser_def)
qed

lemma relay_reads_packed:
  assumes "wf_alert a"
  shows "relay_alert_parser (pack_alert a) = Inr a" "length (pack_alert a) = ALERTPKT_SIZE"
proof -
  have "rstrip_nul (alert_msg a @ replicate (256 - length (alert_msg a)) 0) = alert_msg a"
    using assms rstrip_nul_pad by (simp add: wf_alert_def)
  then show "relay_alert_parser (pack_alert a) = Inr a" "length (pack_alert a) = ALERTPKT_SIZE"
    using alert_parser_packed[OF assms, of rstrip_nul "[]"] assms
    by (simp_all add: relay_alert_parser_def pack_alert_def ALERTPKT_SIZE_def wf_alert_def)
qed

section \<open>Properties\<close>


definition demo_alert :: alert_pkt where
  "demo_alert = \<lparr>alert_msg = [83, 89, 78], alert_pkth = \<lparr>pkt_ts = \<lparr>tv_sec = 1, tv_usec = 2\<rparr>, pkt_caplen = 60, pkt_len = 60\<rparr>,
     alert_dlthdr = 0, alert_nethdr = 14, alert_transhdr = 34, alert_data = 54, alert_val = 0,
     alert_data_pkt = replicate 65535 7,
     alert_event = \<lparr>sig_generator = 1, sig_id = 4294967295, sig_rev = 1, sig_classification = 3, sig_priority = 2,
       event_id = 9, event_reference = 9, ref_time = \<lparr>tv_sec = 1, tv_usec = 2\<rparr>\<rparr>\<rparr>"


text \<open>
  The parser needs exactly 65863 bytes. On every buffer of at least that length it yields an
  alert that depends on the first 65863 bytes only; on every shorter one it raises
  \<open>StructError\<close>.
\<close>

theorem alert_parser_total:
  "if length buf < ALERTPKT_SIZE then alert_parser f buf = Inl StructError
   else (\<exists>a. alert_parser f buf = Inr a \<and> alert_parser f (take ALERTPKT_SIZE buf) = Inr a)"
  by (auto simp: alert_parser_def ALERTPKT_SIZE_def unpack_s_def pcap_hdr_parser_def timeval_parser_def
      unpack_u32_def event_parser_def drop_take)

end
