(* ===== verification/Core_Alert.thy ===== *)
theory Core_Alert
  imports Alert_Format
begin

text \<open>
  The coordinator's own copy of the alert classes: \<open>coordinator/core/alert.py\<close>.

  The parsers are written as the code writes them, with a running offset advanced by the sizes of the formats. The
  copy differs from the relay's in one place: the constructor keeps the tuple \<open>unpack_from\<close> returned, here a
  list with one element.
\<close>

definition unpack_ints :: "nat \<Rightarrow> bytes \<Rightarrow> nat \<Rightarrow> 32 word list result" where
  "unpack_ints n buf offset =
     (if offset + 4 * n \<le> length buf then Inr (map (\<lambda>k. be32 (take 4 (drop (offset + 4 * k) buf))) [0..<n])
      else Inl StructError)"

definition core_timeval_parser :: "bytes \<Rightarrow> nat \<Rightarrow> timeval result" where
  "core_timeval_parser buf offset =
     bindE (unpack_ints 2 buf offset) (\<lambda>xs. Inr \<lparr>tv_sec = xs ! 0, tv_usec = xs ! 1\<rparr>)"

definition core_event_parser :: "bytes \<Rightarrow> nat \<Rightarrow> event result" where
  "core_event_parser buf offset =
     bindE (unpack_ints 7 buf offset) (\<lambda>xs.
     (let offset = offset + 4 * 7 in
      bindE (core_timeval_parser buf offset) (\<lambda>t.
        Inr \<lparr>sig_generator = xs ! 0, sig_id = xs ! 1, sig_rev = xs ! 2, sig_classification = xs ! 3,
             sig_priority = xs ! 4, event_id = xs ! 5, event_reference = xs ! 6, ref_time = t\<rparr>)))"

definition core_pcap_hdr_parser :: "bytes \<Rightarrow> nat \<Rightarrow> pcap_hdr result" where
  "core_pcap_hdr_parser buf offset =
     bindE (core_timeval_parser buf offset) (\<lambda>t.
     (let offset = offset + 8 in
      bindE (unpack_ints 2 buf offset) (\<lambda>xs. Inr \<lparr>pkt_ts = t, pkt_caplen = xs ! 0, pkt_len = xs ! 1\<rparr>)))"

record core_alert =
  core_alertmsg :: "bytes list"
  core_pkth :: pcap_hdr
  core_dlthdr :: "32 word"
  core_nethdr :: "32 word"
  core_transhdr :: "32 word"
  core_data :: "32 word"
  core_val :: "32 word"
  core_pkt :: bytes
  core_event :: event

definition core_packet_parser :: "bytes \<Rightarrow> core_alert result" where
  "core_packet_parser buf =
     bindE (unpack_s 256 buf 0) (\<lambda>alertmsg.
     (let offset = 256 in
      bindE (core_pcap_hdr_parser buf offset) (\<lambda>pkth.
      (let offset = offset + 16 in
       bindE (unpack_ints 5 buf offset) (\<lambda>xs.
       bindE (unpack_s 65535 buf (offset + 4 * 5)) (\<lambda>pkt.
       (let offset = offset + 4 * 5 + 65535 in
        bindE (core_event_parser buf offset) (\<lambda>event.
          Inr \<lparr>core_alertmsg = [alertmsg], core_pkth = pkth, core_dlthdr = xs ! 0, core_nethdr = xs ! 1,
               core_transhdr = xs ! 2, core_data = xs ! 3, core_val = xs ! 4, core_pkt = pkt, core_event = event\<rparr>))))))))"

section \<open>Lemmas\<close>

lemma bindE_struct: "(\<And>x. f x = Inl StructError) \<Longrightarrow> (\<And>e. r = Inl e \<Longrightarrow> e = StructError) \<Longrightarrow> bindE r f = Inl StructError"
  by (cases r) auto

lemma core_timeval_same: "core_timeval_parser buf offset = timeval_parser buf offset"
  by (auto simp: core_timeval_parser_def timeval_parser_def unpack_ints_def unpack_u32_def)

lemma core_event_same: "core_event_parser buf offset = event_parser buf offset"
  by (auto simp: core_event_parser_def event_parser_def core_timeval_same timeval_parser_def unpack_ints_def unpack_u32_def Let_def)

lemma core_pcap_hdr_same: "core_pcap_hdr_parser buf offset = pcap_hdr_parser buf offset"
  by (auto simp: core_pcap_hdr_parser_def pcap_hdr_parser_def core_timeval_same timeval_parser_def unpack_ints_def unpack_u32_def Let_def
      add.commute[of offset])

section \<open>Properties\<close>

text \<open>
  The two copies of the alert classes agree. On every buffer the coordinator's parser fails exactly when the relay's
  does, and otherwise reads the same fields, except that the message is a tuple with its padding where the
  relay has the text without it.
\<close>

theorem alert_copies_agree:
  "relay_alert_parser buf = bindE (core_packet_parser buf) (\<lambda>c.
     Inr \<lparr>alert_msg = rstrip_nul (hd (core_alertmsg c)), alert_pkth = core_pkth c, alert_dlthdr = core_dlthdr c,
          alert_nethdr = core_nethdr c, alert_transhdr = core_transhdr c, alert_data = core_data c, alert_val = core_val c,
          alert_data_pkt = core_pkt c, alert_event = core_event c\<rparr>)"
proof (cases "292 \<le> length buf")
  case True
  then show ?thesis
    by (cases "pcap_hdr_parser buf 256"; cases "unpack_s 65535 buf 292"; cases "event_parser buf 65827")
      (simp_all add: relay_alert_parser_def alert_parser_def core_packet_parser_def core_event_same core_pcap_hdr_same
        unpack_ints_def unpack_u32_def unpack_s_def[of 256] Let_def)
next
  case False
  then show ?thesis
    by (auto simp: relay_alert_parser_def alert_parser_def core_packet_parser_def core_event_same core_pcap_hdr_same
        unpack_ints_def unpack_u32_def unpack_s_def pcap_hdr_parser_def timeval_parser_def Let_def)
qed

end
