(* ===== verification/Pig_Relay.thy ===== *)
theory Pig_Relay
  imports Alert_Format
begin

text \<open>
  The relay process: \<open>pig-relay/pigrelay.py\<close>.

  A listener thread puts the datagrams of the snort socket into a queue; a relay thread takes
  them out, cuts the byte stream into alerts and posts each alert. The two threads are a step
  relation over their program counters, the shared queue and the flags \<open>stop\<close> clears, so every
  interleaving is covered. The socket, the HTTP client and \<open>pickle\<close> are outside: which
  datagrams arrive is the label of a step, an attempted request is recorded, and what the
  server answers has no effect since the code only logs it.
\<close>

section \<open>Queues\<close>

text \<open>
  The interface of \<open>Queue.Queue\<close> both queues of the process are used through: first in, first out.
\<close>

locale fifo_queue =
  fixes new :: 'q
    and put :: "'a \<Rightarrow> 'q \<Rightarrow> 'q"
    and get :: "'q \<Rightarrow> ('a \<times> 'q) option"
    and items :: "'q \<Rightarrow> 'a list"
  assumes items_new: "items new = []"
    and items_put: "items (put x q) = items q @ [x]"
    and get_None: "get q = None \<longleftrightarrow> items q = []"
    and get_Some: "get q = Some (x, q') \<Longrightarrow> items q = x # items q'"
begin

lemma get_new: "get new = None"
  by (simp add: get_None items_new)

lemma items_puts: "items (foldl (\<lambda>q x. put x q) q xs) = items q @ xs"
  by (induction xs arbitrary: q) (auto simp: items_put)

text \<open>What was put is what was taken followed by what is still queued.\<close>

lemma history_put: "taken @ items q = given \<Longrightarrow> taken @ items (put x q) = given @ [x]"
  by (auto simp: items_put)

lemma history_get: "taken @ items q = given \<Longrightarrow> get q = Some (x, q') \<Longrightarrow> (taken @ [x]) @ items q' = given"
  by (auto dest: get_Some)

end

fun queue_get :: "'a list \<Rightarrow> ('a \<times> 'a list) option" where
  "queue_get [] = None"
| "queue_get (x # xs) = Some (x, xs)"

definition queue_put :: "'a \<Rightarrow> 'a list \<Rightarrow> 'a list" where
  "queue_put x q = q @ [x]"

interpretation pyq: fifo_queue "[]" queue_put queue_get "\<lambda>q. q"
proof unfold_locales
  show "queue_get q = None \<longleftrightarrow> q = []" for q :: "'a list" by (cases q) auto
  show "queue_get q = Some (x, q') \<Longrightarrow> q = x # q'" for q q' :: "'a list" and x by (cases q) auto
qed (simp_all add: queue_put_def)

section \<open>Cutting a stream into frames\<close>

text \<open>
  The interface between the relay loop and the byte stream: a frame size. The specification
  \<open>frames\<close> and \<open>rest\<close> do not mention how the stream was cut into chunks.
\<close>

definition frames :: "nat \<Rightarrow> 'a list \<Rightarrow> 'a list list" where
  "frames bsize xs = map (\<lambda>i. take bsize (drop (i * bsize) xs)) [0..<length xs div bsize]"

definition rest :: "nat \<Rightarrow> 'a list \<Rightarrow> 'a list" where
  "rest bsize xs = drop (length xs div bsize * bsize) xs"

lemma frames_Nil [simp]: "frames n [] = []" "rest n [] = []"
  by (simp_all add: frames_def rest_def)

locale framing =
  fixes bsize :: nat
  assumes size_pos: "0 < bsize"
begin

lemma frames_short: "length xs < bsize \<Longrightarrow> frames bsize xs = [] \<and> rest bsize xs = xs"
  by (simp add: frames_def rest_def)

lemma frames_long:
  assumes "bsize \<le> length xs"
  shows "frames bsize xs = take bsize xs # frames bsize (drop bsize xs)" "rest bsize xs = rest bsize (drop bsize xs)"
proof -
  have n: "length xs div bsize = Suc (length (drop bsize xs) div bsize)"
    using assms size_pos by (simp add: le_div_geq)
  show "frames bsize xs = take bsize xs # frames bsize (drop bsize xs)"
    unfolding frames_def n by (simp add: upt_rec[of 0] map_Suc_upt[symmetric] del: upt_Suc) (simp add: add.commute)
  show "rest bsize xs = rest bsize (drop bsize xs)"
    unfolding rest_def n by (simp add: add.commute)
qed

lemma rest_length: "length (rest bsize xs) < bsize"
  unfolding rest_def using size_pos by (simp add: minus_div_mult_eq_mod)

lemma frames_append: "frames bsize (xs @ ys) = frames bsize xs @ frames bsize (rest bsize xs @ ys) \<and> rest bsize (xs @ ys) = rest bsize (rest bsize xs @ ys)"
proof (induction "length xs" arbitrary: xs rule: less_induct)
  case less
  show ?case
  proof (cases "length xs < bsize")
    case True
    then show ?thesis by (simp add: frames_short)
  next
    case False
    then have "length (drop bsize xs) < length xs" using size_pos by simp
    from less[OF this] False show ?thesis
      by (simp add: frames_long[of xs] frames_long[of "xs @ ys"])
  qed
qed

lemma concat_frames: "concat (frames bsize xs) @ rest bsize xs = xs"
proof (induction "length xs" arbitrary: xs rule: less_induct)
  case less
  show ?case
  proof (cases "length xs < bsize")
    case True
    then show ?thesis by (simp add: frames_short)
  next
    case False
    then have "length (drop bsize xs) < length xs" using size_pos by simp
    from less[OF this] False show ?thesis by (simp add: frames_long[of xs])
  qed
qed

lemma frames_aligned:
  "\<forall>x \<in> set xs. length x = bsize \<Longrightarrow> frames bsize (concat xs) = xs \<and> rest bsize (concat xs) = []"
proof (induction xs)
  case Nil
  show ?case using frames_short[of "[]"] size_pos by simp
next
  case (Cons x xs)
  then show ?case by (simp add: frames_long)
qed

end

definition BUFSIZE :: nat where
  "BUFSIZE = 65863"

interpretation relay: framing BUFSIZE
  by unfold_locales (simp add: BUFSIZE_def)


section \<open>The relays\<close>

text \<open>
  The classes derived from \<open>SnortRelay\<close> that parse. \<open>JsonRPCSnortRelay\<close> defines a method
  \<open>send_event_to_server\<close>, but the loop calls \<open>_send_event_to_server\<close>, which it inherits and
  which does nothing. The request carries the alert (serialised by \<open>pickle\<close>); an exception of
  the request is caught and logged.
\<close>

datatype relay_kind =
    ParsedSnortRelay
  | HttpSnortRelay string nat
  | JsonRPCSnortRelay

record alert_post =
  post_url :: string
  post_alert :: alert_pkt

fun send_event_to_server :: "relay_kind \<Rightarrow> alert_pkt \<Rightarrow> alert_post list" where
  "send_event_to_server (HttpSnortRelay addr port) msg =
     [\<lparr>post_url = addr @ '':'' @ nat_str port @ ''/snort/alert'', post_alert = msg\<rparr>]"
| "send_event_to_server _ msg = []"

text \<open>The inner loop of \<open>_send_loop_consumer\<close>: what is sent, the buffer left, an exception.\<close>

function send_frames :: "relay_kind \<Rightarrow> bytes \<Rightarrow> alert_post list \<times> bytes \<times> unit result" where
  "send_frames k buf =
     (if length buf < BUFSIZE then ([], buf, Inr ())
      else (case relay_alert_parser (take BUFSIZE buf) of
          Inl e \<Rightarrow> ([], buf, Inl e)
        | Inr msg \<Rightarrow>
            (let (ps, buf', r) = send_frames k (drop BUFSIZE buf)
             in (send_event_to_server k msg @ ps, buf', r))))"
  by pat_completeness auto
termination
  by (relation "measure (\<lambda>(k, buf). length buf)") (auto simp: BUFSIZE_def)

declare send_frames.simps [simp del]

definition parsed :: "bytes \<Rightarrow> alert_pkt" where
  "parsed frame = (case relay_alert_parser frame of Inr a \<Rightarrow> a | Inl _ \<Rightarrow> undefined)"

lemma parsed_frame: "length frame = BUFSIZE \<Longrightarrow> relay_alert_parser frame = Inr (parsed frame)"
proof -
  assume l: "length frame = BUFSIZE"
  have "\<exists>a. relay_alert_parser frame = Inr a"
    using l by (auto simp: relay_alert_parser_def alert_parser_def ALERTPKT_SIZE_def BUFSIZE_def unpack_s_def
        pcap_hdr_parser_def timeval_parser_def unpack_u32_def event_parser_def)
  then show ?thesis by (auto simp: parsed_def)
qed

lemma send_frames_spec:
  "send_frames k buf =
    (concat (map (\<lambda>f. send_event_to_server k (parsed f)) (frames BUFSIZE buf)), rest BUFSIZE buf, Inr ())"
proof (induction k buf rule: send_frames.induct)
  case (1 k buf)
  show ?case
  proof (cases "length buf < BUFSIZE")
    case True
    then show ?thesis by (simp add: send_frames.simps relay.frames_short)
  next
    case False
    then have p: "relay_alert_parser (take BUFSIZE buf) = Inr (parsed (take BUFSIZE buf))"
      by (intro parsed_frame) simp
    show ?thesis
      unfolding send_frames.simps[of k buf] using 1[OF False p] False p
      by (simp add: relay.frames_long[of buf])
  qed
qed

section \<open>The two threads\<close>

datatype thread_pc = Testing | Blocked | Finished

record pig_state =
  pig_q :: "bytes list"
  listen_running :: bool
  listen_pc :: thread_pc
  relay_running :: bool
  relay_pc :: thread_pc
  relay_buf :: bytes
  posted :: "alert_post list"

definition pig_start :: pig_state where
  "pig_start = \<lparr>pig_q = [], listen_running = True, listen_pc = Testing, relay_running = True,
     relay_pc = Testing, relay_buf = [], posted = []\<rparr>"

text \<open>\<open>socket.recv(BUFSIZE)\<close> on a datagram socket cuts a longer datagram off.\<close>

definition recv :: "bytes \<Rightarrow> bytes" where
  "recv dgram = take BUFSIZE dgram"

datatype pig_event = ListenTest | Recv bytes | RelayTest | Take | Stop

text \<open>
  One step of one thread. \<open>ListenTest\<close> and \<open>RelayTest\<close> read the flag at the head of the loop,
  \<open>Recv\<close> is the return of \<open>recv\<close> with the \<open>put\<close> after it, \<open>Take\<close> the return of \<open>get\<close> with the
  work on the buffer, \<open>Stop\<close> is \<open>PigrelayDaemon.stop\<close> called by the main thread.
\<close>

inductive pig_step :: "relay_kind \<Rightarrow> pig_event \<Rightarrow> pig_state \<Rightarrow> pig_state \<Rightarrow> bool" for k where
  listen_test: "listen_pc s = Testing \<Longrightarrow>
    pig_step k ListenTest s (s\<lparr>listen_pc := if listen_running s then Blocked else Finished\<rparr>)"
| recv: "listen_pc s = Blocked \<Longrightarrow> data = recv dgram \<Longrightarrow>
    pig_step k (Recv dgram) s
      (s\<lparr>listen_pc := Testing, pig_q := if data \<noteq> [] then queue_put data (pig_q s) else pig_q s\<rparr>)"
| relay_test: "relay_pc s = Testing \<Longrightarrow>
    pig_step k RelayTest s (s\<lparr>relay_pc := if relay_running s then Blocked else Finished\<rparr>)"
| take: "relay_pc s = Blocked \<Longrightarrow> queue_get (pig_q s) = Some (data, q') \<Longrightarrow>
    send_frames k (relay_buf s @ data) = (ps, buf', r) \<Longrightarrow>
    pig_step k Take s (s\<lparr>pig_q := q', relay_buf := buf', posted := posted s @ ps,
      relay_pc := (case r of Inr _ \<Rightarrow> Testing | Inl _ \<Rightarrow> Finished)\<rparr>)"
| stop: "pig_step k Stop s (s\<lparr>relay_running := False, listen_running := False\<rparr>)"

inductive_cases pig_stepE: "pig_step k e s s'"

inductive pig_steps :: "relay_kind \<Rightarrow> pig_event list \<Rightarrow> pig_state \<Rightarrow> pig_state \<Rightarrow> bool" for k where
  none: "pig_steps k [] s s"
| more: "pig_steps k es s s' \<Longrightarrow> pig_step k e s' s'' \<Longrightarrow> pig_steps k (es @ [e]) s s''"

text \<open>A run of the process, from the start of its threads.\<close>

definition pig_run :: "relay_kind \<Rightarrow> pig_event list \<Rightarrow> pig_state \<Rightarrow> bool" where
  "pig_run k es s = pig_steps k es pig_start s"

lemma pig_run_induct [consumes 1, case_names start step]:
  assumes "pig_run k es s"
    and "P [] pig_start"
    and "\<And>es s e s'. pig_run k es s \<Longrightarrow> P es s \<Longrightarrow> pig_step k e s s' \<Longrightarrow> P (es @ [e]) s'"
  shows "P es s"
proof -
  have "pig_steps k es t s \<Longrightarrow> t = pig_start \<Longrightarrow> P es s" for t
    by (induction rule: pig_steps.induct) (auto simp: assms(2) pig_run_def intro!: assms(3))
  then show ?thesis using assms(1) by (simp add: pig_run_def)
qed

text \<open>The datagrams a run received, as they arrived.\<close>

fun received :: "pig_event list \<Rightarrow> bytes list" where
  "received [] = []"
| "received (Recv d # es) = d # received es"
| "received (_ # es) = received es"

lemma received_append [simp]: "received (es @ fs) = received es @ received fs"
  by (induction es rule: received.induct) auto

definition relay_output :: "relay_kind \<Rightarrow> bytes \<Rightarrow> alert_post list" where
  "relay_output k stream = concat (map (\<lambda>f. send_event_to_server k (parsed f)) (frames BUFSIZE stream))"

lemma relay_output_append:
  "relay_output k (xs @ ys) = relay_output k xs @ relay_output k (rest BUFSIZE xs @ ys)"
  using relay.frames_append[of xs ys] by (simp add: relay_output_def)

lemma pig_run_inv:
  assumes "pig_run k es s"
  shows "\<exists>taken. taken @ pig_q s = filter (\<lambda>d. d \<noteq> []) (map recv (received es)) \<and>
    relay_buf s = rest BUFSIZE (concat taken) \<and> posted s = relay_output k (concat taken) \<and>
    (relay_pc s = Finished \<longrightarrow> \<not> relay_running s) \<and> (listen_pc s = Finished \<longrightarrow> \<not> listen_running s)"
    (is "\<exists>taken. ?I es s taken")
  using assms
proof (induction rule: pig_run_induct)
  case start
  show ?case by (rule exI[of _ "[]"]) (simp add: pig_start_def relay_output_def)
next
  case (step es s e s')
  then obtain taken where I: "?I es s taken" by blast
  from \<open>pig_step k e s s'\<close> show ?case
  proof cases
    case listen_test
    then show ?thesis using I by (intro exI[of _ taken]) simp
  next
    case (recv data dgram)
    then show ?thesis using I by (intro exI[of _ taken]) (auto simp: queue_put_def)
  next
    case relay_test
    then show ?thesis using I by (intro exI[of _ taken]) simp
  next
    case (take data q' ps buf' r)
    have q: "pig_q s = data # q'" using take(4) by (cases "pig_q s") auto
    have "buf' = rest BUFSIZE (relay_buf s @ data)" "r = Inr ()"
      "ps = relay_output k (relay_buf s @ data)"
      using take(5) by (simp_all add: send_frames_spec relay_output_def)
    then show ?thesis
      using I take q relay.frames_append[of "concat taken" data] relay_output_append[of k "concat taken" data]
      by (intro exI[of _ "taken @ [data]"]) simp
  next
    case stop
    then show ?thesis using I by (intro exI[of _ taken]) simp
  qed
qed


lemma concat_filter_nonempty: "concat (filter (\<lambda>d. d \<noteq> []) xs) = concat xs"
  by (induction xs) auto

section \<open>Properties\<close>

text \<open>
  C9: the relay loses, repeats and reorders nothing, whatever the interleaving of the threads and
  however the stream is cut into datagrams. What has been posted, followed by what the buffer and
  the queue still hold, is the output for the concatenation of all datagrams received; the buffer
  always holds less than one alert, and the relay thread ends only after \<open>stop\<close>.
\<close>

theorem relay_lossless:
  assumes "pig_run k es s"
  shows "posted s @ relay_output k (relay_buf s @ concat (pig_q s)) =
      relay_output k (concat (map recv (received es))) \<and>
    length (relay_buf s) < BUFSIZE \<and> (relay_pc s = Finished \<longrightarrow> \<not> relay_running s)"
proof -
  obtain taken where t: "taken @ pig_q s = filter (\<lambda>d. d \<noteq> []) (map recv (received es))"
    "relay_buf s = rest BUFSIZE (concat taken)" "posted s = relay_output k (concat taken)"
    "relay_pc s = Finished \<longrightarrow> \<not> relay_running s"
    using pig_run_inv[OF assms] by blast
  have "concat taken @ concat (pig_q s) = concat (map recv (received es))"
    using t(1) by (metis concat_append concat_filter_nonempty)
  then have "relay_output k (concat (map recv (received es))) =
      relay_output k (concat taken) @ relay_output k (rest BUFSIZE (concat taken) @ concat (pig_q s))"
    by (metis relay_output_append)
  then show ?thesis using t relay.rest_length[of "concat taken"] by simp
qed

lemma demo_listen_run:
  "\<exists>s. pig_run k [ListenTest, Recv (replicate BUFSIZE 0)] s \<and> pig_q s = [replicate BUFSIZE 0] \<and> relay_buf s = []"
proof -
  let ?s1 = "pig_start\<lparr>listen_pc := Blocked\<rparr>"
  let ?s2 = "?s1\<lparr>listen_pc := Testing, pig_q := [replicate BUFSIZE 0]\<rparr>"
  have "pig_steps k ([] @ [ListenTest]) pig_start ?s1"
    using pig_steps.more[OF pig_steps.none listen_test[of pig_start k]] by (simp add: pig_start_def)
  moreover have "pig_step k (Recv (replicate BUFSIZE 0)) ?s1 ?s2"
    using pig_step.recv[of ?s1 "replicate BUFSIZE 0" "replicate BUFSIZE 0" k]
    by (simp add: recv_def pig_start_def queue_put_def BUFSIZE_def)
  ultimately have "pig_steps k (([] @ [ListenTest]) @ [Recv (replicate BUFSIZE 0)]) pig_start ?s2"
    by (rule pig_steps.more)
  then show ?thesis unfolding pig_run_def by (intro exI[of _ ?s2]) (simp add: pig_start_def)
qed

theorem relay_lossless_witness:
  "\<exists>s. pig_run (HttpSnortRelay ''h'' 2) [ListenTest, Recv (replicate BUFSIZE 0)] s \<and>
     posted s @ relay_output (HttpSnortRelay ''h'' 2) (concat (pig_q s)) =
       relay_output (HttpSnortRelay ''h'' 2) (replicate BUFSIZE 0)"
proof -
  obtain s where s: "pig_run (HttpSnortRelay ''h'' 2) [ListenTest, Recv (replicate BUFSIZE 0)] s" "relay_buf s = []"
    using demo_listen_run by blast
  from relay_lossless[OF s(1)] s show ?thesis by (intro exI[of _ s]) (simp add: recv_def)
qed

text \<open>
  One alert per datagram. When every datagram has at least the 65863 bytes of an alert
  (\<open>recv\<close> cuts off the excess), the HTTP relay posts the alerts of the datagrams it has worked off, one for
  each and in order, and the buffer is empty between two datagrams.
\<close>

theorem one_alert_per_datagram:
  assumes "pig_run (HttpSnortRelay addr port) es s" "\<forall>d \<in> set (received es). BUFSIZE \<le> length d"
  shows "\<exists>n. posted s = map (\<lambda>d. \<lparr>post_url = addr @ '':'' @ nat_str port @ ''/snort/alert'',
        post_alert = parsed (take BUFSIZE d)\<rparr>) (take n (received es)) \<and>
    pig_q s = map (take BUFSIZE) (drop n (received es)) \<and> relay_buf s = []"
proof -
  let ?k = "HttpSnortRelay addr port"
  obtain taken where t: "taken @ pig_q s = filter (\<lambda>d. d \<noteq> []) (map recv (received es))"
    "relay_buf s = rest BUFSIZE (concat taken)" "posted s = relay_output ?k (concat taken)"
    using pig_run_inv[OF assms(1)] by blast
  have "\<forall>d \<in> set (received es). length (recv d) = BUFSIZE" using assms(2) by (simp add: recv_def)
  moreover have "0 < BUFSIZE" by (simp add: BUFSIZE_def)
  ultimately have "\<forall>d \<in> set (map recv (received es)). d \<noteq> []"
    and len: "\<forall>d \<in> set (map recv (received es)). length d = BUFSIZE" by auto
  then have q: "taken @ pig_q s = map (take BUFSIZE) (received es)"
    using t(1) by (simp add: recv_def)
  define n where "n = length taken"
  have taken: "taken = map (take BUFSIZE) (take n (received es))"
    and rest: "pig_q s = map (take BUFSIZE) (drop n (received es))"
    using q by (simp_all add: n_def append_eq_conv_conj take_map drop_map)
  have "\<forall>x \<in> set taken. length x = BUFSIZE"
    using len set_take_subset[of n "received es"] by (auto simp: taken recv_def)
  from relay.frames_aligned[OF this] show ?thesis
    using t rest by (intro exI[of _ n]) (simp add: relay_output_def taken comp_def concat_map_singleton)
qed

theorem one_alert_per_datagram_witness:
  "\<exists>s n. pig_run (HttpSnortRelay ''h'' 2) [ListenTest, Recv (replicate BUFSIZE 0)] s \<and>
     pig_q s = map (take BUFSIZE) (drop n [replicate BUFSIZE 0]) \<and> relay_buf s = []"
proof -
  obtain s where s: "pig_run (HttpSnortRelay ''h'' 2) [ListenTest, Recv (replicate BUFSIZE 0)] s"
    using demo_listen_run by blast
  from one_alert_per_datagram[OF s] show ?thesis using s by auto
qed

text \<open>
  The JSON-RPC relay sends nothing. Its sending method has another name than the one the loop
  calls, so in every run it takes the alerts out of the queue and drops them.
\<close>

theorem json_relay_silent: "relay_output JsonRPCSnortRelay stream = [] \<and> fst (send_frames JsonRPCSnortRelay buf) = []"
  by (simp add: relay_output_def send_frames_spec)

text \<open>
  C37: \<open>stop\<close> ends both threads after at most one more item each. Once both flags are cleared, any
  continuation receives at most one datagram and takes at most one item from the queue, because the
  flags are read at the head of the loops only.
\<close>

theorem stop_bounds_work:
  assumes "pig_steps k es s s'" "\<not> listen_running s" "\<not> relay_running s"
  shows "length (received es) + (if listen_pc s' = Blocked then 1 else 0) \<le> 1 \<and>
    length (filter (\<lambda>e. e = Take) es) + (if relay_pc s' = Blocked then 1 else 0) \<le> 1 \<and>
    \<not> listen_running s' \<and> \<not> relay_running s'"
  using assms
proof (induction rule: pig_steps.induct)
  case (more es s s' e s'')
  note IH = more.IH[OF more.prems]
  from more.hyps(2) show ?case
    using IH by cases (auto split: sum.splits if_splits)
qed auto

theorem stop_bounds_work_witness:
  "\<exists>s'. pig_steps ParsedSnortRelay [ListenTest] (pig_start\<lparr>listen_running := False, relay_running := False\<rparr>) s' \<and>
     \<not> listen_running s'"
proof -
  let ?s = "pig_start\<lparr>listen_running := False, relay_running := False\<rparr>"
  have st: "pig_steps ParsedSnortRelay ([] @ [ListenTest]) ?s (?s\<lparr>listen_pc := Finished\<rparr>)"
    using pig_steps.more[OF pig_steps.none listen_test[of ?s ParsedSnortRelay]] by (simp add: pig_start_def)
  from stop_bounds_work[OF st] show ?thesis using st by (intro exI[of _ "?s\<lparr>listen_pc := Finished\<rparr>"]) simp
qed

end
