(* ===== verification/Snort_Rules.thy ===== *)
theory Snort_Rules
  imports Pig_Relay
begin

text \<open>
  The managed snort process: \<open>pig-relay/snort.py\<close> and its HTTP front end
  \<open>pig-relay/truffle.py\<close>.

  Files are a map from names to contents, processes a list of statuses. Rule texts are the ASCII
  strings of the JSON requests. The front end only enqueues; the update thread takes the items
  out one at a time, edits the rules file and restarts snort.
\<close>

section \<open>The rules file: class SnortUpdateThread\<close>

type_synonym files = "string \<Rightarrow> string option"

abbreviation NL :: char where "NL \<equiv> CHR 0x0A"

text \<open>\<open>readlines\<close> keeps the line ends; only the last line may lack one.\<close>

fun readlines :: "string \<Rightarrow> string list" where
  "readlines [] = []"
| "readlines (c # cs) =
     (if c = NL then [c] # readlines cs
      else (case readlines cs of [] \<Rightarrow> [[c]] | l # ls \<Rightarrow> (c # l) # ls))"

text \<open>\<open>rule + '\n'\<close>, where the rule comes from a JSON body and may be any value.\<close>

definition rule_line :: "pyval \<Rightarrow> string result" where
  "rule_line rule = bindE (as_str rule) (\<lambda>s. Inr (s @ [NL]))"

text \<open>Opening with mode \<open>a\<close> creates the file before the concatenation can fail.\<close>

definition append_rule :: "string \<Rightarrow> pyval \<Rightarrow> files \<Rightarrow> files \<times> unit result" where
  "append_rule rule_file rule fs =
     (let content = (case fs rule_file of None \<Rightarrow> [] | Some c \<Rightarrow> c)
      in (case rule_line rule of
            Inl e \<Rightarrow> (fs(rule_file \<mapsto> content), Inl e)
          | Inr l \<Rightarrow> (fs(rule_file \<mapsto> content @ l), Inr ())))"

text \<open>
  Opening with mode \<open>w\<close> empties the file before the first comparison; the comparison evaluates
  \<open>rule + '\n'\<close> for every line.
\<close>

definition remove_rule :: "string \<Rightarrow> pyval \<Rightarrow> files \<Rightarrow> files \<times> unit result" where
  "remove_rule rule_file rule fs =
     (case fs rule_file of
        None \<Rightarrow> (fs, Inl OSError)
      | Some content \<Rightarrow>
          (case readlines content of
             [] \<Rightarrow> (fs(rule_file \<mapsto> []), Inr ())
           | lines \<Rightarrow>
               (case rule_line rule of
                  Inl e \<Rightarrow> (fs(rule_file \<mapsto> []), Inl e)
                | Inr l \<Rightarrow> (fs(rule_file \<mapsto> concat (filter (\<lambda>line. line \<noteq> l) lines)), Inr ()))))"

definition clear_rules :: "string option \<Rightarrow> string \<Rightarrow> files \<Rightarrow> files \<times> unit result" where
  "clear_rules template rule_file fs =
     (case template of
        None \<Rightarrow> (fs(rule_file \<mapsto> []), Inr ())
      | Some t \<Rightarrow>
          (case fs t of
             None \<Rightarrow> (fs, Inl OSError)
           | Some content \<Rightarrow>
               (if t = rule_file then (fs, Inl (ExnOther ''shutil.Error''))
                else (fs(rule_file \<mapsto> content), Inr ()))))"

definition process_rule :: "string option \<Rightarrow> string \<Rightarrow> pydict \<Rightarrow> files \<Rightarrow> files \<times> unit result" where
  "process_rule template rule_file item fs =
     (case py_item (PyDict item) ''type'' of
        Inl e \<Rightarrow> (fs, Inl e)
      | Inr t \<Rightarrow>
          (if py_eq t (PyStr ''add'') then
             (case py_item (PyDict item) ''rule'' of
                Inl e \<Rightarrow> (fs, Inl e) | Inr rule \<Rightarrow> append_rule rule_file rule fs)
           else if py_eq t (PyStr ''delete'') then
             (case py_item (PyDict item) ''rule'' of
                Inl e \<Rightarrow> (fs, Inl e) | Inr rule \<Rightarrow> remove_rule rule_file rule fs)
           else if py_eq t (PyStr ''clear'') then clear_rules template rule_file fs
           else (fs, Inr ())))"

section \<open>The process: class SnortDaemon\<close>

text \<open>
  A process is running, has ended without being waited for, or has been reaped by \<open>poll\<close>; a signal
  to a reaped process raises. \<open>None\<close> as current process is the missing attribute \<open>_proc\<close>.
\<close>

datatype proc_status = Running | Ended | Reaped

record snort_daemon =
  procs :: "proc_status list"
  current :: "nat option"
  thread_started :: bool

definition daemon_new :: snort_daemon where
  "daemon_new = \<lparr>procs = [], current = None, thread_started = False\<rparr>"

definition daemon_start :: "snort_daemon \<Rightarrow> snort_daemon" where
  "daemon_start d = d\<lparr>thread_started := thread_started d \<or> current d = None,
     procs := procs d @ [Running], current := Some (length (procs d))\<rparr>"

definition poll_proc :: "nat \<Rightarrow> snort_daemon \<Rightarrow> snort_daemon" where
  "poll_proc p d = d\<lparr>procs := (procs d)[p := if procs d ! p = Running then Running else Reaped]\<rparr>"

definition daemon_stop :: "snort_daemon \<Rightarrow> snort_daemon" where
  "daemon_stop d =
     (case current d of
        None \<Rightarrow> d
      | Some p \<Rightarrow>
          (let d' = poll_proc p d
           in if procs d' ! p = Running then d'\<lparr>procs := (procs d')[p := Ended]\<rparr> else d'))"

definition send_sighup :: "snort_daemon \<Rightarrow> unit result" where
  "send_sighup d =
     (case current d of
        None \<Rightarrow> Inl AttributeError
      | Some p \<Rightarrow> (if procs d ! p = Reaped then Inl OSError else Inr ()))"

definition daemon_reload :: "snort_daemon \<Rightarrow> snort_daemon \<times> unit result" where
  "daemon_reload d =
     (case send_sighup d of
        Inl e \<Rightarrow> (d, Inl e)
      | Inr _ \<Rightarrow> (daemon_start (daemon_stop d), Inr ()))"

text \<open>The queue items the daemon's methods put.\<close>

definition add_item :: "pyval \<Rightarrow> pydict" where
  "add_item rule = [(''type'', PyStr ''add''), (''rule'', rule)]"

definition delete_item :: "pyval \<Rightarrow> pydict" where
  "delete_item rule = [(''type'', PyStr ''delete''), (''rule'', rule)]"

definition clear_item :: pydict where
  "clear_item = [(''type'', PyStr ''clear'')]"

text \<open>
  One round of the update thread on an item: the callback runs only if the file operation
  returned, and every exception is caught by the loop.
\<close>

record snort_conf =
  rule_file :: string
  rule_template :: "string option"

definition update_round :: "snort_conf \<Rightarrow> files \<times> snort_daemon \<Rightarrow> pydict \<Rightarrow> files \<times> snort_daemon" where
  "update_round c s item =
     (case process_rule (rule_template c) (rule_file c) item (fst s) of
        (fs', Inl e) \<Rightarrow> (fs', snd s)
      | (fs', Inr _) \<Rightarrow> (fs', fst (daemon_reload (snd s))))"

section \<open>The front end: class TruffleServer\<close>

definition request_rules :: "http_body \<Rightarrow> pyval list result" where
  "request_rules req =
     bindE (of_option KeyError (content_type req)) (\<lambda>ct.
       if ct = ''application/json''
       then bindE (json_body req) (\<lambda>j. bindE (py_item j ''rules'') py_iter)
       else Inr [])"

text \<open>
  The three routes: the queue after the call, and the answer (body and status). The handlers
  catch every exception and always answer the same.
\<close>

definition truffle_answer :: "int \<times> int" where
  "truffle_answer = (1, 200)"

definition truffle_add :: "http_body \<Rightarrow> pydict list \<Rightarrow> pydict list \<times> int \<times> int" where
  "truffle_add req q =
     ((case request_rules req of
         Inl e \<Rightarrow> q | Inr rules \<Rightarrow> foldl (\<lambda>q rule. queue_put (add_item rule) q) q rules), truffle_answer)"

definition truffle_delete :: "http_body \<Rightarrow> pydict list \<Rightarrow> pydict list \<times> int \<times> int" where
  "truffle_delete req q =
     ((case request_rules req of
         Inl e \<Rightarrow> q | Inr rules \<Rightarrow> foldl (\<lambda>q rule. queue_put (delete_item rule) q) q rules), truffle_answer)"

definition truffle_clear :: "pydict list \<Rightarrow> pydict list \<times> int \<times> int" where
  "truffle_clear q = (queue_put clear_item q, truffle_answer)"

section \<open>Lines\<close>

lemma concat_readlines: "concat (readlines s) = s"
  by (induction s) (auto split: list.splits)

definition complete_lines :: "string \<Rightarrow> bool" where
  "complete_lines s \<longleftrightarrow> s = [] \<or> last s = NL"

lemma readlines_Nil_iff [simp]: "readlines s = [] \<longleftrightarrow> s = []"
  by (cases s) (auto split: list.splits)

lemma readlines_append: "complete_lines s \<Longrightarrow> readlines (s @ t) = readlines s @ readlines t"
proof (induction s)
  case (Cons c s)
  have comp: "complete_lines s" using Cons.prems by (auto simp: complete_lines_def split: if_splits)
  show ?case
  proof (cases s)
    case Nil
    then show ?thesis using Cons.prems by (simp add: complete_lines_def)
  next
    case (Cons d s')
    have "readlines s \<noteq> []" unfolding readlines_Nil_iff using Cons by simp
    then show ?thesis using \<open>complete_lines s \<Longrightarrow> readlines (s @ t) = readlines s @ readlines t\<close> comp
      by (auto split: list.splits)
  qed
qed simp

lemma readlines_line: "NL \<notin> set r \<Longrightarrow> readlines (r @ [NL]) = [r @ [NL]]"
  by (induction r) auto

text \<open>Every line but the last ends in the only newline it has; such lists are read back as they are.\<close>

fun lines_ok :: "string list \<Rightarrow> bool" where
  "lines_ok [] = True"
| "lines_ok (l # ls) = (l \<noteq> [] \<and> NL \<notin> set (butlast l) \<and> (ls \<noteq> [] \<longrightarrow> last l = NL) \<and> lines_ok ls)"

lemma lines_ok_readlines: "lines_ok (readlines s)"
proof (induction s)
  case (Cons c s)
  then show ?case by (cases "readlines s") auto
qed simp

lemma readlines_single: "l \<noteq> [] \<Longrightarrow> NL \<notin> set (butlast l) \<Longrightarrow> readlines l = [l]"
  by (induction l) (auto split: if_splits list.splits)

lemma readlines_concat: "lines_ok ls \<Longrightarrow> readlines (concat ls) = ls"
proof (induction ls)
  case (Cons l ls)
  show ?case
  proof (cases "ls = []")
    case True
    then show ?thesis using Cons.prems readlines_single[of l] by simp
  next
    case False
    then have "complete_lines l" using Cons.prems by (simp add: complete_lines_def)
    then show ?thesis using Cons readlines_single[of l] by (simp add: readlines_append)
  qed
qed simp

lemma lines_ok_filter: "lines_ok ls \<Longrightarrow> lines_ok (filter P ls)"
proof (induction ls)
  case (Cons l ls)
  then show ?case by (cases "filter P ls") auto
qed simp

lemma readlines_filter: "readlines (concat (filter P (readlines s))) = filter P (readlines s)"
  by (intro readlines_concat lines_ok_filter lines_ok_readlines)

lemma append_rule_str:
  "append_rule f (PyStr r) fs = (fs(f \<mapsto> (case fs f of None \<Rightarrow> [] | Some c \<Rightarrow> c) @ r @ [NL]), Inr ())"
  by (simp add: append_rule_def rule_line_def)

lemma remove_rule_str:
  assumes "fs f = Some c"
  shows "remove_rule f (PyStr r) fs =
    (fs(f \<mapsto> concat (filter (\<lambda>line. line \<noteq> r @ [NL]) (readlines c))), Inr ())"
proof (cases "readlines c")
  case Nil
  then show ?thesis using assms by (simp add: remove_rule_def)
next
  case (Cons l ls)
  then show ?thesis using assms by (simp add: remove_rule_def rule_line_def)
qed

section \<open>Properties: the rules file\<close>

text \<open>
  C33: adding and deleting rules edit whole lines. On a rules file that ends with a line end, adding
  a one line rule appends exactly that line; deleting removes every line equal to it and keeps the
  others in order; and deleting a rule just added restores the file when the rule was new.
\<close>

theorem rules_file_edits:
  assumes "fs f = Some c" "complete_lines c" "NL \<notin> set r"
  shows "\<exists>c1 c2. append_rule f (PyStr r) fs = (fs(f \<mapsto> c1), Inr ()) \<and>
    readlines c1 = readlines c @ [r @ [NL]] \<and> complete_lines c1 \<and>
    remove_rule f (PyStr r) (fs(f \<mapsto> c1)) = (fs(f \<mapsto> c2), Inr ()) \<and>
    readlines c2 = filter (\<lambda>line. line \<noteq> r @ [NL]) (readlines c) \<and>
    (r @ [NL] \<notin> set (readlines c) \<longrightarrow> fs(f \<mapsto> c2) = fs)"
proof -
  let ?c1 = "c @ r @ [NL]" and ?P = "\<lambda>line. line \<noteq> r @ [NL]"
  have lines: "readlines ?c1 = readlines c @ [r @ [NL]]"
    using assms readlines_append[of c "r @ [NL]"] readlines_line[of r] by simp
  have rm: "remove_rule f (PyStr r) (fs(f \<mapsto> ?c1)) = (fs(f \<mapsto> concat (filter ?P (readlines ?c1))), Inr ())"
    using remove_rule_str[of "fs(f \<mapsto> ?c1)" f ?c1 r] by simp
  have c2: "filter ?P (readlines ?c1) = filter ?P (readlines c)" by (simp add: lines)
  have "concat (filter ?P (readlines c)) = c" if "r @ [NL] \<notin> set (readlines c)"
  proof -
    have "filter ?P (readlines c) = readlines c" using that by (auto intro: filter_True)
    then show ?thesis by (simp add: concat_readlines)
  qed
  then have "r @ [NL] \<notin> set (readlines c) \<longrightarrow> fs(f \<mapsto> concat (filter ?P (readlines c))) = fs"
    using assms(1) by (auto simp: fun_upd_idem)
  then show ?thesis
    using rm lines assms(1) unfolding c2
    by (intro exI[of _ ?c1] exI[of _ "concat (filter ?P (readlines c))"])
      (simp add: append_rule_str complete_lines_def readlines_filter)
qed

theorem rules_file_edits_witness:
  "\<exists>c1. append_rule ''r'' (PyStr ''alert'') [''r'' \<mapsto> ''old'' @ [NL]] = ([''r'' \<mapsto> c1], Inr ()) \<and>
    readlines c1 = [''old'' @ [NL], ''alert'' @ [NL]]"
proof -
  have "[''r'' \<mapsto> ''old'' @ [NL]] ''r'' = Some (''old'' @ [NL])" "complete_lines (''old'' @ [NL])" "NL \<notin> set ''alert''"
    by (simp_all add: complete_lines_def)
  from rules_file_edits[where fs = "[''r'' \<mapsto> ''old'' @ [NL]]", OF this] show ?thesis by auto
qed

text \<open>
  A delete request whose rule is not a string empties the rules file. The file is opened for
  writing before the comparison raises, and nothing is written back; every rule is lost and snort is
  not reloaded.
\<close>

theorem delete_of_non_string_wipes:
  assumes "fs (rule_file c) = Some content" "content \<noteq> []" "\<forall>s. rule \<noteq> PyStr s"
  shows "update_round c (fs, d) (delete_item rule) = (fs(rule_file c \<mapsto> []), d)"
proof -
  have e: "rule_line rule = Inl TypeError"
    using assms(3) by (cases rule) (auto simp: rule_line_def)
  have p: "process_rule t f (delete_item rule) fs' = remove_rule f rule fs'" for t f fs'
    by (simp add: process_rule_def delete_item_def)
  obtain l ls where "readlines content = l # ls"
    using assms(2) by (cases "readlines content") auto
  then have "remove_rule (rule_file c) rule fs = (fs(rule_file c \<mapsto> []), Inl TypeError)"
    using assms(1) e by (simp add: remove_rule_def)
  then show ?thesis by (simp add: update_round_def p)
qed

theorem delete_of_non_string_wipes_witness:
  "update_round \<lparr>rule_file = ''r'', rule_template = None\<rparr> ([''r'' \<mapsto> ''old'' @ [NL]], d) (delete_item (PyInt 5)) =
    ([''r'' \<mapsto> []], d)"
proof -
  let ?c = "\<lparr>rule_file = ''r'', rule_template = None\<rparr>"
  have "[''r'' \<mapsto> ''old'' @ [NL]] (rule_file ?c) = Some (''old'' @ [NL])" by simp
  from delete_of_non_string_wipes[where fs = "[''r'' \<mapsto> ''old'' @ [NL]]", OF this, of "PyInt 5"]
  show ?thesis by simp
qed

section \<open>Properties: the process\<close>

text \<open>What can happen to the process after the initial start; \<open>Crash\<close> is snort ending by itself.\<close>

datatype daemon_event = Reload | StopSnort | Crash

definition daemon_step :: "snort_daemon \<Rightarrow> daemon_event \<Rightarrow> snort_daemon" where
  "daemon_step d e =
     (case e of
        Reload \<Rightarrow> fst (daemon_reload d)
      | StopSnort \<Rightarrow> daemon_stop d
      | Crash \<Rightarrow> (case current d of
           None \<Rightarrow> d
         | Some p \<Rightarrow> if procs d ! p = Running then d\<lparr>procs := (procs d)[p := Ended]\<rparr> else d))"

lemma daemon_step_Reload [simp]: "daemon_step d Reload = fst (daemon_reload d)"
  by (simp add: daemon_step_def)

definition running :: "snort_daemon \<Rightarrow> nat set" where
  "running d = {p. p < length (procs d) \<and> procs d ! p = Running}"

definition daemon_ok :: "snort_daemon \<Rightarrow> bool" where
  "daemon_ok d \<longleftrightarrow> (\<forall>p. current d = Some p \<longrightarrow> p < length (procs d)) \<and> running d \<subseteq> set_option (current d)"

lemma running_new [simp]: "running daemon_new = {}"
  by (simp add: running_def daemon_new_def)

lemma running_update:
  "st \<noteq> Running \<Longrightarrow> running (d\<lparr>procs := (procs d)[p := st]\<rparr>) = running d - {p}"
proof -
  have "(procs d)[p := st] ! x = (if p = x then st else procs d ! x)" if "x < length (procs d)" for x
    using that by (cases "p = x") simp_all
  moreover assume "st \<noteq> Running"
  ultimately show ?thesis by (auto simp: running_def split: if_splits)
qed

lemma daemon_stop_eq:
  assumes "current d = Some p" "p < length (procs d)"
  shows "daemon_stop d = d\<lparr>procs := (procs d)[p := if procs d ! p = Running then Ended else Reaped]\<rparr>"
proof -
  have "poll_proc p d = d" if "procs d ! p = Running"
    unfolding poll_proc_def using that list_update_id[of "procs d" p] by simp
  then show ?thesis using assms
    by (auto simp: daemon_stop_def Let_def) (simp_all add: poll_proc_def)
qed

lemma daemon_stop_running:
  assumes "daemon_ok d" shows "running (daemon_stop d) = {}" "daemon_ok (daemon_stop d)"
    "current (daemon_stop d) = current d" "length (procs (daemon_stop d)) = length (procs d)"
proof -
  have "running (daemon_stop d) = {} \<and> current (daemon_stop d) = current d \<and>
      length (procs (daemon_stop d)) = length (procs d)"
  proof (cases "current d")
    case None
    then show ?thesis using assms by (simp add: daemon_stop_def daemon_ok_def)
  next
    case (Some p)
    then have "p < length (procs d)" "running d \<subseteq> {p}" using assms by (auto simp: daemon_ok_def)
    then show ?thesis using Some
      by (auto simp: daemon_stop_eq running_update)
  qed
  then show "running (daemon_stop d) = {}" "daemon_ok (daemon_stop d)"
    "current (daemon_stop d) = current d" "length (procs (daemon_stop d)) = length (procs d)"
    using assms by (auto simp: daemon_ok_def)
qed

lemma running_start: "running (daemon_start d) = insert (length (procs d)) (running d)"
  by (auto simp: running_def daemon_start_def nth_append less_Suc_eq)

lemma daemon_start_ok: "running d = {} \<Longrightarrow> daemon_ok (daemon_start d)"
  using running_start[of d] by (simp add: daemon_ok_def daemon_start_def)

lemma daemon_step_ok: "daemon_ok d \<Longrightarrow> daemon_ok (daemon_step d e)"
proof (cases e)
  case Reload
  assume ok: "daemon_ok d"
  show ?thesis using daemon_start_ok[OF daemon_stop_running(1)[OF ok]] ok
    by (simp add: Reload daemon_reload_def split: sum.split)
next
  case Crash
  assume "daemon_ok d"
  then show ?thesis
    by (auto simp: Crash daemon_step_def daemon_ok_def running_update split: option.split)
qed (simp add: daemon_step_def daemon_stop_running)

interpretation snort: invariant_machine daemon_step daemon_ok
  by unfold_locales (rule daemon_step_ok)

text \<open>
  C32: at most one snort runs. After the one start of the main program, whatever sequence of
  reloads, stops and crashes follows, no process but the current one is running; a reload whose
  signal can be delivered leaves exactly one, a new one, and one that cannot (no process, or it has
  ended and been waited for) leaves everything as it is, so snort stays down.
\<close>

theorem at_most_one_snort:
  "let d = foldl daemon_step (daemon_start daemon_new) es in
     running d \<subseteq> set_option (current d) \<and>
     (case daemon_reload d of
        (d', Inr _) \<Rightarrow> running d' = {length (procs d)} \<and> current d' = Some (length (procs d))
      | (d', Inl _) \<Rightarrow> d' = d \<and> running d = {})"
proof -
  define d where "d = foldl daemon_step (daemon_start daemon_new) es"
  have ok: "daemon_ok d" unfolding d_def
    by (rule snort.run_inv) (simp add: daemon_start_ok)
  then have "running d \<subseteq> set_option (current d)" by (auto simp: daemon_ok_def)
  moreover have "running d = {}" if "send_sighup d = Inl e" for e
  proof (cases "current d")
    case (Some p)
    then have "procs d ! p = Reaped" using that by (auto simp: send_sighup_def split: if_splits)
    then have "p \<notin> running d" by (simp add: running_def)
    then show ?thesis using ok Some by (auto simp: daemon_ok_def)
  qed (use ok in \<open>simp add: daemon_ok_def\<close>)
  moreover have "running (daemon_start (daemon_stop d)) = {length (procs d)}"
    by (simp add: running_start daemon_stop_running[OF ok])
  moreover have "current (daemon_start (daemon_stop d)) = Some (length (procs d))"
    using daemon_stop_running(4)[OF ok] by (simp add: daemon_start_def)
  ultimately show ?thesis
    unfolding d_def[symmetric] by (simp add: daemon_reload_def Let_def split: sum.split)
qed

text \<open>
  A second \<open>start\<close> without a stop loses the first process: it keeps running while the daemon
  only knows the new one, and no later stop ends it.
\<close>

theorem second_start_leaks:
  assumes "daemon_ok d" "current d = Some p" "procs d ! p = Running"
  shows "running (daemon_start d) = {p, length (procs d)} \<and> p \<noteq> length (procs d) \<and>
    running (daemon_stop (daemon_start d)) = {p}"
proof -
  have p: "p < length (procs d)" and run: "running d = {p}"
    using assms by (auto simp: daemon_ok_def running_def)
  let ?d = "daemon_start d"
  have "current ?d = Some (length (procs d))" "length (procs d) < length (procs ?d)"
    by (simp_all add: daemon_start_def)
  then have "running (daemon_stop ?d) = running ?d - {length (procs d)}"
    by (simp add: daemon_stop_eq running_update)
  then show ?thesis using p run by (auto simp: running_start)
qed

theorem second_start_leaks_witness:
  "running (daemon_stop (daemon_start (daemon_start daemon_new))) = {0}"
proof -
  have "daemon_ok (daemon_start daemon_new)" by (simp add: daemon_start_ok)
  moreover have "current (daemon_start daemon_new) = Some 0" "procs (daemon_start daemon_new) ! 0 = Running"
    "length (procs (daemon_start daemon_new)) = 1"
    by (simp_all add: daemon_new_def daemon_start_def)
  ultimately show ?thesis using second_start_leaks[of "daemon_start daemon_new" 0] by simp
qed

section \<open>Properties: the front end\<close>

lemma foldl_queue_put: "foldl (\<lambda>q x. queue_put (f x) q) q xs = q @ map f xs"
  by (induction xs arbitrary: q) (auto simp: queue_put_def)

definition rules_request :: "string list \<Rightarrow> http_body" where
  "rules_request rules = json_post (PyDict [(''rules'', PyList (map PyStr rules))])"

lemma request_rules_ok: "request_rules (rules_request rules) = Inr (map PyStr rules)"
  by (simp add: request_rules_def rules_request_def json_post_def)

lemma update_round_add:
  "fs (rule_file c) = Some content \<Longrightarrow>
    update_round c (fs, d) (add_item (PyStr r)) =
      (fs(rule_file c \<mapsto> content @ r @ [NL]), fst (daemon_reload d))"
  by (simp add: update_round_def process_rule_def add_item_def append_rule_str)

lemma update_rounds_add:
  "fs (rule_file c) = Some content \<Longrightarrow>
    foldl (update_round c) (fs, d) (map (\<lambda>r. add_item (PyStr r)) rules) =
      (fs(rule_file c \<mapsto> content @ concat (map (\<lambda>r. r @ [NL]) rules)),
       foldl daemon_step d (replicate (length rules) Reload))"
proof (induction rules arbitrary: fs content d)
  case Nil
  then show ?case by (auto simp: fun_upd_idem)
next
  case (Cons r rules)
  have "foldl (update_round c) (fs(rule_file c \<mapsto> content @ r @ [NL]), fst (daemon_reload d))
      (map (\<lambda>r. add_item (PyStr r)) rules) =
    (fs(rule_file c \<mapsto> content @ r @ [NL], rule_file c \<mapsto> (content @ r @ [NL]) @ concat (map (\<lambda>r. r @ [NL]) rules)),
       foldl daemon_step (fst (daemon_reload d)) (replicate (length rules) Reload))"
    by (rule Cons.IH) simp
  then show ?case using Cons.prems by (auto simp: update_round_add fun_upd_def)
qed

text \<open>
  Rules posted to the front end reach the rules file, all of them and in order. A request with
  a list of rules enqueues them behind what is queued and is answered with 200; when the update
  thread has worked off the items, the rules follow the old content of the file, one line
  each, and snort has been reloaded once per rule.
\<close>

theorem posted_rules_reach_file:
  assumes "fs (rule_file c) = Some content" "complete_lines content" "\<forall>r \<in> set rules. NL \<notin> set r"
  shows "let (q, answer) = truffle_add (rules_request rules) []; (fs', d') = foldl (update_round c) (fs, d) q
    in answer = (1, 200) \<and> (\<exists>content'. fs' = fs(rule_file c \<mapsto> content') \<and>
         readlines content' = readlines content @ map (\<lambda>r. r @ [NL]) rules) \<and>
       d' = foldl daemon_step d (replicate (length rules) Reload)"
proof -
  have "readlines (concat (map (\<lambda>r. r @ [NL]) rules)) = map (\<lambda>r. r @ [NL]) rules"
    using assms(3) by (intro readlines_concat) (induction rules, auto)
  then have lines: "readlines (content @ concat (map (\<lambda>r. r @ [NL]) rules)) =
      readlines content @ map (\<lambda>r. r @ [NL]) rules"
    using readlines_append[OF assms(2)] by simp
  have q: "truffle_add (rules_request rules) [] = (map (\<lambda>r. add_item (PyStr r)) rules, truffle_answer)"
    by (simp add: truffle_add_def request_rules_ok foldl_queue_put comp_def)
  show ?thesis
    using update_rounds_add[where fs = fs and c = c and d = d and rules = rules, OF assms(1)] lines
    unfolding q truffle_answer_def by (simp only: Let_def prod.case) blast
qed

theorem posted_rules_reach_file_witness:
  "let (q, answer) = truffle_add (rules_request [''a'', ''b'']) [];
       (fs', d') = foldl (update_round \<lparr>rule_file = ''r'', rule_template = None\<rparr>) ([''r'' \<mapsto> []], daemon_start daemon_new) q
    in \<exists>content'. fs' ''r'' = Some content' \<and> readlines content' = [''a'' @ [NL], ''b'' @ [NL]]"
proof -
  let ?c = "\<lparr>rule_file = ''r'', rule_template = None\<rparr>"
  have "[''r'' \<mapsto> []] (rule_file ?c) = Some []" "complete_lines []" "\<forall>r \<in> set [''a'', ''b'']. NL \<notin> set r"
    by (simp_all add: complete_lines_def)
  from posted_rules_reach_file[where fs = "[''r'' \<mapsto> []]", OF this, of "daemon_start daemon_new"]
  show ?thesis by (auto simp: Let_def split: prod.splits)
qed

end
