(* ===== verification/Pig_Main.thy ===== *)
theory Pig_Main
  imports Pig_Relay Snort_Rules Rpc
begin

text \<open>
  The start of the relay process: the functions \<open>snort_start\<close>, \<open>add_snort_to_onos\<close>, \<open>truffle_start\<close>,
  \<open>pigrelay_start\<close> and the main program of \<open>pig-relay/pigrelay.py\<close>, with the listener's socket and the raw relay.

  The configuration is the YAML document. Whether the snort binary starts and what ONOS answers are arguments.
\<close>

section \<open>The listener's socket and the raw relay\<close>

text \<open>\<open>start_recv\<close>: a left-over socket file is removed before binding; \<open>bind\<close> is its answer.\<close>

definition start_recv :: "string \<Rightarrow> (string set \<Rightarrow> unit result) \<Rightarrow> string set \<Rightarrow> string set \<times> unit result" where
  "start_recv sockfile bind fs =
     (let fs' = fs - {sockfile} in
      case bind fs' of Inl e \<Rightarrow> (fs', Inl e) | Inr _ \<Rightarrow> (insert sockfile fs', Inr ()))"

text \<open>\<open>RawSnortRelay\<close>: a round per test of the flag; \<open>send\<close> is the answer of \<open>sendall\<close>.\<close>

fun raw_send_loop :: "(bytes \<Rightarrow> unit result) \<Rightarrow> (bool \<times> bytes) list \<Rightarrow> bytes list \<times> unit result" where
  "raw_send_loop send [] = ([], Inr ())"
| "raw_send_loop send ((flag, data) # rounds) =
     (if \<not> flag then ([], Inr ())
      else (case send data of
          Inl e \<Rightarrow> ([data], Inl e)
        | Inr _ \<Rightarrow> (let (sent, r) = raw_send_loop send rounds in (data # sent, r))))"

definition raw_start_send ::
  "unit result \<Rightarrow> (bytes \<Rightarrow> unit result) \<Rightarrow> (bool \<times> bytes) list \<Rightarrow> bytes list \<times> unit result"
where
  "raw_start_send connect send rounds = (case connect of
     Inl _ \<Rightarrow> ([], Inl SystemExit) | Inr _ \<Rightarrow> raw_send_loop send rounds)"

text \<open>The URL \<open>JsonRPCSnortRelay\<close> builds from the global configuration.\<close>

definition json_rpc_url :: "(pyval \<Rightarrow> string) \<Rightarrow> pyval \<Rightarrow> string result" where
  "json_rpc_url repr_of config =
     bindE (py_item config ''address'') (\<lambda>a. bindE (py_item config ''port'') (\<lambda>p. bindE (as_str a) (\<lambda>addr.
       Inr (''http://'' @ addr @ '':'' @ py_str repr_of p @ ''/api''))))"

section \<open>Starting the parts\<close>

record relay_process =
  snort_args :: "(pyval \<times> pyval \<times> pyval) option"
  snort_proc :: snort_daemon
  onos_requests :: "http_req list"
  truffle_at :: "(pyval \<times> pyval) option"
  pig_at :: "(pyval \<times> pyval \<times> pyval) option"
  pig_flags :: bool

definition relay_process_new :: relay_process where
  "relay_process_new = \<lparr>snort_args = None, snort_proc = daemon_new, onos_requests = [], truffle_at = None,
     pig_at = None, pig_flags = False\<rparr>"

definition snort_start :: "unit result \<Rightarrow> pyval \<Rightarrow> relay_process \<Rightarrow> relay_process \<times> unit result" where
  "snort_start popen conf s =
     (case bindE (py_item conf ''rule_config'') (\<lambda>rules.
           bindE (py_item conf ''interface'') (\<lambda>ifc.
           bindE (py_in ''base_rule_config'' conf) (\<lambda>b.
           bindE (if b then py_item conf ''base_rule_config'' else Inr PyNone) (\<lambda>template.
             Inr (rules, ifc, template))))) of
        Inl e \<Rightarrow> (s, Inl e)
      | Inr args \<Rightarrow>
          (case popen of
             Inl e \<Rightarrow> (s, Inl e)
           | Inr _ \<Rightarrow> (s\<lparr>snort_args := Some args, snort_proc := daemon_start daemon_new\<rparr>, Inr ())))"

definition onos_add_url :: "(pyval \<Rightarrow> string) \<Rightarrow> pyval \<Rightarrow> pyval \<Rightarrow> string result" where
  "onos_add_url repr_of snort_conf onos_conf =
     bindE (py_item snort_conf ''address'') (\<lambda>ip.
     bindE (bindE (py_item onos_conf ''address'') as_str) (\<lambda>addr.
     bindE (py_item onos_conf ''port'') (\<lambda>port.
     bindE (as_str ip) (\<lambda>ips.
       Inr (addr @ '':'' @ py_str repr_of port @ ''/mervyn/snort/add/'' @ ips)))))"

definition add_snort_to_onos ::
  "(pyval \<Rightarrow> string) \<Rightarrow> net \<Rightarrow> pyval \<Rightarrow> pyval \<Rightarrow> relay_process \<Rightarrow> relay_process \<times> unit result"
where
  "add_snort_to_onos repr_of net snort_conf onos_conf s =
     (case onos_add_url repr_of snort_conf onos_conf of
        Inl e \<Rightarrow> (s, Inl e)
      | Inr url \<Rightarrow>
          (s\<lparr>onos_requests := onos_requests s @ [HttpGet url]\<rparr>, bindE (net (HttpGet url)) (\<lambda>_. Inr ())))"

definition truffle_start :: "pyval \<Rightarrow> relay_process \<Rightarrow> relay_process \<times> unit result" where
  "truffle_start conf s =
     (case bindE (py_items conf) (\<lambda>_. bindE (py_item conf ''address'') (\<lambda>a.
           bindE (py_item conf ''port'') (\<lambda>p. Inr (a, p)))) of
        Inl e \<Rightarrow> (s, Inl e)
      | Inr loc \<Rightarrow> (s\<lparr>truffle_at := Some loc\<rparr>, Inr ()))"

definition pigrelay_start :: "pyval \<Rightarrow> relay_process \<Rightarrow> relay_process \<times> unit result" where
  "pigrelay_start conf s =
     (case bindE (py_item conf ''socket_file'') (\<lambda>sock.
           bindE (bindE (py_item conf ''alert_server'') (\<lambda>a. py_item a ''address'')) (\<lambda>addr.
           bindE (bindE (py_item conf ''alert_server'') (\<lambda>a. py_item a ''port'')) (\<lambda>port.
             Inr (sock, addr, port)))) of
        Inl e \<Rightarrow> (s, Inl e)
      | Inr loc \<Rightarrow> (s\<lparr>pig_at := Some loc, pig_flags := True\<rparr>, Inr ()))"

section \<open>The main program\<close>

text \<open>A part of the start after the previous ones; an exception ends the program.\<close>

definition and_then ::
  "relay_process \<times> unit result \<Rightarrow> (relay_process \<Rightarrow> relay_process \<times> unit result) \<Rightarrow> relay_process \<times> unit result"
where
  "and_then sr f = (case sr of (s, Inl e) \<Rightarrow> (s, Inl e) | (s, Inr _) \<Rightarrow> f s)"

definition with_part :: "pyval \<Rightarrow> string \<Rightarrow> (pyval \<Rightarrow> relay_process \<Rightarrow> relay_process \<times> unit result)
    \<Rightarrow> relay_process \<Rightarrow> relay_process \<times> unit result" where
  "with_part config k f s = (case py_item config k of Inl e \<Rightarrow> (s, Inl e) | Inr c \<Rightarrow> f c s)"

definition relay_main ::
  "(pyval \<Rightarrow> string) \<Rightarrow> net \<Rightarrow> unit result \<Rightarrow> bool \<Rightarrow> pyval result \<Rightarrow> relay_process \<times> unit result"
where
  "relay_main repr_of net popen is_root yaml =
     (if \<not> is_root then (relay_process_new, Inl SystemExit)
      else (case yaml of
          Inl _ \<Rightarrow> (relay_process_new, Inl SystemExit)
        | Inr config \<Rightarrow>
            and_then (and_then (and_then (with_part config ''snort'' (snort_start popen) relay_process_new)
              (with_part config ''snort'' (\<lambda>sc. with_part config ''onos'' (add_snort_to_onos repr_of net sc))))
              (with_part config ''truffle'' truffle_start))
              (with_part config ''pigrelay'' pigrelay_start)))"

text \<open>The handler of the keyboard interrupt: snort is stopped, then the flags of both threads are cleared.\<close>

definition relay_interrupt :: "relay_process \<Rightarrow> relay_process" where
  "relay_interrupt s = s\<lparr>snort_proc := daemon_stop (snort_proc s), pig_flags := False\<rparr>"

section \<open>Lemmas\<close>

lemmas part_defs = with_part_def and_then_def snort_start_def add_snort_to_onos_def truffle_start_def pigrelay_start_def

lemma running_started: "running (daemon_start daemon_new) = {0}"
  by (auto simp: running_def daemon_start_def daemon_new_def)

lemma running_stopped: "running (daemon_stop (daemon_start daemon_new)) = {}"
  by (auto simp: running_def daemon_start_def daemon_new_def daemon_stop_def poll_proc_def Let_def)

lemma snort_start_cases:
  "with_part config ''snort'' (snort_start popen) relay_process_new = (s, r) \<Longrightarrow>
    (\<exists>e. r = Inl e \<and> s = relay_process_new) \<or>
    (r = Inr () \<and> popen = Inr () \<and> (\<exists>args. s = relay_process_new\<lparr>snort_args := Some args, snort_proc := daemon_start daemon_new\<rparr>))"
  by (auto simp: with_part_def snort_start_def split: sum.splits)

lemma part_keeps:
  "with_part config ''snort'' (\<lambda>sc. with_part config ''onos'' (add_snort_to_onos repr_of net sc)) s = (s', r) \<Longrightarrow>
    snort_proc s' = snort_proc s \<and> pig_at s' = pig_at s \<and> truffle_at s' = truffle_at s \<and>
    (r = Inr () \<longrightarrow> (\<exists>url c. onos_requests s' = onos_requests s @ [HttpGet url] \<and> net (HttpGet url) = Inr c))"
  "with_part config ''truffle'' truffle_start s = (s', r2) \<Longrightarrow>
    snort_proc s' = snort_proc s \<and> pig_at s' = pig_at s \<and> onos_requests s' = onos_requests s \<and>
    (r2 = Inr () \<longrightarrow> truffle_at s' \<noteq> None)"
  "with_part config ''pigrelay'' pigrelay_start s = (s', r3) \<Longrightarrow>
    snort_proc s' = snort_proc s \<and> onos_requests s' = onos_requests s \<and> truffle_at s' = truffle_at s \<and>
    (case r3 of Inl _ \<Rightarrow> pig_at s' = pig_at s | Inr _ \<Rightarrow> pig_at s' \<noteq> None)"
  by (auto simp: part_defs res_simps split: sum.splits)

section \<open>Properties\<close>

text \<open>
  Starting the relay is all or, with a leak, nothing. If the program comes up, snort runs, ONOS has answered the one request that
  announces it, and the rule server and the relay are started; the keyboard interrupt then leaves no snort
  process. If it fails, the relay has not been started, and snort either never ran or (when ONOS does not answer,
  say, or a later section of the configuration is missing) is left running with nobody to stop it.
\<close>

theorem relay_start_or_leak:
  "case relay_main repr_of net popen is_root yaml of
     (s, Inr _) \<Rightarrow> running (snort_proc s) = {0} \<and> (\<exists>url c. onos_requests s = [HttpGet url] \<and> net (HttpGet url) = Inr c) \<and>
       truffle_at s \<noteq> None \<and> pig_at s \<noteq> None \<and> running (snort_proc (relay_interrupt s)) = {}
   | (s, Inl _) \<Rightarrow> pig_at s = None \<and>
       ((snort_args s, snort_proc s) = (None, daemon_new) \<or> running (snort_proc s) = {0})"
proof (cases "\<exists>config. is_root \<and> yaml = Inr config")
  case False
  then show ?thesis by (auto simp: relay_main_def relay_process_new_def split: sum.split)
next
  case True
  then obtain config where c: "is_root" "yaml = Inr config" by blast
  obtain s1 r1 where 1: "with_part config ''snort'' (snort_start popen) relay_process_new = (s1, r1)" by fastforce
  show ?thesis
  proof (cases r1)
    case (Inl e)
    then show ?thesis using snort_start_cases[OF 1] 1 c by (auto simp: relay_main_def and_then_def relay_process_new_def)
  next
    case r1: (Inr u)
    obtain args where s1: "s1 = relay_process_new\<lparr>snort_args := Some args, snort_proc := daemon_start daemon_new\<rparr>"
      using snort_start_cases[OF 1] r1 by auto
    obtain s2 r2 where 2: "with_part config ''snort'' (\<lambda>sc. with_part config ''onos'' (add_snort_to_onos repr_of net sc)) s1 = (s2, r2)"
      by fastforce
    obtain s3 r3 where 3: "with_part config ''truffle'' truffle_start s2 = (s3, r3)" by fastforce
    obtain s4 r4 where 4: "with_part config ''pigrelay'' pigrelay_start s3 = (s4, r4)" by fastforce
    have run: "relay_main repr_of net popen is_root yaml =
        (case r2 of Inl e \<Rightarrow> (s2, Inl e) | Inr _ \<Rightarrow> (case r3 of Inl e \<Rightarrow> (s3, Inl e) | Inr _ \<Rightarrow> (s4, r4)))"
      using c by (simp add: relay_main_def and_then_def 1 2 3 4 r1 split: sum.split)
    have args: "snort_args s2 = Some args" "snort_args s3 = Some args" "snort_args s4 = Some args"
      using 2 3 4 by (auto simp: part_defs s1 split: sum.splits)
    have proc: "snort_proc s2 = daemon_start daemon_new" "snort_proc s3 = daemon_start daemon_new"
      "snort_proc s4 = daemon_start daemon_new" "pig_at s2 = None" "pig_at s3 = None"
      using part_keeps(1)[OF 2] part_keeps(2)[OF 3] part_keeps(3)[OF 4] by (simp_all add: s1 relay_process_new_def)
    show ?thesis
      using part_keeps(1)[OF 2] part_keeps(2)[OF 3] part_keeps(3)[OF 4] args proc
      unfolding run by (auto simp: running_started running_stopped relay_interrupt_def s1 relay_process_new_def split: sum.splits)
  qed
qed

text \<open>The announcement of the example configuration.\<close>

lemma onos_add_url_example:
  "onos_add_url repr_of (PyDict [(''address'', PyStr ''10.0.0.1'')])
     (PyDict [(''address'', PyStr ''http://192.168.1.1''), (''port'', PyInt 8181)]) =
   Inr ''http://192.168.1.1:8181/mervyn/snort/add/10.0.0.1''"
  by (simp add: onos_add_url_def int_str_def nat_str.simps digit_char_def)

end
