(* ===== verification/Pid_Daemon.thy ===== *)
theory Pid_Daemon
  imports Py_Base
begin

text \<open>
  The generic daemon class: \<open>pig-relay/daemon.py\<close>.

  Its state on disk is the pid file. What the operating system does is an argument or an event: whether a
  \<open>fork\<close> works and which pid it gives, the answer of each \<open>kill\<close>, which processes exist. The redirection of
  the standard files and the printed messages are left out.
\<close>

section \<open>The pid file\<close>

record host =
  pidfile :: "string option"
  procs_alive :: "int set"

text \<open>The file is opened first (\<open>IOError\<close> gives None), then read; the text need not be a number.\<close>

definition get_pid :: "host \<Rightarrow> int option result" where
  "get_pid s = (case pidfile s of
      None \<Rightarrow> Inr None
    | Some text \<Rightarrow> bindE (int_of_string (strip text)) (\<lambda>pid. Inr (Some pid)))"

abbreviation no_pid :: "int option \<Rightarrow> bool" where
  "no_pid pid \<equiv> pid = None \<or> pid = Some 0"

definition delpid :: "host \<Rightarrow> host \<times> unit result" where
  "delpid s = (if pidfile s = None then (s, Inl OSError) else (s\<lparr>pidfile := None\<rparr>, Inr ()))"

section \<open>start\<close>

text \<open>
  The two forks of \<open>daemonize\<close>: None is a failed fork. The surviving grandchild writes its pid and runs; the
  processes before it leave through \<open>sys.exit\<close>.
\<close>

datatype started = NotStarted exn | Daemon int

definition daemonize :: "int option \<Rightarrow> int option \<Rightarrow> host \<Rightarrow> host \<times> started" where
  "daemonize fork1 fork2 s = (case (fork1, fork2) of
      (Some _, Some pid) \<Rightarrow>
        (s\<lparr>pidfile := Some (int_str pid @ [CHR 0x0A]), procs_alive := insert pid (procs_alive s)\<rparr>, Daemon pid)
    | _ \<Rightarrow> (s, NotStarted SystemExit))"

definition start :: "int option \<Rightarrow> int option \<Rightarrow> host \<Rightarrow> host \<times> started" where
  "start fork1 fork2 s = (case get_pid s of
      Inl e \<Rightarrow> (s, NotStarted e)
    | Inr pid \<Rightarrow> (if no_pid pid then daemonize fork1 fork2 s else (s, NotStarted SystemExit)))"

text \<open>The handler of SIGTERM and SIGINT: it leaves through \<open>sys.exit\<close>, which runs \<open>delpid\<close>.\<close>

definition terminated :: "int \<Rightarrow> host \<Rightarrow> host" where
  "terminated pid s = (fst (delpid s))\<lparr>procs_alive := procs_alive s - {pid}\<rparr>"

section \<open>stop\<close>

datatype kill_answer = Delivered | NoSuchProcess | OtherError

text \<open>
  The loop that signals until the system refuses: SIGTERM in every round, SIGHUP too in every tenth. \<open>answers n\<close> is
  the answer to the \<open>n\<close>-th call of \<open>kill\<close>, \<open>i\<close> counts the rounds. The loop may run forever.
\<close>

partial_function (option) kill_loop :: "(nat \<Rightarrow> kill_answer) \<Rightarrow> nat \<Rightarrow> nat \<Rightarrow> (nat \<times> kill_answer) option" where
  "kill_loop answers n i =
     (if answers n \<noteq> Delivered then Some (n, answers n)
      else if (i + 1) mod 10 \<noteq> 0 then kill_loop answers (n + 1) (i + 1)
      else if answers (n + 1) \<noteq> Delivered then Some (n + 1, answers (n + 1))
      else kill_loop answers (n + 2) (i + 1))"

text \<open>\<open>after\<close> is what the system and the dying daemon have made of the host when the loop ends.\<close>

definition stop :: "(nat \<Rightarrow> kill_answer) \<Rightarrow> (host \<Rightarrow> host) \<Rightarrow> host \<Rightarrow> (host \<times> unit result) option" where
  "stop answers after s = (case get_pid s of
      Inl e \<Rightarrow> Some (s, Inl e)
    | Inr pid \<Rightarrow>
        (if no_pid pid then Some (s\<lparr>pidfile := None\<rparr>, Inr ())
         else (case kill_loop answers 0 0 of
            None \<Rightarrow> None
          | Some (_, NoSuchProcess) \<Rightarrow> Some ((after s)\<lparr>pidfile := None\<rparr>, Inr ())
          | Some _ \<Rightarrow> Some (after s, Inl SystemExit))))"

definition restart ::
  "(nat \<Rightarrow> kill_answer) \<Rightarrow> (host \<Rightarrow> host) \<Rightarrow> int option \<Rightarrow> int option \<Rightarrow> host \<Rightarrow> (host \<times> started) option"
where
  "restart answers after fork1 fork2 s = (case stop answers after s of
      None \<Rightarrow> None
    | Some (s', Inl e) \<Rightarrow> Some (s', NotStarted e)
    | Some (s', Inr _) \<Rightarrow> Some (start fork1 fork2 s'))"

definition is_running :: "host \<Rightarrow> bool result" where
  "is_running s = bindE (get_pid s) (\<lambda>pid. Inr (\<not> no_pid pid \<and> the pid \<in> procs_alive s))"

section \<open>Lemmas\<close>

lemma kill_loop_first:
  assumes "answers m \<noteq> Delivered" "n \<le> m" "\<forall>k. n \<le> k \<and> k < m \<longrightarrow> answers k = Delivered"
  shows "kill_loop answers n i = Some (m, answers m)"
  using assms(2,3)
proof (induction "m - n" arbitrary: n i rule: less_induct)
  case less
  show ?case
  proof (cases "n = m")
    case True
    then show ?thesis using assms(1) by (simp add: kill_loop.simps)
  next
    case False
    then have n: "n < m" "answers n = Delivered" using less.prems by auto
    show ?thesis
    proof (cases "(i + 1) mod 10 = 0 \<and> n + 1 \<noteq> m")
      case True
      then have "answers (n + 1) = Delivered" "n + 2 \<le> m" using less.prems n by auto
      then show ?thesis using n True less.hyps[of "n + 2" "i + 1"] less.prems
        by (simp add: kill_loop.simps[of answers n])
    next
      case False
      then show ?thesis using n assms(1) less.hyps[of "n + 1" "i + 1"] less.prems
        by (auto simp: kill_loop.simps[of answers n])
    qed
  qed
qed

lemma kill_loop_returns: "kill_loop answers n i = Some r \<Longrightarrow> answers (fst r) = snd r \<and> snd r \<noteq> Delivered"
proof -
  assume r: "kill_loop answers n i = Some r"
  show ?thesis
    by (rule kill_loop.raw_induct[where P = "\<lambda>a n i r. a (fst r) = snd r \<and> snd r \<noteq> Delivered", OF _ r])
      (force split: if_splits)
qed

lemma int_str_chars: "\<forall>c \<in> set (int_str i). \<not> is_space c" "int_str i \<noteq> []"
  using nat_str_chars[of "nat i"] nat_str_chars[of "nat (- i)"]
  by (auto simp: int_str_def is_space_def)

lemma get_pid_written: "pidfile s = Some (int_str pid @ [CHR 0x0A]) \<Longrightarrow> get_pid s = Inr (Some pid)"
  using strip_newline[OF int_str_chars, of pid] by (simp add: get_pid_def int_of_int_str)

section \<open>Properties\<close>

text \<open>
  C34: a daemon's life. Started on a host without a pid file, the daemon is the process the file names: it is running, a
  second start is refused, whether or not forking would work, and changes nothing. When SIGTERM has ended it, the pid file is gone, and a
  new start works again.
\<close>

theorem daemon_life_cycle:
  assumes "pidfile s = None" "pid \<noteq> 0"
  shows "\<exists>s'. start (Some child) (Some pid) s = (s', Daemon pid) \<and> get_pid s' = Inr (Some pid) \<and>
    is_running s' = Inr True \<and> start fork1 fork2 s' = (s', NotStarted SystemExit) \<and>
    is_running (terminated pid s') = Inr False \<and>
    (\<exists>s''. start (Some child) (Some pid2) (terminated pid s') = (s'', Daemon pid2))"
proof -
  define s' where "s' = s\<lparr>pidfile := Some (int_str pid @ [CHR 0x0A]), procs_alive := insert pid (procs_alive s)\<rparr>"
  have gone: "get_pid s = Inr None" using assms(1) by (simp add: get_pid_def)
  have written: "get_pid s' = Inr (Some pid)" by (rule get_pid_written) (simp add: s'_def)
  have "start (Some child) (Some pid) s = (s', Daemon pid)"
    by (simp add: start_def gone daemonize_def s'_def)
  moreover have "pidfile (terminated pid s') = None" by (simp add: terminated_def delpid_def s'_def)
  then have ended: "get_pid (terminated pid s') = Inr None" by (simp add: get_pid_def)
  moreover have "is_running s' = Inr True" using written assms(2) by (simp add: is_running_def s'_def)
  ultimately show ?thesis using written assms(2)
    by (intro exI[of _ s']) (simp add: start_def ended is_running_def daemonize_def)
qed

theorem daemon_life_cycle_witness:
  "\<exists>s'. start (Some 41) (Some 42) \<lparr>pidfile = None, procs_alive = {1}\<rparr> = (s', Daemon 42) \<and>
     start (Some 43) (Some 44) s' = (s', NotStarted SystemExit)"
  using daemon_life_cycle[of "\<lparr>pidfile = None, procs_alive = {1}\<rparr>" 42 41 "Some 43" "Some 44"] by auto

text \<open>
  C35: when stopping ends. With a pid in the file, \<open>stop\<close> returns exactly if some call of \<open>kill\<close> is refused; if the first
  refusal says that the process is gone, the pid file is removed and \<open>stop\<close> succeeds, and any other refusal ends the
  program and leaves the file to whatever it was. A daemon that ignores the signals is signalled forever.
\<close>

theorem stop_terminates_iff_refused:
  assumes "get_pid s = Inr (Some pid)" "pid \<noteq> 0"
  shows "(stop answers after s \<noteq> None \<longleftrightarrow> (\<exists>n. answers n \<noteq> Delivered)) \<and>
    (\<forall>n. answers n \<noteq> Delivered \<and> (\<forall>k < n. answers k = Delivered) \<longrightarrow>
      stop answers after s = Some (if answers n = NoSuchProcess then ((after s)\<lparr>pidfile := None\<rparr>, Inr ())
                                   else (after s, Inl SystemExit)))"
proof -
  have first: "stop answers after s = Some (if answers n = NoSuchProcess then ((after s)\<lparr>pidfile := None\<rparr>, Inr ())
                                   else (after s, Inl SystemExit))"
    if "answers n \<noteq> Delivered" "\<forall>k < n. answers k = Delivered" for n
    using kill_loop_first[of answers n 0 0] that assms
    by (cases "answers n") (simp_all add: stop_def)
  have "\<exists>n. answers n \<noteq> Delivered" if "stop answers after s \<noteq> None"
  proof -
    have "kill_loop answers 0 0 \<noteq> None" using that assms by (cases "kill_loop answers 0 0") (auto simp: stop_def)
    then obtain r where "kill_loop answers 0 0 = Some r" by blast
    then show ?thesis using kill_loop_returns by metis
  qed
  moreover have "stop answers after s \<noteq> None" if "\<exists>n. answers n \<noteq> Delivered"
  proof -
    define n where "n = (LEAST n. answers n \<noteq> Delivered)"
    have "answers n \<noteq> Delivered" "\<forall>k < n. answers k = Delivered"
      unfolding n_def using LeastI_ex[OF that] not_less_Least by blast+
    then have "stop answers after s = Some (if answers n = NoSuchProcess then ((after s)\<lparr>pidfile := None\<rparr>, Inr ())
                                   else (after s, Inl SystemExit))" by (rule first)
    then show ?thesis by blast
  qed
  ultimately show ?thesis using first by blast
qed

definition running_host :: host where
  "running_host = \<lparr>pidfile = Some (int_str 42 @ [CHR 0x0A]), procs_alive = {42}\<rparr>"

theorem stop_terminates_iff_refused_witness:
  "stop (\<lambda>n. if n < 12 then Delivered else NoSuchProcess) (terminated 42) running_host =
     Some ((terminated 42 running_host)\<lparr>pidfile := None\<rparr>, Inr ()) \<and>
   stop (\<lambda>_. Delivered) (\<lambda>s. s) running_host = None"
proof -
  have pid: "get_pid running_host = Inr (Some 42)" by (rule get_pid_written) (simp add: running_host_def)
  have "stop answers after running_host = Some ((after running_host)\<lparr>pidfile := None\<rparr>, Inr ())"
    if "answers n = NoSuchProcess" "\<forall>k < n. answers k = Delivered" for answers after and n :: nat
    using conjunct2[OF stop_terminates_iff_refused[OF pid, of answers after], rule_format, of n] that by simp
  from this[of "\<lambda>n. if n < 12 then Delivered else NoSuchProcess" 12]
    stop_terminates_iff_refused[OF pid, of "\<lambda>_. Delivered" "\<lambda>s. s"]
  show ?thesis by (cases "stop (\<lambda>_. Delivered) (\<lambda>s. s) running_host") simp_all
qed

text \<open>
  An empty pid file stops everything. The change log says that the exception for an empty file is handled, but a
  file without a number (an empty one, say, left by a full disk) makes \<open>start\<close>, \<open>stop\<close>, \<open>restart\<close> and
  \<open>is_running\<close> raise \<open>ValueError\<close>, and none of them removes the file, so it stays that way.
\<close>

theorem bad_pid_file_is_permanent:
  assumes "pidfile s = Some text" "int_of_string (strip text) = Inl ValueError"
  shows "start fork1 fork2 s = (s, NotStarted ValueError) \<and> stop answers after s = Some (s, Inl ValueError) \<and>
    restart answers after fork1 fork2 s = Some (s, NotStarted ValueError) \<and> is_running s = Inl ValueError"
  using assms by (simp add: get_pid_def start_def stop_def restart_def is_running_def)

theorem bad_pid_file_is_permanent_witness:
  "stop (\<lambda>_. NoSuchProcess) (\<lambda>s. s) \<lparr>pidfile = Some [], procs_alive = {}\<rparr> =
     Some (\<lparr>pidfile = Some [], procs_alive = {}\<rparr>, Inl ValueError)"
  using bad_pid_file_is_permanent[of "\<lparr>pidfile = Some [], procs_alive = {}\<rparr>" "[]"]
  by (simp add: int_of_string_def strip_def)

end
