(* ===== verification/Watson_Thresholds.thy ===== *)
theory Watson_Thresholds
  imports Message_Handler
begin

text \<open>
  The northbound interface for thresholds: the routes \<open>/tennison/thresholds/...\<close> of
  \<open>coordinator/core/watson.py\<close> and the threshold file.

  The tables are the ones the message handlers use. A route returns its reply, a body with a
  status, or the exception that leaves it (which the web framework turns into an error page);
  what was changed before stays changed. The file holds the document that was last dumped.
\<close>

section \<open>State\<close>

datatype thr_kind = Ipfix | Snort

fun thr :: "thr_kind \<Rightarrow> store \<Rightarrow> table" where
  "thr Ipfix s = ipfix_thr s"
| "thr Snort s = snort_thr s"

fun set_thr :: "thr_kind \<Rightarrow> table \<Rightarrow> store \<Rightarrow> store" where
  "set_thr Ipfix t s = s\<lparr>ipfix_thr := t\<rparr>"
| "set_thr Snort t s = s\<lparr>snort_thr := t\<rparr>"

record nbi =
  nbi_store :: store
  nbi_file :: "pyval option"

datatype thr_body = Success | Failure string | Entries "(pyval \<times> pyval) list" | Entry pyval

type_synonym reply = "(thr_body \<times> int) result"

section \<open>Saving\<close>

text \<open>\<open>thresh['id'] = key\<close> on the deep copy.\<close>

fun with_id :: "pyval \<times> pyval \<Rightarrow> pyval result" where
  "with_id (k, PyDict d) = Inr (PyDict (dict_put ''id'' k d))"
| "with_id (k, v) = Inl TypeError"

definition entries :: "store \<Rightarrow> table \<Rightarrow> (pyval \<times> pyval) list" where
  "entries s t = map (\<lambda>(k, a). (k, heap s a)) t"

definition threshold_doc :: "store \<Rightarrow> pyval result" where
  "threshold_doc s =
     bindE (mapE with_id (entries s (ipfix_thr s))) (\<lambda>is.
     bindE (mapE with_id (entries s (snort_thr s))) (\<lambda>ss.
       Inr (PyDict [(''ipfix'', PyList is), (''snort'', PyList ss)])))"

text \<open>The argument tells whether \<open>/opt/mervyn/thresholds.yaml\<close> can be opened for writing.\<close>

definition threshold_to_file :: "bool \<Rightarrow> nbi \<Rightarrow> nbi \<times> unit result" where
  "threshold_to_file writable n =
     (case threshold_doc (nbi_store n) of
        Inl e \<Rightarrow> (n, Inl e)
      | Inr doc \<Rightarrow> (if writable then (n\<lparr>nbi_file := Some doc\<rparr>, Inr ()) else (n, Inl OSError)))"

definition saved_reply :: "bool \<Rightarrow> nbi \<Rightarrow> nbi \<times> reply" where
  "saved_reply writable n =
     (let (n', r) = threshold_to_file writable n in (n', bindE r (\<lambda>_. Inr (Success, 200))))"

section \<open>Queries\<close>

definition query_threshold :: "nbi \<Rightarrow> reply" where
  "query_threshold n =
     (let s = nbi_store n
      in Inr (Entries (foldl (\<lambda>d (k, v). dict_put k v d) []
           (entries s (ipfix_thr s) @ entries s (snort_thr s))), 200))"

definition query_kind :: "thr_kind \<Rightarrow> nbi \<Rightarrow> reply" where
  "query_kind k n = Inr (Entries (entries (nbi_store n) (thr k (nbi_store n))), 200)"

definition query_ipfix_threshold :: "nbi \<Rightarrow> reply" where
  "query_ipfix_threshold = query_kind Ipfix"

definition query_snort_threshold :: "nbi \<Rightarrow> reply" where
  "query_snort_threshold = query_kind Snort"

definition query_single :: "thr_kind \<Rightarrow> string \<Rightarrow> nbi \<Rightarrow> reply" where
  "query_single k i n =
     (case map_of (thr k (nbi_store n)) (PyStr i) of
        None \<Rightarrow> Inr (Failure ''threshold not found'', 404)
      | Some a \<Rightarrow> Inr (Entry (heap (nbi_store n) a), 200))"

definition query_ipfix_threshold_single :: "string \<Rightarrow> nbi \<Rightarrow> reply" where
  "query_ipfix_threshold_single = query_single Ipfix"

definition query_snort_threshold_single :: "string \<Rightarrow> nbi \<Rightarrow> reply" where
  "query_snort_threshold_single = query_single Snort"

section \<open>Changes\<close>

text \<open>\<open>request.headers['Content-Type']\<close> raises when the header is missing.\<close>

definition add_threshold ::
  "thr_kind \<Rightarrow> string list \<Rightarrow> bool \<Rightarrow> string \<Rightarrow> http_body \<Rightarrow> nbi \<Rightarrow> nbi \<times> reply"
where
  "add_threshold k required writable i req n =
     (if has_key (thr k (nbi_store n)) (PyStr i) then (n, Inr (Failure ''threshold exists'', 400))
      else (case content_type req of
          None \<Rightarrow> (n, Inl KeyError)
        | Some ct \<Rightarrow>
            (if ct = ''application/json'' then
               (case bindE (json_body req) (\<lambda>v. bindE (all_in required v) (\<lambda>b. Inr (v, b))) of
                  Inl e \<Rightarrow> (n, Inl e)
                | Inr (v, False) \<Rightarrow> (n, Inr (Failure ''missing value'', 400))
                | Inr (v, True) \<Rightarrow>
                    (let (a, s') = alloc v (nbi_store n)
                     in saved_reply writable
                          (n\<lparr>nbi_store := set_thr k (dict_put (PyStr i) a (thr k s')) s'\<rparr>)))
             else (n, Inr (Failure ''no data'', 400)))))"

definition add_ipfix_threshold :: "bool \<Rightarrow> string \<Rightarrow> http_body \<Rightarrow> nbi \<Rightarrow> nbi \<times> reply" where
  "add_ipfix_threshold = add_threshold Ipfix [''fields'', ''subtype'', ''treatment'', ''priority'']"

definition add_snort_threshold :: "bool \<Rightarrow> string \<Rightarrow> http_body \<Rightarrow> nbi \<Rightarrow> nbi \<times> reply" where
  "add_snort_threshold = add_threshold Snort [''rule'', ''treatment'', ''priority'']"

text \<open>The loop that writes each item of the body into the shared object.\<close>

fun assign_items :: "pydict \<Rightarrow> pyval \<Rightarrow> pyval result" where
  "assign_items [] v = Inr v"
| "assign_items ((k, x) # kxs) (PyDict d) = assign_items kxs (PyDict (dict_put k x d))"
| "assign_items (kx # kxs) v = Inl TypeError"

definition update_threshold ::
  "thr_kind \<Rightarrow> bool \<Rightarrow> string \<Rightarrow> http_body \<Rightarrow> nbi \<Rightarrow> nbi \<times> reply"
where
  "update_threshold k writable i req n =
     (case map_of (thr k (nbi_store n)) (PyStr i) of
        None \<Rightarrow> (n, Inr (Failure ''threshold not found'', 404))
      | Some a \<Rightarrow>
          (case content_type req of
             None \<Rightarrow> (n, Inl KeyError)
           | Some ct \<Rightarrow>
               (if ct = ''application/json'' then
                  (case bindE (bindE (json_body req) py_items) (\<lambda>kxs. assign_items kxs (heap (nbi_store n) a)) of
                     Inl e \<Rightarrow> (n, Inl e)
                   | Inr v \<Rightarrow> saved_reply writable (n\<lparr>nbi_store := heap_set a v (nbi_store n)\<rparr>))
                else (n, Inr (Failure ''no data'', 400)))))"

definition update_ipfix_threshold :: "bool \<Rightarrow> string \<Rightarrow> http_body \<Rightarrow> nbi \<Rightarrow> nbi \<times> reply" where
  "update_ipfix_threshold = update_threshold Ipfix"

definition update_snort_threshold :: "bool \<Rightarrow> string \<Rightarrow> http_body \<Rightarrow> nbi \<Rightarrow> nbi \<times> reply" where
  "update_snort_threshold = update_threshold Snort"

definition remove_ipfix_threshold :: "bool \<Rightarrow> string \<Rightarrow> nbi \<Rightarrow> nbi \<times> reply" where
  "remove_ipfix_threshold writable i n =
     (let s = nbi_store n in
      if \<not> has_key (ipfix_thr s) (PyStr i) then (n, Inr (Failure ''threshold not found'', 404))
      else saved_reply writable (n\<lparr>nbi_store := s\<lparr>ipfix_thr := dict_del (PyStr i) (ipfix_thr s)\<rparr>\<rparr>))"

definition remove_snort_threshold :: "string \<Rightarrow> nbi \<Rightarrow> nbi \<times> reply" where
  "remove_snort_threshold i n =
     (let s = nbi_store n in
      if \<not> has_key (snort_thr s) (PyStr i) then (n, Inr (Failure ''threshold not found'', 404))
      else (n\<lparr>nbi_store := s\<lparr>snort_thr := dict_del (PyStr i) (snort_thr s)\<rparr>\<rparr>, Inr (Success, 200)))"

section \<open>Lemmas\<close>

lemma thr_set [simp]:
  "thr k (set_thr k t s) = t" "heap (set_thr k t s) = heap s" "next_addr (set_thr k t s) = next_addr s"
  "j \<noteq> k \<Longrightarrow> thr j (set_thr k t s) = thr j s"
  by (cases k; cases j; simp)+

lemma thr_alloc [simp]: "thr k (snd (alloc v s)) = thr k s"
  by (cases k) simp_all

lemma wf_thr: "wf_store s \<Longrightarrow> wf_table (next_addr s) (thr k s)"
  by (cases k) (simp_all add: wf_store_def)

lemma entry_allocated: "wf_store s \<Longrightarrow> map_of (thr k s) i = Some a \<Longrightarrow> a < next_addr s"
  using wf_thr[of s k] by (fastforce simp: wf_table_def dest: map_of_SomeD)

text \<open>A store whose thresholds are all dictionaries can be dumped.\<close>

definition dict_entries :: "store \<Rightarrow> table \<Rightarrow> bool" where
  "dict_entries s t \<longleftrightarrow> (\<forall>p \<in> set t. \<exists>d. heap s (snd p) = PyDict d)"

definition dumpable :: "store \<Rightarrow> bool" where
  "dumpable s \<longleftrightarrow> dict_entries s (ipfix_thr s) \<and> dict_entries s (snort_thr s)"

definition put_id :: "pyval \<times> pyval \<Rightarrow> pyval" where
  "put_id p = py_set_item (snd p) ''id'' (fst p)"

lemma with_id_entries:
  assumes "dict_entries s t"
  shows "mapE with_id (entries s t) = Inr (map put_id (entries s t))"
proof (rule mapE_Inr)
  fix p assume "p \<in> set (entries s t)"
  then obtain k a where "p = (k, heap s a)" "(k, a) \<in> set t" by (auto simp: entries_def)
  moreover then obtain d where "heap s a = PyDict d" using assms by (fastforce simp: dict_entries_def)
  ultimately show "with_id p = Inr (put_id p)" by (simp add: put_id_def)
qed

lemma threshold_doc_dumpable:
  "dumpable s \<Longrightarrow> threshold_doc s = Inr (PyDict
     [(''ipfix'', PyList (map put_id (entries s (ipfix_thr s)))),
      (''snort'', PyList (map put_id (entries s (snort_thr s))))])"
  by (simp add: threshold_doc_def dumpable_def with_id_entries)

lemma saved_reply_ok:
  "dumpable (nbi_store n) \<Longrightarrow> \<exists>f. saved_reply True n = (n\<lparr>nbi_file := Some f\<rparr>, Inr (Success, 200))"
  by (auto simp: saved_reply_def threshold_to_file_def threshold_doc_dumpable)

lemma saved_reply_new:
  "dumpable s \<Longrightarrow> \<exists>f. saved_reply True (n\<lparr>nbi_store := s\<rparr>) = (n\<lparr>nbi_store := s, nbi_file := Some f\<rparr>, Inr (Success, 200))"
  using saved_reply_ok[of "n\<lparr>nbi_store := s\<rparr>"] by simp

lemma saved_reply_store [simp]: "nbi_store (fst (saved_reply wr n)) = nbi_store n"
  by (auto simp: saved_reply_def threshold_to_file_def Let_def split: sum.split)

lemma dict_put_values: "snd ` set (dict_put k a t) \<subseteq> insert a (snd ` set t)"
  by (induction t) auto

lemma dict_entries_put:
  assumes "dict_entries s t" "wf_table (next_addr s) t"
  shows "dict_entries (snd (alloc (PyDict d) s)) (dict_put k (next_addr s) t)"
proof -
  have "\<exists>d'. heap (snd (alloc (PyDict d) s)) a = PyDict d'" if "a \<in> insert (next_addr s) (snd ` set t)" for a
    using that assms by (auto simp: dict_entries_def wf_table_def)
  then show ?thesis using dict_put_values[of k "next_addr s" t] by (fastforce simp: dict_entries_def)
qed

lemma dict_entries_alloc:
  "dict_entries s t \<Longrightarrow> wf_table (next_addr s) t \<Longrightarrow> dict_entries (snd (alloc v s)) t"
  by (fastforce simp: dict_entries_def wf_table_def)

lemma dict_entries_del: "dict_entries s t \<Longrightarrow> dict_entries s (dict_del k t)"
  by (auto simp: dict_entries_def AList.delete_eq)

lemma dict_entries_cong: "heap s = heap s' \<Longrightarrow> dict_entries s t = dict_entries s' t"
  by (simp add: dict_entries_def)

section \<open>Properties: the routes\<close>


definition demo_body :: pydict where
  "demo_body = [(''fields'', PyDict [(''destinationTransportPort'', PyInt 22)]), (''subtype'', PyStr ''prefix''),
     (''treatment'', PyStr ''block''), (''priority'', PyInt 10)]"


section \<open>Properties: the file\<close>

lemma hash_put: "put_id (k, PyDict d) = PyDict (dict_put ''id'' k d)"
  by (simp add: put_id_def)

text \<open>What loading does to a saved entry: the id is taken out again.\<close>

fun strip_id :: "pyval \<Rightarrow> pyval" where
  "strip_id (PyDict d) = PyDict (dict_del ''id'' d)"
| "strip_id v = v"

lemma extract_entry_saved:
  assumes "hash_key k = Inr h"
  shows "extract_entry prefix ti (put_id (k, PyDict d)) = Inr (k, strip_id (PyDict d))"
  using assms by (simp add: hash_put AList.delete_update_same)

lemma dict_put_fresh: "k \<notin> fst ` set t \<Longrightarrow> dict_put k a t = t @ [(k, a)]"
  by (induction t) auto

lemma extract_loop_saved:
  assumes "\<forall>p \<in> set kvs. (\<exists>d. snd p = PyDict d) \<and> (\<exists>h. hash_key (fst p) = Inr h)"
    and "distinct (map fst kvs)" "fst ` set kvs \<inter> fst ` set t = {}"
  shows "\<exists>s'. extract_loop prefix ti (map put_id kvs) s t =
      Inr (s', t @ zip (map fst kvs) [next_addr s ..< next_addr s + length kvs]) \<and>
    next_addr s' = next_addr s + length kvs \<and> (\<forall>a < next_addr s. heap s' a = heap s a) \<and>
    (\<forall>i < length kvs. heap s' (next_addr s + i) = strip_id (snd (kvs ! i))) \<and>
    ipfix_thr s' = ipfix_thr s \<and> snort_thr s' = snort_thr s"
  using assms
proof (induction kvs arbitrary: ti s t)
  case (Cons p kvs)
  obtain k d h where p: "p = (k, PyDict d)" "hash_key k = Inr h"
    using Cons.prems(1) by (cases p) auto
  let ?s1 = "snd (alloc (strip_id (PyDict d)) s)"
  have fresh: "dict_put k (next_addr s) t = t @ [(k, next_addr s)]"
    using Cons.prems(3) p by (intro dict_put_fresh) auto
  obtain s' where s': "extract_loop prefix (Suc ti) (map put_id kvs) ?s1 (t @ [(k, next_addr s)]) =
      Inr (s', (t @ [(k, next_addr s)]) @ zip (map fst kvs) [next_addr ?s1 ..< next_addr ?s1 + length kvs])"
    "next_addr s' = next_addr ?s1 + length kvs" "\<forall>a < next_addr ?s1. heap s' a = heap ?s1 a"
    "\<forall>i < length kvs. heap s' (next_addr ?s1 + i) = strip_id (snd (kvs ! i))"
    "ipfix_thr s' = ipfix_thr ?s1" "snort_thr s' = snort_thr ?s1"
    using Cons.IH[where s = ?s1 and t = "t @ [(k, next_addr s)]" and ti = "Suc ti"] Cons.prems p by auto
  have ext: "extract_loop prefix ti (map put_id (p # kvs)) s t =
      Inr (s', t @ zip (map fst (p # kvs)) [next_addr s ..< next_addr s + length (p # kvs)])"
    using s'(1) extract_entry_saved[OF p(2), of prefix ti d]
    by (simp add: p(1) fresh alloc_def upt_conv_Cons del: extract_entry.simps strip_id.simps upt_Suc)
  have "heap s' (next_addr s + i) = strip_id (snd ((p # kvs) ! i))" if "i < length (p # kvs)" for i
  proof (cases i)
    case 0
    then show ?thesis using s'(3) p(1) by simp
  next
    case (Suc j)
    then show ?thesis using s'(4) that by simp
  qed
  moreover have "\<forall>a < next_addr s. heap s' a = heap s a" using s'(3) by simp
  ultimately show ?case using ext s'(2,5,6) by (intro exI[of _ s']) simp
qed simp

lemma zip_lookup:
  "distinct ks \<Longrightarrow> i < length ks \<Longrightarrow> map_of (zip ks [n ..< n + length ks]) (ks ! i) = Some (n + i)"
  by (subst map_of_zip_nth) simp_all

lemma table_nth: "wf_dict t \<Longrightarrow> map_of t k = Some a \<Longrightarrow> \<exists>i < length t. t ! i = (k, a)"
  by (metis in_set_conv_nth map_of_SomeD)

lemma reload_saved:
  assumes "wf_store s" "dumpable s" "threshold_doc s = Inr doc"
    and "\<forall>k \<in> fst ` (set (ipfix_thr s) \<union> set (snort_thr s)). \<exists>h. hash_key k = Inr h"
  shows "\<exists>s'. setup_thresholds doc = Inr s' \<and> (\<forall>kind. map fst (thr kind s') = map fst (thr kind s) \<and>
    (\<forall>k a. map_of (thr kind s) k = Some a \<longrightarrow>
       (\<exists>a'. map_of (thr kind s') k = Some a' \<and> heap s' a' = strip_id (heap s a))))"
proof -
  let ?es = "entries s"
  have fst_entries: "map fst (?es t) = map fst t" and len: "length (?es t) = length t" for t
    by (simp_all add: entries_def comp_def case_prod_beta)
  have nth: "i < length t \<Longrightarrow> ?es t ! i = (fst (t ! i), heap s (snd (t ! i)))" for t i
    by (simp add: entries_def case_prod_beta)
  have pre: "\<forall>p \<in> set (?es (thr kind s)). (\<exists>d. snd p = PyDict d) \<and> (\<exists>h. hash_key (fst p) = Inr h)" for kind
  proof
    fix p assume "p \<in> set (?es (thr kind s))"
    then obtain k a where p: "p = (k, heap s a)" "(k, a) \<in> set (thr kind s)" by (auto simp: entries_def)
    then have "(k, a) \<in> set (ipfix_thr s) \<union> set (snort_thr s)" "dict_entries s (thr kind s)"
      using assms(2) by (cases kind; simp add: dumpable_def)+
    then show "(\<exists>d. snd p = PyDict d) \<and> (\<exists>h. hash_key (fst p) = Inr h)"
      using assms(4) p by (metis dict_entries_def fst_conv imageI snd_conv)
  qed
  have dist: "distinct (map fst (thr kind s))" for kind
    using wf_thr[OF assms(1)] by (simp add: wf_table_def)
  let ?t1 = "ipfix_thr s" and ?t2 = "snort_thr s"
  obtain s1 where s1: "extract_ipfix_thresholds (map put_id (?es ?t1)) empty_store =
      Inr (s1, zip (map fst ?t1) [0 ..< 0 + length ?t1])" "next_addr s1 = length ?t1"
    "\<forall>i < length ?t1. heap s1 (0 + i) = strip_id (snd (?es ?t1 ! i))"
    using extract_loop_saved[of "?es ?t1" "[]" "''default_ipfix_''" 0 empty_store] pre[of Ipfix] dist[of Ipfix]
    by (auto simp: extract_ipfix_thresholds_def fst_entries len empty_store_def)
  obtain s2 where s2: "extract_snort_thresholds (map put_id (?es ?t2)) s1 =
      Inr (s2, zip (map fst ?t2) [length ?t1 ..< length ?t1 + length ?t2])"
    "\<forall>a < length ?t1. heap s2 a = heap s1 a"
    "\<forall>i < length ?t2. heap s2 (length ?t1 + i) = strip_id (snd (?es ?t2 ! i))"
    using extract_loop_saved[of "?es ?t2" "[]" "''default_snort_''" 0 s1] pre[of Snort] dist[of Snort] s1(2)
    by (auto simp: extract_snort_thresholds_def fst_entries len)
  let ?s' = "s2\<lparr>ipfix_thr := zip (map fst ?t1) [0 ..< 0 + length ?t1],
    snort_thr := zip (map fst ?t2) [length ?t1 ..< length ?t1 + length ?t2]\<rparr>"
  have load: "setup_thresholds doc = Inr ?s'"
    using assms(3) by (simp add: threshold_doc_dumpable[OF assms(2)] setup_thresholds_def)
      (auto simp: setup_thresholds_def s1(1) s2(1))
  define base where "base kind = (case kind of Ipfix \<Rightarrow> 0 | Snort \<Rightarrow> length ?t1)" for kind
  have tab: "thr kind ?s' = zip (map fst (thr kind s)) [base kind ..< base kind + length (thr kind s)]" for kind
    by (cases kind) (simp_all add: base_def)
  have val: "heap ?s' (base kind + i) = strip_id (heap s (snd (thr kind s ! i)))" if "i < length (thr kind s)" for kind i
    using that s1(3) s2(2,3) by (cases kind) (simp_all add: base_def nth)
  have "\<exists>a'. map_of (thr kind ?s') k = Some a' \<and> heap ?s' a' = strip_id (heap s a)"
    if k: "map_of (thr kind s) k = Some a" for kind k a
  proof -
    obtain i where i: "i < length (thr kind s)" "thr kind s ! i = (k, a)"
      using table_nth[OF dist k] by blast
    have "map_of (thr kind ?s') k = Some (base kind + i)"
      using zip_lookup[of "map fst (thr kind s)" i "base kind"] dist[of kind] i unfolding tab by simp
    then show ?thesis using val[OF i(1)] i(2) by simp
  qed
  moreover have "map fst (thr kind ?s') = map fst (thr kind s)" for kind
    unfolding tab by simp
  ultimately show ?thesis using load by blast
qed

text \<open>
  C8: what is saved is what is loaded. Dumping a store whose thresholds are dictionaries with hashable
  ids and loading the file again gives tables with the same ids in the same order; every threshold has
  its old value but for a field \<open>id\<close> of its own, which is lost.
\<close>

theorem save_load_round_trip:
  assumes "wf_store s" "dumpable s" "threshold_doc s = Inr doc"
    and "\<forall>k \<in> fst ` (set (ipfix_thr s) \<union> set (snort_thr s)). \<exists>h. hash_key k = Inr h"
  shows "\<exists>s'. setup_thresholds doc = Inr s' \<and> (\<forall>kind. map fst (thr kind s') = map fst (thr kind s) \<and>
    (\<forall>k a. map_of (thr kind s) k = Some a \<longrightarrow>
       (\<exists>a'. map_of (thr kind s') k = Some a' \<and> heap s' a' = strip_id (heap s a))))"
  by (rule reload_saved[OF assms])

theorem save_load_round_trip_witness:
  "\<exists>doc s' a'. threshold_doc demo_store = Inr doc \<and> setup_thresholds doc = Inr s' \<and>
     map_of (ipfix_thr s') (PyStr ''b'') = Some a' \<and> heap s' a' = demo_threshold 40 ''snort_mirror''"
proof -
  have wf: "wf_store demo_store" by (simp add: wf_store_def wf_table_def demo_store_def)
  have dump: "dumpable demo_store" by (simp add: dumpable_def dict_entries_def demo_store_def demo_threshold_def)
  obtain doc where doc: "threshold_doc demo_store = Inr doc"
    using threshold_doc_dumpable[OF dump] by blast
  have "\<forall>k \<in> fst ` (set (ipfix_thr demo_store) \<union> set (snort_thr demo_store)). \<exists>h. hash_key k = Inr h"
    by (simp add: demo_store_def)
  from save_load_round_trip[OF wf dump doc this] obtain s' where s': "setup_thresholds doc = Inr s'"
    "\<And>k a. map_of (thr Ipfix demo_store) k = Some a \<Longrightarrow>
      \<exists>a'. map_of (thr Ipfix s') k = Some a' \<and> heap s' a' = strip_id (heap demo_store a)" by blast
  have "map_of (thr Ipfix demo_store) (PyStr ''b'') = Some 1" by (simp add: demo_store_def)
  from s'(2)[OF this] s'(1) doc show ?thesis by (simp add: demo_heap demo_threshold_def)
qed

text \<open>The routes that change thresholds, as one step function.\<close>

datatype nbi_request =
    AddThr thr_kind string http_body
  | UpdateThr thr_kind string http_body
  | RemoveThr thr_kind string

fun nbi_handle :: "bool \<Rightarrow> nbi_request \<Rightarrow> nbi \<Rightarrow> nbi \<times> reply" where
  "nbi_handle wr (AddThr Ipfix i req) n = add_ipfix_threshold wr i req n"
| "nbi_handle wr (AddThr Snort i req) n = add_snort_threshold wr i req n"
| "nbi_handle wr (UpdateThr Ipfix i req) n = update_ipfix_threshold wr i req n"
| "nbi_handle wr (UpdateThr Snort i req) n = update_snort_threshold wr i req n"
| "nbi_handle wr (RemoveThr Ipfix i) n = remove_ipfix_threshold wr i n"
| "nbi_handle wr (RemoveThr Snort i) n = remove_snort_threshold i n"

lemma disjoint_mono: "A \<subseteq> B \<Longrightarrow> B \<inter> C = {} \<Longrightarrow> A \<inter> C = {}"
  by blast

lemma disjoint_insert: "A \<subseteq> insert x B \<Longrightarrow> x \<notin> C \<Longrightarrow> B \<inter> C = {} \<Longrightarrow> A \<inter> C = {}"
  by blast

lemma wf_store_add: "wf_store s \<Longrightarrow> wf_store (set_thr k (dict_put i (next_addr s) (thr k s)) (snd (alloc v s)))"
proof -
  assume wf: "wf_store s"
  have "next_addr s \<notin> snd ` set (thr j s)" for j
    using wf_thr[OF wf, of j] by (fastforce simp: wf_table_def)
  note fresh = this[of Ipfix] this[of Snort]
  have "wf_table (Suc (next_addr s)) (dict_put i (next_addr s) (thr k s))"
    using wf_table_put[OF wf_thr[OF wf]] by blast
  moreover have "wf_table (Suc (next_addr s)) (thr j s)" for j
    using wf_thr[OF wf, of j] wf_table_mono by (metis le_SucI order_refl)
  note this[of Ipfix] this[of Snort]
  ultimately show ?thesis
    using wf fresh disjoint_insert[OF table_values_put[of i "next_addr s" "ipfix_thr s"], of "snd ` set (snort_thr s)"]
      disjoint_insert[OF table_values_put[of i "next_addr s" "snort_thr s"], of "snd ` set (ipfix_thr s)"]
    by (cases k) (simp_all add: wf_store_def Int_commute)
qed

lemma wf_store_remove:
  "wf_store s \<Longrightarrow> wf_store (s\<lparr>ipfix_thr := dict_del i (ipfix_thr s)\<rparr>)"
  "wf_store s \<Longrightarrow> wf_store (s\<lparr>snort_thr := dict_del i (snort_thr s)\<rparr>)"
  using disjoint_mono[OF table_values_del[of i "ipfix_thr s"], of "snd ` set (snort_thr s)"]
    disjoint_mono[OF table_values_del[of i "snort_thr s"], of "snd ` set (ipfix_thr s)"]
  by (simp_all add: wf_store_def wf_table_del Int_commute)

lemma add_threshold_store:
  "nbi_store (fst (add_threshold k required wr i req n)) \<in>
    {nbi_store n} \<union> {set_thr k (dict_put (PyStr i) (next_addr (nbi_store n)) (thr k (nbi_store n)))
       (snd (alloc v (nbi_store n))) | v. True}"
  by (auto simp: add_threshold_def case_prod_beta Let_def split: option.split sum.split bool.split)

lemma update_threshold_store:
  "nbi_store (fst (update_threshold k wr i req n)) \<in> {nbi_store n} \<union> {heap_set a v (nbi_store n) | a v. True}"
  by (auto simp: update_threshold_def split: option.split sum.split)

lemma nbi_handle_wf: "wf_store (nbi_store n) \<Longrightarrow> wf_store (nbi_store (fst (nbi_handle wr r n)))"
proof -
  assume wf: "wf_store (nbi_store n)"
  have add: "wf_store (nbi_store (fst (add_threshold k required wr i req n)))" for k required i req
    using add_threshold_store[of k required wr i req n] wf wf_store_add[OF wf] by auto
  have upd: "wf_store (nbi_store (fst (update_threshold k wr i req n)))" for k i req
    using update_threshold_store[of k wr i req n] wf by auto
  show ?thesis
    by (cases "(wr, r, n)" rule: nbi_handle.cases)
      (simp_all add: add_ipfix_threshold_def add_snort_threshold_def update_ipfix_threshold_def
        update_snort_threshold_def remove_ipfix_threshold_def remove_snort_threshold_def Let_def
        add upd wf wf_store_remove)
qed

interpretation nbi: invariant_machine "\<lambda>n (wr, r). fst (nbi_handle wr r n)" "\<lambda>n. wf_store (nbi_store n)"
  by unfold_locales (auto intro: nbi_handle_wf)

lemma saved_reply_success:
  "saved_reply wr n = (n', Inr (Success, c)) \<Longrightarrow>
    \<exists>doc. threshold_doc (nbi_store n') = Inr doc \<and> nbi_file n' = Some doc"
  by (auto simp: saved_reply_def threshold_to_file_def split: sum.splits if_splits)

text \<open>
  C22: a change that is reported as done is in the file, with one exception. After any sequence of
  requests the tables stay consistent (unique ids, every id with an object of its own); and
  when a request to add, update or remove answers success, the file holds the present thresholds,
  unless the request removed a snort threshold: then the file is what it was before.
\<close>

theorem changes_are_persistent:
  assumes "wf_store (nbi_store n0)" "n = foldl (\<lambda>n (wr, r). fst (nbi_handle wr r n)) n0 requests"
    and "nbi_handle wr r n = (n', Inr (Success, c))"
  shows "wf_store (nbi_store n') \<and>
    (case r of
       RemoveThr Snort i \<Rightarrow> nbi_file n' = nbi_file n \<and> \<not> has_key (snort_thr (nbi_store n')) (PyStr i)
     | _ \<Rightarrow> (\<exists>doc. threshold_doc (nbi_store n') = Inr doc \<and> nbi_file n' = Some doc))"
proof -
  have "wf_store (nbi_store n)" using nbi.run_inv[of n0 requests] assms(1,2) by simp
  then have wf: "wf_store (nbi_store n')" using nbi_handle_wf[of n wr r] assms(3) by simp
  have add: "\<exists>doc. threshold_doc (nbi_store n') = Inr doc \<and> nbi_file n' = Some doc"
    if "add_threshold k required wr i req n = (n', Inr (Success, c))" for k required i req
    using that
    by (auto simp: add_threshold_def case_prod_beta Let_def intro: saved_reply_success
        split: option.splits sum.splits bool.splits if_splits)
  have upd: "\<exists>doc. threshold_doc (nbi_store n') = Inr doc \<and> nbi_file n' = Some doc"
    if "update_threshold k wr i req n = (n', Inr (Success, c))" for k i req
    using that
    by (auto simp: update_threshold_def intro: saved_reply_success split: option.splits sum.splits if_splits)
  have rem: "\<exists>doc. threshold_doc (nbi_store n') = Inr doc \<and> nbi_file n' = Some doc"
    if "remove_ipfix_threshold wr i n = (n', Inr (Success, c))" for i
    using that by (auto simp: remove_ipfix_threshold_def Let_def intro: saved_reply_success split: if_splits)
  show ?thesis using wf assms(3) add upd rem
    by (cases "(wr, r, n)" rule: nbi_handle.cases)
      (auto simp: add_ipfix_threshold_def add_snort_threshold_def update_ipfix_threshold_def
        update_snort_threshold_def remove_snort_threshold_def Let_def split: if_splits)
qed

theorem changes_are_persistent_witness:
  "\<exists>n'. nbi_handle True (RemoveThr Snort ''t'')
      \<lparr>nbi_store = empty_store\<lparr>next_addr := 1, snort_thr := [(PyStr ''t'', 0)]\<rparr>, nbi_file = Some PyNone\<rparr> =
      (n', Inr (Success, 200)) \<and> nbi_file n' = Some PyNone \<and> snort_thr (nbi_store n') = []"
proof -
  let ?n = "\<lparr>nbi_store = empty_store\<lparr>next_addr := 1, snort_thr := [(PyStr ''t'', 0)]\<rparr>, nbi_file = Some PyNone\<rparr>"
  let ?n' = "?n\<lparr>nbi_store := (nbi_store ?n)\<lparr>snort_thr := []\<rparr>\<rparr>"
  have wf: "wf_store (nbi_store ?n)" by (simp add: wf_store_def wf_table_def empty_store_def)
  have step: "nbi_handle True (RemoveThr Snort ''t'') ?n = (?n', Inr (Success, 200))"
    by (simp add: remove_snort_threshold_def)
  from changes_are_persistent[OF wf _ step, of "[]"] step show ?thesis by simp
qed

end
