(* ===== verification/Watson_Apps.thy ===== *)
theory Watson_Apps
  imports Py_Base
begin

text \<open>
  The northbound interface for applications: the routes \<open>/tennison/app/...\<close>,
  \<open>/tennison/ipfix/query\<close>, \<open>/tennison/snort/query\<close> and \<open>/tennison/sflowrt/query\<close> of
  \<open>coordinator/core/watson.py\<close>, its start and its end.

  The registry maps applications to the times of their last queries, the process table to the
  processes started for them. The clock readings a route makes, the files below \<open>apps/\<close> and
  the alerts collection are arguments.
\<close>

section \<open>State\<close>

record watson =
  applications :: "(string \<times> pydict) list"
  app_procs :: "(string \<times> nat) list"
  alive :: "bool list"

definition watson_new :: watson where
  "watson_new = \<lparr>applications = [], app_procs = [], alive = []\<rparr>"

text \<open>
  What the directory of an application holds: the configuration file, if there is one, with the
  outcome of reading it as JSON, and the log file.
\<close>

record app_dir =
  config_file :: "pyval result option"
  log_file :: "string option"

datatype app_body =
    AppOk
  | AppPid nat
  | AppError string
  | AppList "(string \<times> pydict) list"
  | AppJson pyval
  | AppLog string
  | Records "(string \<times> pydict) list"

type_synonym app_reply = "(app_body \<times> int) result"

section \<open>Processes\<close>

definition popen :: "string \<Rightarrow> watson \<Rightarrow> nat \<times> watson" where
  "popen app s = (length (alive s),
     s\<lparr>alive := alive s @ [True], app_procs := dict_put app (length (alive s)) (app_procs s)\<rparr>)"

text \<open>\<open>run\<close>: the default applications, up to the first configuration file that cannot be read.\<close>

fun start_defaults :: "(string \<times> app_dir) list \<Rightarrow> watson \<Rightarrow> watson \<times> unit result" where
  "start_defaults [] s = (s, Inr ())"
| "start_defaults ((app, dir) # apps) s =
     (case config_file dir of
        None \<Rightarrow> start_defaults apps s
      | Some config \<Rightarrow>
          (case bindE config (\<lambda>c. bindE (py_in ''default_app'' c) (\<lambda>b.
                if b then bindE (py_item c ''default_app'') (\<lambda>v. Inr (py_eq v (PyBool True)))
                else Inr False)) of
             Inl e \<Rightarrow> (s, Inl e)
           | Inr True \<Rightarrow> start_defaults apps (snd (popen app s))
           | Inr False \<Rightarrow> start_defaults apps s))"

definition start_app :: "(string \<times> app_dir) list \<Rightarrow> string \<Rightarrow> watson \<Rightarrow> watson \<times> app_reply" where
  "start_app installed app s =
     (if \<not> has_key installed app then (s, Inr (AppError ''app not installed'', 400))
      else if has_key (app_procs s) app then (s, Inr (AppError ''already running'', 400))
      else (let (pid, s') = popen app s in (s', Inr (AppPid pid, 200))))"

definition kill :: "nat \<Rightarrow> watson \<Rightarrow> watson" where
  "kill pid s = s\<lparr>alive := (alive s)[pid := False]\<rparr>"

definition stop_app :: "string \<Rightarrow> watson \<Rightarrow> watson \<times> app_reply" where
  "stop_app app s =
     (case map_of (app_procs s) app of
        None \<Rightarrow> (s, Inr (AppError ''app not running'', 400))
      | Some pid \<Rightarrow> ((kill pid s)\<lparr>app_procs := dict_del app (app_procs s)\<rparr>, Inr (AppOk, 200)))"

definition watson_close :: "watson \<Rightarrow> watson" where
  "watson_close s = foldl (\<lambda>s p. kill (snd p) s) s (app_procs s)"

section \<open>The registry\<close>

definition register_app :: "string \<Rightarrow> int \<times> int \<times> int \<Rightarrow> watson \<Rightarrow> watson \<times> app_reply" where
  "register_app app now s =
     (case now of (t1, t2, t3) \<Rightarrow>
       (s\<lparr>applications := dict_put app [(''last_query_ipfix'', PyTime t1), (''last_query_snort'', PyTime t2),
            (''last_sflowrt_query'', PyTime t3)] (applications s)\<rparr>, Inr (AppOk, 200)))"

text \<open>The dictionary a query route creates for an application it does not know.\<close>

definition ensure_registered :: "string \<Rightarrow> int \<times> int \<times> int \<Rightarrow> watson \<Rightarrow> watson" where
  "ensure_registered app now s =
     (if has_key (applications s) app then s
      else (case now of (t1, t2, t3) \<Rightarrow>
        s\<lparr>applications := dict_put app [(''last_query_ipfix'', PyTime t1), (''last_query_snort'', PyTime t2),
            (''last_query_sflowrt'', PyTime t3)] (applications s)\<rparr>))"

text \<open>\<open>query_app\<close>: the answer for the installed applications; \<open>log\<close> is not defined in the function.\<close>

fun installed_status :: "(string \<times> app_dir) list \<Rightarrow> watson \<Rightarrow> (string \<times> pydict) list result" where
  "installed_status [] s = Inr []"
| "installed_status ((app, dir) # apps) s =
     (let st = [(''status'', PyStr (if has_key (app_procs s) app then ''active'' else ''not_active''))];
          st' = (case map_of (applications s) app of
                   None \<Rightarrow> st | Some d \<Rightarrow> foldl (\<lambda>st (k, v). dict_put k v st) st d)
      in (case config_file dir of
            Some (Inr c) \<Rightarrow> bindE (installed_status apps s) (\<lambda>rest. Inr ((app, dict_put ''config'' c st') # rest))
          | _ \<Rightarrow> Inl NameError))"

definition mark_not_installed :: "(string \<times> app_dir) list \<Rightarrow> (string \<times> pydict) list \<Rightarrow> (string \<times> pydict) list" where
  "mark_not_installed installed apps =
     map (\<lambda>(app, d). (app, if has_key installed app then d else dict_put ''status'' (PyStr ''not_installed'') d)) apps"

definition query_app :: "(string \<times> app_dir) list \<Rightarrow> watson \<Rightarrow> watson \<times> app_reply" where
  "query_app installed s =
     (case installed_status installed s of
        Inl e \<Rightarrow> (s, Inl e)
      | Inr resp \<Rightarrow>
          (let apps = mark_not_installed installed (applications s)
           in (s\<lparr>applications := apps\<rparr>,
               Inr (AppList (resp @ filter (\<lambda>p. \<not> has_key installed (fst p)) apps), 200))))"

definition query_app_config :: "(string \<times> app_dir) list \<Rightarrow> string \<Rightarrow> app_reply" where
  "query_app_config installed app =
     (case map_of installed app of
        None \<Rightarrow> Inr (AppError ''app not installed'', 400)
      | Some dir \<Rightarrow>
          (case config_file dir of
             None \<Rightarrow> Inr (AppError ''no config file'', 400)
           | Some config \<Rightarrow> bindE config (\<lambda>c. Inr (AppJson c, 200))))"

text \<open>The argument \<open>tail\<close> is the external program that prints the last twenty lines.\<close>

definition query_app_log ::
  "(string \<Rightarrow> string result) \<Rightarrow> (string \<times> app_dir) list \<Rightarrow> string \<Rightarrow> app_reply"
where
  "query_app_log tail installed app =
     (case map_of installed app of
        None \<Rightarrow> Inr (AppError ''app not installed'', 400)
      | Some dir \<Rightarrow>
          (case log_file dir of
             None \<Rightarrow> Inr (AppError ''no log file'', 400)
           | Some l \<Rightarrow> bindE (tail l) (\<lambda>t. Inr (AppLog t, 200))))"

section \<open>Queries\<close>

text \<open>The database query: type and time of a stored alert.\<close>

definition newer :: "string \<Rightarrow> pyval \<Rightarrow> pydict \<Rightarrow> bool" where
  "newer typ since item =
     (map_of item ''type'' = Some (PyStr typ) \<and>
      (case (map_of item ''time'', since) of (Some (PyTime t), PyTime l) \<Rightarrow> t > l | _ \<Rightarrow> False))"

definition alert_id :: "(pyval \<Rightarrow> string) \<Rightarrow> pydict \<Rightarrow> string" where
  "alert_id repr_of item = (case map_of item ''_id'' of None \<Rightarrow> [] | Some v \<Rightarrow> py_str repr_of v)"

text \<open>
  The body shared by the three query routes: \<open>now\<close> are the readings for a new registration,
  \<open>alerts\<close> is the collection at the time of the find, \<open>finished\<close> the reading after it.
\<close>

definition collect_records ::
  "(pyval \<Rightarrow> string) \<Rightarrow> string \<Rightarrow> string \<Rightarrow> string list \<Rightarrow> string \<Rightarrow> int \<times> int \<times> int \<Rightarrow> pydict list \<Rightarrow> int
    \<Rightarrow> watson \<Rightarrow> watson \<times> (string \<times> pydict) list result"
where
  "collect_records repr_of typ key hidden app now alerts finished s =
     (let s1 = ensure_registered app now s;
          d = (case map_of (applications s1) app of None \<Rightarrow> [] | Some d \<Rightarrow> d)
      in (case map_of d key of
            None \<Rightarrow> (s1, Inl KeyError)
          | Some since \<Rightarrow>
              (s1\<lparr>applications := dict_put app (dict_put key (PyTime finished) d) (applications s1)\<rparr>,
               Inr (foldl (\<lambda>data item. dict_put (alert_id repr_of item) (filter (\<lambda>p. fst p \<notin> set hidden) item) data)
                      [] (filter (newer typ since) alerts)))))"

definition query_ipfix ::
  "(pyval \<Rightarrow> string) \<Rightarrow> string \<Rightarrow> int \<times> int \<times> int \<Rightarrow> pydict list \<Rightarrow> int \<Rightarrow> watson \<Rightarrow> watson \<times> app_reply"
where
  "query_ipfix repr_of app now alerts finished s =
     (let (s', r) = collect_records repr_of ''ipfix'' ''last_query_ipfix'' [''_id''] app now alerts finished s
      in (s', bindE r (\<lambda>data. Inr (Records data, 200))))"

definition query_snort ::
  "(pyval \<Rightarrow> string) \<Rightarrow> string \<Rightarrow> int \<times> int \<times> int \<Rightarrow> pydict list \<Rightarrow> int \<Rightarrow> watson \<Rightarrow> watson \<times> app_reply"
where
  "query_snort repr_of app now alerts finished s =
     (let (s', r) = collect_records repr_of ''snort'' ''last_query_snort'' [''_id''] app now alerts finished s
      in (s', bindE r (\<lambda>data. Inr (Records data, 200))))"

definition query_sflow ::
  "(pyval \<Rightarrow> string) \<Rightarrow> string \<Rightarrow> int \<times> int \<times> int \<Rightarrow> pydict list \<Rightarrow> int \<Rightarrow> watson \<Rightarrow> watson \<times> app_reply"
where
  "query_sflow repr_of app now alerts finished s =
     (let (s', r) = collect_records repr_of ''sflowrt'' ''last_query_sflowrt'' [''_id'', ''pkt''] app now alerts finished s
      in (s', bindE r (\<lambda>data. Inr (Records [], 200))))"

section \<open>Processes and the process table\<close>

datatype app_event = StartApp string | StopApp string | Dies nat

fun app_step :: "(string \<times> app_dir) list \<Rightarrow> watson \<Rightarrow> app_event \<Rightarrow> watson" where
  "app_step installed s (StartApp app) = fst (start_app installed app s)"
| "app_step installed s (StopApp app) = fst (stop_app app s)"
| "app_step installed s (Dies pid) = kill pid s"

definition living :: "watson \<Rightarrow> nat set" where
  "living s = {p. p < length (alive s) \<and> alive s ! p}"

definition procs_ok :: "watson \<Rightarrow> bool" where
  "procs_ok s \<longleftrightarrow> wf_dict (app_procs s) \<and> distinct (map snd (app_procs s)) \<and>
     (\<forall>p \<in> set (app_procs s). snd p < length (alive s)) \<and> living s \<subseteq> snd ` set (app_procs s)"

lemma living_kill: "living (kill pid s) = living s - {pid}"
proof -
  have "(alive s)[pid := False] ! p = (alive s ! p \<and> p \<noteq> pid)" if "p < length (alive s)" for p
    using that by (cases "p = pid") simp_all
  then show ?thesis by (auto simp: living_def kill_def)
qed

lemma kill_simps [simp]: "app_procs (kill pid s) = app_procs s" "length (alive (kill pid s)) = length (alive s)"
  "applications (kill pid s) = applications s"
  by (simp_all add: kill_def)

lemma values_del:
  assumes "wf_dict t" "map_of t k = Some v" "distinct (map snd t)"
  shows "snd ` set (dict_del k t) = snd ` set t - {v}"
  using assms
proof (induction t)
  case (Cons p t)
  show ?case
  proof (cases "fst p = k")
    case True
    then have "v = snd p" "dict_del k (p # t) = t"
      using Cons.prems(1,2) by (auto simp: AList.delete_eq filter_id_conv image_iff split: if_splits)
    then show ?thesis using Cons.prems(3) by auto
  next
    case False
    then have v: "map_of t k = Some v" using Cons.prems(2) by (cases p) auto
    then have "v \<in> snd ` set t" by (force dest: map_of_SomeD)
    moreover have "snd p \<notin> snd ` set t" using Cons.prems(3) by simp
    ultimately have "v \<noteq> snd p" by blast
    moreover have "dict_del k (p # t) = p # dict_del k t" using False by (cases p) simp
    ultimately show ?thesis using Cons.IH Cons.prems v by auto
  qed
qed simp

lemma values_put_fresh: "\<not> has_key t k \<Longrightarrow> dict_put k v t = t @ [(k, v)]"
  by (induction t) (auto simp: has_key_def)

lemma app_step_ok: "procs_ok s \<Longrightarrow> procs_ok (app_step installed s e)"
proof (cases e)
  case (StartApp app)
  assume ok: "procs_ok s"
  show ?thesis
  proof (cases "has_key installed app \<and> \<not> has_key (app_procs s) app")
    case True
    then have "app_step installed s e = s\<lparr>alive := alive s @ [True], app_procs := app_procs s @ [(app, length (alive s))]\<rparr>"
      by (simp add: StartApp start_app_def popen_def values_put_fresh)
    moreover have "app \<notin> fst ` set (app_procs s)" using True by (simp add: has_key_iff)
    moreover have "length (alive s) \<notin> snd ` set (app_procs s)" using ok by (auto simp: procs_ok_def)
    ultimately show ?thesis using ok
      by (auto simp: procs_ok_def living_def nth_append less_Suc_eq)
  next
    case False
    then have "app_step installed s e = s" by (auto simp: StartApp start_app_def)
    then show ?thesis using ok by simp
  qed
next
  case (StopApp app)
  assume ok: "procs_ok s"
  show ?thesis
  proof (cases "map_of (app_procs s) app")
    case (Some pid)
    have vals: "snd ` set (dict_del app (app_procs s)) = snd ` set (app_procs s) - {pid}"
      using values_del[OF _ Some] ok by (simp add: procs_ok_def)
    have "living ((kill pid s)\<lparr>app_procs := dict_del app (app_procs s)\<rparr>) = living s - {pid}"
      using living_kill[of pid s] by (simp add: living_def)
    then show ?thesis using ok Some vals
      by (auto simp: StopApp stop_app_def procs_ok_def AList.delete_eq distinct_map_filter)
  qed (use ok in \<open>simp add: StopApp stop_app_def\<close>)
next
  case (Dies pid)
  assume "procs_ok s"
  then show ?thesis using living_kill[of pid s] by (auto simp: Dies procs_ok_def)
qed

interpretation app_table: invariant_machine "app_step installed" procs_ok for installed
  by unfold_locales (rule app_step_ok)

section \<open>Properties\<close>


definition demo_installed :: "(string \<times> app_dir) list" where
  "demo_installed = [(''ddos'', \<lparr>config_file = Some (Inr (PyDict [])), log_file = None\<rparr>)]"


text \<open>The time of an application's last IPFIX query.\<close>

definition last_ipfix :: "string \<Rightarrow> watson \<Rightarrow> int option" where
  "last_ipfix app s =
     (case map_of (applications s) app of
        None \<Rightarrow> None
      | Some d \<Rightarrow> (case map_of d ''last_query_ipfix'' of Some (PyTime t) \<Rightarrow> Some t | _ \<Rightarrow> None))"

lemma has_last: "last_ipfix app s = Some t \<Longrightarrow>
    \<exists>d. map_of (applications s) app = Some d \<and> map_of d ''last_query_ipfix'' = Some (PyTime t)"
  by (auto simp: last_ipfix_def split: option.splits pyval.splits)

lemma query_ipfix_known:
  assumes "last_ipfix app s = Some t"
  shows "\<exists>s'. query_ipfix repr_of app now alerts finished s =
      (s', Inr (Records (foldl (\<lambda>data item. dict_put (alert_id repr_of item) (filter (\<lambda>p. fst p \<noteq> ''_id'') item) data)
         [] (filter (newer ''ipfix'' (PyTime t)) alerts)), 200)) \<and> last_ipfix app s' = Some finished"
proof -
  obtain d where d: "map_of (applications s) app = Some d" "map_of d ''last_query_ipfix'' = Some (PyTime t)"
    using has_last[OF assms] by blast
  show ?thesis
    by (auto simp: query_ipfix_def collect_records_def ensure_registered_def has_key_def d last_ipfix_def Let_def)
qed

lemma fold_put_keys:
  "fst ` set (foldl (\<lambda>data item. dict_put (f item) (g item) data) data items) = fst ` set data \<union> f ` set items"
proof (induction items arbitrary: data)
  case (Cons x items)
  have "fst ` set (dict_put (f x) (g x) data) = insert (f x) (fst ` set data)"
    by (simp add: AList.dom_update)
  with Cons show ?case by auto
qed simp

definition record_ids :: "app_reply \<Rightarrow> string set" where
  "record_ids r = (case r of Inr (Records data, _) \<Rightarrow> fst ` set data | _ \<Rightarrow> {})"

lemma newer_iff: "newer typ (PyTime l) item \<longleftrightarrow> map_of item ''type'' = Some (PyStr typ) \<and>
    (\<exists>u > l. map_of item ''time'' = Some (PyTime u))"
proof (cases "map_of item ''time''")
  case (Some v)
  then show ?thesis by (cases v) (auto simp: newer_def)
qed (simp add: newer_def)


definition demo_record :: "string \<Rightarrow> int \<Rightarrow> pydict" where
  "demo_record i t = [(''_id'', PyStr i), (''type'', PyStr ''ipfix''), (''time'', PyTime t)]"

definition demo_watson :: watson where
  "demo_watson = watson_new\<lparr>applications := [(''ddos'', [(''last_query_ipfix'', PyTime 10)])]\<rparr>"


text \<open>
  Registering breaks sFlow queries. The registration route stores the time of the last sFlow query
  under another key than the query reads: after it the query raises \<open>KeyError\<close>, while an unregistered
  application gets an answer; that answer has no records, whatever is stored.
\<close>

theorem sflow_query_after_registration:
  "snd (query_sflow repr_of app now alerts finished (fst (register_app app now' s))) = Inl KeyError \<and>
   (\<not> has_key (applications s) app \<longrightarrow>
      snd (query_sflow repr_of app now alerts finished s) = Inr (Records [], 200))"
  by (cases now; cases now')
    (simp add: query_sflow_def collect_records_def ensure_registered_def register_app_def case_prod_beta Let_def)

theorem sflow_query_after_registration_witness:
  "snd (query_sflow (\<lambda>_. []) ''ddos'' (0, 0, 0) [] 5 watson_new) = Inr (Records [], 200)"
  using sflow_query_after_registration[of "\<lambda>_. []" "''ddos''" "(0, 0, 0)" "[]" 5 "(0, 0, 0)" watson_new]
  by (simp add: watson_new_def)

text \<open>
  One directory without a readable configuration makes the application list fail. The handler that
  should log the problem uses an undefined name, so the route raises \<open>NameError\<close>; when all are
  readable it answers, naming each installed application active exactly when it has a process, unless the
  registry itself holds a status.
\<close>

theorem app_list_needs_every_config:
  assumes "\<forall>p \<in> set (applications s). \<not> has_key (snd p) ''status'' \<and> \<not> has_key (snd p) ''config''"
  shows "case query_app installed s of
      (s', Inl e) \<Rightarrow> e = NameError \<and> (\<exists>p \<in> set installed. \<nexists>c. config_file (snd p) = Some (Inr c))
    | (s', Inr (AppList resp, c)) \<Rightarrow> c = 200 \<and> (\<forall>p \<in> set installed. \<exists>v. config_file (snd p) = Some (Inr v)) \<and>
        (\<forall>(app, dir) \<in> set installed. \<exists>d. (app, d) \<in> set resp \<and>
           map_of d ''status'' = Some (PyStr (if has_key (app_procs s) app then ''active'' else ''not_active'')))
    | _ \<Rightarrow> False"
proof -
  have upd: "map_of (foldl (\<lambda>st (k, v). dict_put k v st) st d) key = map_of st key" if "\<not> has_key d key" for st d key
    using that by (induction d arbitrary: st) auto
  have reg: "\<not> has_key d ''status''" if "map_of (applications s) app = Some d" for app d
    using assms map_of_SomeD[OF that] by fastforce
  have "case installed_status installed s of
      Inl e \<Rightarrow> e = NameError \<and> (\<exists>p \<in> set installed. \<nexists>c. config_file (snd p) = Some (Inr c))
    | Inr resp \<Rightarrow> (\<forall>p \<in> set installed. \<exists>v. config_file (snd p) = Some (Inr v)) \<and>
        (\<forall>(app, dir) \<in> set installed. \<exists>d. (app, d) \<in> set resp \<and>
           map_of d ''status'' = Some (PyStr (if has_key (app_procs s) app then ''active'' else ''not_active'')))"
  proof (induction installed)
    case (Cons p installed)
    obtain app dir where p: "p = (app, dir)" by (cases p)
    define st where "st = [(''status'', PyStr (if has_key (app_procs s) app then ''active'' else ''not_active''))]"
    define st' where "st' = (case map_of (applications s) app of
        None \<Rightarrow> st | Some d \<Rightarrow> foldl (\<lambda>st (k, v). dict_put k v st) st d)"
    have status: "map_of (dict_put ''config'' c st') ''status'' =
        Some (PyStr (if has_key (app_procs s) app then ''active'' else ''not_active''))" for c
      using upd[OF reg] by (simp add: st'_def st_def split: option.split)
    show ?case
    proof (cases "\<exists>c. config_file dir = Some (Inr c)")
      case True
      then obtain c where c: "config_file dir = Some (Inr c)" by blast
      have "installed_status (p # installed) s =
          bindE (installed_status installed s) (\<lambda>rest. Inr ((app, dict_put ''config'' c st') # rest))"
        by (simp only: p installed_status.simps c Let_def st'_def st_def option.case sum.case)
      then show ?thesis using Cons status[of c] c
        by (cases "installed_status installed s") (auto simp: p)
    next
      case False
      then have "installed_status (p # installed) s = Inl NameError"
        unfolding p installed_status.simps Let_def by (auto split: option.split sum.split)
      then show ?thesis using False by (simp add: p)
    qed
  qed simp
  note st = this
  show ?thesis
  proof (cases "installed_status installed s")
    case (Inl e)
    then show ?thesis using st by (simp add: query_app_def)
  next
    case (Inr resp)
    let ?apps = "mark_not_installed installed (applications s)"
    have "query_app installed s = (s\<lparr>applications := ?apps\<rparr>,
        Inr (AppList (resp @ filter (\<lambda>p. \<not> has_key installed (fst p)) ?apps), 200))"
      by (simp add: query_app_def Inr Let_def)
    then show ?thesis using st Inr by simp blast
  qed
qed

theorem app_list_needs_every_config_witness:
  "\<exists>s'. query_app [(''gui'', \<lparr>config_file = None, log_file = None\<rparr>)] watson_new = (s', Inl NameError)"
proof -
  have "\<forall>p \<in> set (applications watson_new). \<not> has_key (snd p) ''status'' \<and> \<not> has_key (snd p) ''config''"
    by (simp add: watson_new_def)
  note main = app_list_needs_every_config[OF this, of "[(''gui'', \<lparr>config_file = None, log_file = None\<rparr>)]"]
  obtain s' r where q: "query_app [(''gui'', \<lparr>config_file = None, log_file = None\<rparr>)] watson_new = (s', r)" by fastforce
  show ?thesis
  proof (cases r)
    case (Inl e)
    then show ?thesis using main q by simp
  next
    case (Inr bc)
    obtain b c where "bc = (b, c)" by (cases bc)
    then show ?thesis using main q Inr by (cases b) simp_all
  qed
qed

end
