(* ===== verification/Coordinator.thy ===== *)
theory Coordinator
  imports Message_Policies
begin

text \<open>
  The central process: \<open>coordinator/tennison.py\<close> and the polling thread
  \<open>coordinator/core/interfixpoll.py\<close>.

  The coordinator receives the messages of the collectors one at a time, stores each in the alerts
  collection and hands it to the message handler. The database is outside: the argument \<open>ins\<close>
  gives the message after the call (the driver adds an \<open>_id\<close>) and the exception it raises, if any.
\<close>

section \<open>The listen loop\<close>

record coord =
  c_store :: store
  c_ipfix :: ipfix
  c_alerts :: "pydict list"
  c_sent :: "http_req list"

type_synonym database = "pydict list \<Rightarrow> pydict \<Rightarrow> pydict \<times> unit result"

text \<open>The two \<open>except\<close> clauses; both print the type of the message.\<close>

definition recover :: "pydict \<Rightarrow> exn \<Rightarrow> unit result" where
  "recover msg e =
     (if e = PyMongoError \<or> e = OverflowError
      then bindE (py_item (PyDict msg) ''type'') (\<lambda>_. Inr ()) else Inl e)"

definition coord_message ::
  "world \<Rightarrow> database \<Rightarrow> int \<Rightarrow> int \<Rightarrow> pydict \<Rightarrow> coord \<Rightarrow> coord \<times> unit result"
where
  "coord_message w ins now1 now2 msg c =
     (case ins (c_alerts c) msg of
        (msg', Inl e) \<Rightarrow> (c, recover msg' e)
      | (msg', Inr _) \<Rightarrow>
          (let (s', i', reqs, r) = handle_message w now1 now2 msg' (c_store c) (c_ipfix c);
               c' = c\<lparr>c_alerts := c_alerts c @ [msg'], c_store := s', c_ipfix := i',
                      c_sent := c_sent c @ reqs\<rparr>
           in (c', case r of Inr _ \<Rightarrow> Inr () | Inl e \<Rightarrow> recover msg' e)))"

text \<open>
  The loop over the messages that arrive, each with the clock readings of its handling. A normal
  result means that the loop waits for the next message.
\<close>

fun listen :: "world \<Rightarrow> database \<Rightarrow> (int \<times> int \<times> pydict) list \<Rightarrow> coord \<Rightarrow> coord \<times> unit result" where
  "listen w ins [] c = (c, Inr ())"
| "listen w ins ((now1, now2, msg) # ms) c =
     (case coord_message w ins now1 now2 msg c of
        (c', Inl e) \<Rightarrow> (c', Inl e)
      | (c', Inr _) \<Rightarrow> listen w ins ms c')"

lemma listen_append:
  "listen w ins (ms @ ms') c =
    (case listen w ins ms c of (c', Inl e) \<Rightarrow> (c', Inl e) | (c', Inr _) \<Rightarrow> listen w ins ms' c')"
proof (induction ms arbitrary: c)
  case (Cons m ms)
  obtain n1 n2 msg where m: "m = (n1, n2, msg)" by (cases m) auto
  show ?case by (auto simp: m Cons.IH split: prod.split sum.split)
qed simp

section \<open>Collectors\<close>

datatype collector =
    IPFIXCollector pyval pyval
  | SnortCollector pyval
  | SFlowRTCollector pyval

text \<open>
  \<open>_collector_helper\<close>. The argument \<open>bind\<close> tells whether the UDP server can bind its port. For an
  unknown type the variable still holds the dictionary, which has no \<open>setDaemon\<close>.
\<close>

definition collector_helper :: "(pyval \<Rightarrow> unit result) \<Rightarrow> pydict \<Rightarrow> pydict \<Rightarrow> collector result" where
  "collector_helper bind config c =
     bindE (py_item (PyDict config) ''ipc_path'') (\<lambda>_.
     bindE (py_item (PyDict c) ''type'') (\<lambda>t.
       if py_eq t (PyStr ''ipfix'') then
         bindE (py_item (PyDict c) ''port'') (\<lambda>p.
         bindE (bind p) (\<lambda>_.
         bindE (py_item (PyDict c) ''subtype'') (\<lambda>st. Inr (IPFIXCollector p st))))
       else if py_eq t (PyStr ''snort'') then
         bindE (py_item (PyDict c) ''port'') (\<lambda>p. Inr (SnortCollector p))
       else if py_eq t (PyStr ''sflowrt'') then
         bindE (py_item (PyDict c) ''port'') (\<lambda>p. Inr (SFlowRTCollector p))
       else Inl AttributeError))"

definition new_controller :: "pydict \<Rightarrow> string \<Rightarrow> pyval \<Rightarrow> pydict result" where
  "new_controller config typ c =
     bindE (py_item c ''port'') (\<lambda>p.
     bindE (if has_key config ''key'' \<and> has_key config ''cert'' then
              bindE (py_item (PyDict config) ''key'') (\<lambda>k.
              bindE (py_item (PyDict config) ''cert'') (\<lambda>ct. Inr [(''key'', k), (''cert'', ct)]))
            else Inr []) (\<lambda>tls.
     bindE (py_in ''subtype'' c) (\<lambda>b.
     bindE (if b then bindE (py_item c ''subtype'') (\<lambda>st. Inr [(''subtype'', st)]) else Inr []) (\<lambda>sub.
       Inr ([(''port'', p), (''type'', PyStr typ)] @ tls @ sub)))))"

text \<open>The nested loop, as a loop over the pairs it visits; what was started before an exception stays.\<close>

fun start_collectors ::
  "(pyval \<Rightarrow> unit result) \<Rightarrow> pydict \<Rightarrow> (string \<times> pyval) list \<Rightarrow> collector list \<times> unit result"
where
  "start_collectors bind config [] = ([], Inr ())"
| "start_collectors bind config ((t, c) # rest) =
     (case bindE (new_controller config t c) (collector_helper bind config) of
        Inl e \<Rightarrow> ([], Inl e)
      | Inr col \<Rightarrow> (let (cols, r) = start_collectors bind config rest in (col # cols, r)))"

fun visit_collectors :: "pydict \<Rightarrow> (string \<times> pyval) list \<times> unit result" where
  "visit_collectors [] = ([], Inr ())"
| "visit_collectors ((t, v) # rest) =
     (case py_iter v of
        Inl e \<Rightarrow> ([], Inl e)
      | Inr cs \<Rightarrow> (let (ps, r) = visit_collectors rest in (map (\<lambda>c. (t, c)) cs @ ps, r)))"

definition setup_collectors :: "(pyval \<Rightarrow> unit result) \<Rightarrow> pydict \<Rightarrow> collector list \<times> unit result" where
  "setup_collectors bind config =
     (case bindE (py_item (PyDict config) ''collectors'') py_items of
        Inl e \<Rightarrow> ([], Inl e)
      | Inr types \<Rightarrow>
          (let (ps, r) = visit_collectors types; (cols, r') = start_collectors bind config ps
           in (cols, bindE r' (\<lambda>_. r))))"

section \<open>Start and end of the process\<close>

text \<open>\<open>RPC.__init__\<close>; the uris are used as strings later.\<close>

definition rpc_init :: "pyval \<Rightarrow> rpc result" where
  "rpc_init config =
     bindE (bindE (py_item config ''snort_uris'') py_seq) (\<lambda>us.
     bindE (mapE as_str us) (\<lambda>uris.
     bindE (bindE (bindE (py_item config ''onos'') (\<lambda>onos. py_item onos ''uri'')) as_str) (\<lambda>uri.
       Inr \<lparr>snort_uris = uris, onos_uri = uri\<rparr>)))"

fun py_int :: "pyval \<Rightarrow> int result" where
  "py_int (PyInt i) = Inr i"
| "py_int (PyBool b) = Inr (if b then 1 else 0)"
| "py_int (PyFloat q) = Inr (if q < 0 then - \<lfloor>- q\<rfloor> else \<lfloor>q\<rfloor>)"
| "py_int (PyStr s) = int_of_string s"
| "py_int _ = Inl TypeError"

definition connect_to_database :: "(pyval \<Rightarrow> pyval \<Rightarrow> int \<Rightarrow> unit result) \<Rightarrow> pyval \<Rightarrow> unit result" where
  "connect_to_database mongo config =
     bindE (py_item config ''mongodb'') (\<lambda>m.
     bindE (py_item m ''uri'') (\<lambda>uri.
     bindE (py_item m ''database'') (\<lambda>db.
     bindE (bindE (py_item m ''ttl'') py_int) (\<lambda>ttl. mongo uri db ttl))))"

record interfix =
  poll_onos :: string
  poll_frequency :: pyval
  poll_running :: bool

definition interfix_init :: "pyval \<Rightarrow> interfix result" where
  "interfix_init config =
     bindE (bindE (py_item config ''uri'') as_str) (\<lambda>uri.
     bindE (py_item config ''interfix_frequency'') (\<lambda>f.
       Inr \<lparr>poll_onos = uri, poll_frequency = f, poll_running = True\<rparr>))"

definition tennison_init ::
  "(pyval \<Rightarrow> unit result) \<Rightarrow> (pyval \<Rightarrow> pyval \<Rightarrow> int \<Rightarrow> unit result) \<Rightarrow> pydict \<Rightarrow> pyval
    \<Rightarrow> (coord \<times> rpc \<times> collector list \<times> interfix) result"
where
  "tennison_init bind mongo config thresholds =
     bindE (setup_thresholds thresholds) (\<lambda>s.
     bindE (rpc_init (PyDict config)) (\<lambda>rpc.
     bindE ((case create_initial_masks s (ipfix_thr s) ipfix_empty of (i, r) \<Rightarrow> bindE r (\<lambda>_. Inr i))) (\<lambda>i.
     bindE (py_item (PyDict config) ''ipc_path'') (\<lambda>_.
     bindE (connect_to_database mongo (PyDict config)) (\<lambda>_.
     bindE ((case setup_collectors bind config of (cols, r) \<Rightarrow> bindE r (\<lambda>_. Inr cols))) (\<lambda>cols.
     bindE (bindE (py_item (PyDict config) ''onos'') interfix_init) (\<lambda>ip.
     bindE (py_item (PyDict config) ''watson'') (\<lambda>wc.
     bindE (py_item wc ''port'') (\<lambda>_.
     bindE (py_item wc ''address'') (\<lambda>_.
       Inr (\<lparr>c_store = s, c_ipfix = i, c_alerts = [], c_sent = []\<rparr>, rpc, cols, ip)))))))))))"

text \<open>
  \<open>_close\<close>: the things shut down, in order, before the process exits; the processes started by
  the northbound interface are terminated by its \<open>close\<close>.
\<close>

datatype closed = ZmqContext | MongoClient | Collector collector | AppProc string | Interfix

definition coordinator_close :: "collector list \<Rightarrow> string list \<Rightarrow> interfix \<Rightarrow> closed list \<times> interfix \<times> unit result" where
  "coordinator_close cols procs ip =
     ([ZmqContext, MongoClient] @ map Collector cols @ map AppProc procs @ [Interfix],
      ip\<lparr>poll_running := False\<rparr>, Inl SystemExit)"

section \<open>Interfix polling\<close>

text \<open>
  The thread: each round tests the flag, sends a request and sleeps; an exception of the request ends it.
  The rounds give the answer of the network and the flag after the round. Result: the requests
  sent, and whether the thread is still alive.
\<close>

fun interfix_run :: "interfix \<Rightarrow> (int result \<times> bool) list \<Rightarrow> http_req list \<times> bool" where
  "interfix_run ip [] = ([], True)"
| "interfix_run ip ((answer, go) # rounds) =
     (if \<not> poll_running ip then ([], False)
      else (let req = HttpGet (''http://'' @ poll_onos ip @ ''/mervyn/ipfix/query'')
            in (case answer of
                  Inl _ \<Rightarrow> ([req], False)
                | Inr _ \<Rightarrow> (let (reqs, alive) = interfix_run (ip\<lparr>poll_running := go\<rparr>) rounds
                             in (req # reqs, alive)))))"

section \<open>Lemmas\<close>

lemma listen_run:
  "listen w ins ms c = (c1, Inr ()) \<Longrightarrow> listen w ins (ms @ ms') c = listen w ins ms' c1"
  by (simp add: listen_append)

lemma coord_message_stored:
  "coord_message w ins n1 n2 msg c = (c', r) \<Longrightarrow>
    c_alerts c' = c_alerts c @ (case ins (c_alerts c) msg of (msg', Inr _) \<Rightarrow> [msg'] | _ \<Rightarrow> []) \<and>
    (\<forall>msg' e. ins (c_alerts c) msg = (msg', Inl e) \<longrightarrow> c' = c)"
  by (auto simp: coord_message_def Let_def split: prod.splits sum.splits)

lemma start_collectors_map:
  assumes "\<forall>(t, c) \<in> set ps. bindE (new_controller config t c) (collector_helper bind config) = Inr (f (t, c))"
  shows "start_collectors bind config ps = (map f ps, Inr ())"
  using assms
proof (induction ps)
  case (Cons p ps)
  then show ?case by (cases p) simp
qed simp

lemma start_collectors_stops:
  assumes "\<forall>(t, c) \<in> set ps. bindE (new_controller config t c) (collector_helper bind config) = Inr (f (t, c))"
    and "bindE (new_controller config t c) (collector_helper bind config) = Inl e"
  shows "start_collectors bind config (ps @ (t, c) # rest) = (map f ps, Inl e)"
  using assms
proof (induction ps)
  case (Cons p ps)
  then show ?case by (cases p) simp
qed simp

section \<open>Properties\<close>


text \<open>An insertion that stores every message with a fresh id.\<close>

definition demo_insert :: database where
  "demo_insert alerts msg = (dict_put ''_id'' (PyInt (int (length alerts))) msg, Inr ())"

definition icmp_coord :: coord where
  "icmp_coord = \<lparr>c_store = icmp_store, c_ipfix = icmp_ipfix, c_alerts = [], c_sent = []\<rparr>"

lemma sctp_inserted:
  "demo_insert [] sctp_message = (sctp_message @ [(''_id'', PyInt 0)], Inr ())"
  by (simp add: demo_insert_def sctp_message_def)

lemma sctp_ends_coordinator:
  "\<exists>c2. coord_message demo_world demo_insert 0 0 sctp_message icmp_coord = (c2, Inl KeyError)"
proof -
  let ?m = "sctp_message @ [(''_id'', PyInt 0)]"
  have load: "reload_masks icmp_store icmp_ipfix = (icmp_ipfix, Inr ())"
    by (simp add: reload_masks_def table_eq_def icmp_ipfix_def icmp_store_def)
  obtain i2 stats where rf: "record_flow 0 0 ?m icmp_ipfix = (i2, Inr stats)" "masks i2 = masks icmp_ipfix"
    by (simp add: record_flow_def icmp_ipfix_def ipfix_empty_def sctp_message_def flow_of_def update_totals_def
        stat_num_def average_stats_def)
  have rec: "recognised ?m" by (simp add: recognised_def sctp_message_def)
  have ty: "py_item (PyDict ?m) ''type'' = Inr (PyStr ''ipfix'')" by (simp add: sctp_message_def)
  have "find_mask_match demo_world icmp_store i2 ?m = Inl KeyError"
    by (simp add: find_mask_match_def rf(2) icmp_ipfix_def mask_applies_def sctp_message_def state_matches_def
        test_match_similarity_def icmp_store_def test_field_def test_protocol_def lookup_protocol_def
        protocol_identifiers_def)
  then have dec: "ipfix_decide demo_world icmp_store i2 ?m stats = (icmp_store, [], Inl KeyError)"
    by (simp add: ipfix_decide_def)
  have h: "handle_message demo_world 0 0 ?m icmp_store icmp_ipfix = (icmp_store, i2, [], Inl KeyError)"
    using rec by (simp add: handle_message_def ty ipfix_handle_def load rf(1) dec del: py_item.simps)
  show ?thesis
    by (simp add: coord_message_def icmp_coord_def sctp_inserted h recover_def)
qed


lemma apply_treatment_length: "length (fst (snd (apply_treatment w s a own payload))) \<le> 1"
  using apply_treatment_at_most_one by (cases "apply_treatment w s a own payload") auto

lemma snort_handle_at_most_one: "length (fst (snd (snort_handle w s msg))) \<le> 1"
proof -
  have "length (fst (snd (case create_treatment_fields s a pkt of
      (s', Inl e) \<Rightarrow> (s', [], Inl e) | (s', Inr (own, payload)) \<Rightarrow> apply_treatment w s' a own payload))) \<le> 1" for a pkt
    using apply_treatment_length by (auto split: prod.split sum.split)
  then show ?thesis by (auto simp: snort_handle_def split: sum.split option.split)
qed

lemma sflow_handle_at_most_one: "length (fst (sflow_handle w msg)) \<le> 1"
  using treatment_apply_at_most_one
  by (auto simp: sflow_handle_def Let_def split: sum.split prod.split)

lemma ipfix_handle_at_most_one: "length (fst (snd (snd (ipfix_handle w n1 n2 msg s i)))) \<le> 1"
proof -
  have "length (fst (snd (ipfix_decide w s i2 msg stats))) \<le> 1" for i2 stats
    using ipfix_decide_sends[of w s i2 msg stats]
    by (cases "ipfix_decide w s i2 msg stats") fastforce
  then show ?thesis
    by (auto simp: ipfix_handle_def case_prod_beta split: sum.split)
qed

lemma handle_message_at_most_one: "length (fst (snd (snd (handle_message w n1 n2 msg s i)))) \<le> 1"
  using snort_handle_at_most_one[of w s msg] sflow_handle_at_most_one[of w msg] ipfix_handle_at_most_one[of w n1 n2 msg s i]
  by (auto simp: handle_message_def case_prod_beta split: sum.split)

lemma coord_message_counts:
  "coord_message w ins n1 n2 msg c = (c', r) \<Longrightarrow>
    \<exists>new reqs. c_alerts c' = c_alerts c @ new \<and> c_sent c' = c_sent c @ reqs \<and>
      length new \<le> 1 \<and> length reqs \<le> length new"
proof (cases "ins (c_alerts c) msg")
  case (Pair msg' r')
  assume m: "coord_message w ins n1 n2 msg c = (c', r)"
  show ?thesis
  proof (cases r')
    case (Inl e)
    then show ?thesis using m Pair by (intro exI[of _ "[]"]) (auto simp: coord_message_def)
  next
    case (Inr u)
    then show ?thesis using m Pair handle_message_at_most_one[of w n1 n2 msg' "c_store c" "c_ipfix c"]
      by (intro exI[of _ "[msg']"]) (auto simp: coord_message_def case_prod_beta Let_def)
  qed
qed

text \<open>
  No action without a stored alert. In every run of the loop, also one that ends in an exception,
  the alerts collection and the list of requests only grow; at most one alert is stored for a
  received message, and at most one request is sent for a stored alert.
\<close>

theorem actions_bounded_by_alerts:
  assumes "listen w ins ms c = (c', r)"
  shows "\<exists>new reqs. c_alerts c' = c_alerts c @ new \<and> c_sent c' = c_sent c @ reqs \<and>
    length new \<le> length ms \<and> length reqs \<le> length new"
  using assms
proof (induction ms arbitrary: c)
  case (Cons m ms)
  obtain n1 n2 msg where m: "m = (n1, n2, msg)" by (cases m) auto
  obtain c1 r1 where c1: "coord_message w ins n1 n2 msg c = (c1, r1)" by fastforce
  from coord_message_counts[OF c1] obtain new reqs where
    one: "c_alerts c1 = c_alerts c @ new" "c_sent c1 = c_sent c @ reqs" "length new \<le> 1" "length reqs \<le> length new"
    by blast
  show ?case
  proof (cases r1)
    case (Inl e)
    then show ?thesis using Cons.prems one by (auto simp: m c1)
  next
    case (Inr u)
    then have "listen w ins ms c1 = (c', r)" using Cons.prems by (simp add: m c1)
    from Cons.IH[OF this] obtain new' reqs' where
      "c_alerts c' = c_alerts c1 @ new'" "c_sent c' = c_sent c1 @ reqs'"
      "length new' \<le> length ms" "length reqs' \<le> length new'" by blast
    with one show ?thesis by (intro exI[of _ "new @ new'"] exI[of _ "reqs @ reqs'"]) simp
  qed
qed auto

theorem actions_bounded_by_alerts_witness:
  "\<exists>c' r new. listen demo_world demo_insert [(0, 0, sctp_message)] icmp_coord = (c', r) \<and>
     c_alerts c' = c_alerts icmp_coord @ new \<and> length new \<le> 1"
proof -
  obtain c' r where l: "listen demo_world demo_insert [(0, 0, sctp_message)] icmp_coord = (c', r)" by fastforce
  from actions_bounded_by_alerts[OF l] l show ?thesis by auto
qed

text \<open>
  Every configured collector is started, in the order of the configuration, until one cannot be. If
  each entry of the configuration yields a collector, all run; the first entry that does not (no port, an
  unknown type, a port in use, an IPFIX entry without a subtype) ends the set-up with its exception, and
  the collectors before it are running.
\<close>

theorem collectors_started:
  assumes "py_item (PyDict config) ''collectors'' = Inr (PyDict types)" "visit_collectors types = (ps @ rest, Inr ())"
    and "\<forall>(t, c) \<in> set ps. bindE (new_controller config t c) (collector_helper bind config) = Inr (f (t, c))"
    and "case rest of [] \<Rightarrow> True | (t, c) # _ \<Rightarrow> bindE (new_controller config t c) (collector_helper bind config) = Inl e"
  shows "setup_collectors bind config = (map f ps, if rest = [] then Inr () else Inl e)"
proof (cases rest)
  case Nil
  then show ?thesis using assms start_collectors_map[OF assms(3)] by (simp add: setup_collectors_def del: py_item.simps)
next
  case (Cons p rest')
  then show ?thesis
    using assms start_collectors_stops[OF assms(3)]
    by (cases p) (simp add: setup_collectors_def del: py_item.simps)
qed

definition example_config :: pydict where
  "example_config = [(''collectors'', PyDict
     [(''ipfix'', PyList [PyDict [(''subtype'', PyStr ''prefix''), (''port'', PyInt 4740)]]),
      (''snort'', PyList [PyDict [(''port'', PyInt 8081)]])]), (''ipc_path'', PyStr ''ipc://mervyn_coord'')]"

theorem collectors_started_witness:
  "setup_collectors (\<lambda>_. Inr ()) example_config =
     ([IPFIXCollector (PyInt 4740) (PyStr ''prefix''), SnortCollector (PyInt 8081)], Inr ())"
proof -
  let ?e1 = "(''ipfix'', PyDict [(''subtype'', PyStr ''prefix''), (''port'', PyInt 4740)])"
  let ?e2 = "(''snort'', PyDict [(''port'', PyInt 8081)])"
  let ?f = "\<lambda>(t, c). if t = ''ipfix'' then IPFIXCollector (PyInt 4740) (PyStr ''prefix'') else SnortCollector (PyInt 8081)"
  let ?types = "[(''ipfix'', PyList [PyDict [(''subtype'', PyStr ''prefix''), (''port'', PyInt 4740)]]),
      (''snort'', PyList [PyDict [(''port'', PyInt 8081)]])]"
  have "py_item (PyDict example_config) ''collectors'' = Inr (PyDict ?types)" by (simp add: example_config_def)
  moreover have "visit_collectors ?types = ([?e1, ?e2] @ [], Inr ())" by simp
  moreover have "\<forall>(t, c) \<in> set [?e1, ?e2]. bindE (new_controller example_config t c)
      (collector_helper (\<lambda>_. Inr ()) example_config) = Inr (?f (t, c))"
    by (simp add: new_controller_def collector_helper_def example_config_def)
  ultimately have "setup_collectors (\<lambda>_. Inr ()) example_config = (map ?f [?e1, ?e2],
      if ([] :: (string \<times> pyval) list) = [] then Inr () else Inl KeyError)"
    by (rule collectors_started[where ps = "[?e1, ?e2]" and rest = "[]" and f = ?f]) simp
  then show ?thesis by simp
qed

text \<open>
  Interfix polling ends for good at the first failed request. The thread does not catch the exception of
  the request: when a round gets no answer (the controller restarts, say) no later round sends
  anything, although the thread was never asked to stop.
\<close>

theorem interfix_dies_on_first_failure:
  assumes "poll_running ip" "\<forall>r \<in> set before. \<exists>c. r = (Inr c, True)"
  shows "length (fst (interfix_run ip (before @ (Inl e, go) # after))) = Suc (length before) \<and>
    \<not> snd (interfix_run ip (before @ (Inl e, go) # after))"
  using assms
proof (induction before)
  case (Cons r before)
  then obtain c where r: "r = (Inr c, True)" by auto
  have "interfix_run (ip\<lparr>poll_running := True\<rparr>) rs = interfix_run ip rs" for rs
    using Cons.prems(1) by (cases ip) simp
  then show ?case using Cons by (simp add: r case_prod_beta Let_def)
qed (simp add: Let_def)

theorem interfix_dies_on_first_failure_witness:
  "\<not> snd (interfix_run \<lparr>poll_onos = ''onos'', poll_frequency = PyInt 1, poll_running = True\<rparr>
      ([(Inr 200, True)] @ (Inl ConnectionError, True) # [(Inr 200, True)]))"
  using interfix_dies_on_first_failure[of "\<lparr>poll_onos = ''onos'', poll_frequency = PyInt 1, poll_running = True\<rparr>"
      "[(Inr 200, True)]" ConnectionError True "[(Inr 200, True)]"] by simp

end
