(* ===== verification/Collectors.thy ===== *)
theory Collectors
  imports Py_Base
begin

text \<open>
  The collectors: \<open>coordinator/core/collector.py\<close>.

  Each collector turns what it receives into a message dictionary and pushes it to the
  coordinator. Outside the repository are the IPFIX reader (which records a datagram has), \<open>pickle\<close>
  (which object a body holds), and scapy: its argument \<open>ether\<close> maps the bytes of a packet to the
  layers it dissects, each a name with its fields.
\<close>

section \<open>Texts\<close>

definition hex_digit :: "nat \<Rightarrow> char" where
  "hex_digit d = ''0123456789abcdef'' ! d"

fun hex_nat :: "nat \<Rightarrow> string" where
  "hex_nat n = (if n < 16 then [hex_digit n] else hex_nat (n div 16) @ [hex_digit (n mod 16)])"

declare hex_nat.simps [simp del]

text \<open>\<open>'%02x' % n\<close>\<close>

definition hex2 :: "nat \<Rightarrow> string" where
  "hex2 n = (if n < 16 then CHR ''0'' # hex_nat n else hex_nat n)"

definition hex_byte :: "8 word \<Rightarrow> string" where
  "hex_byte b = hex2 (unat b)"

definition packed :: "128 word \<Rightarrow> 8 word list" where
  "packed w = map (\<lambda>k. word_of_nat (unat w div 256 ^ k)) (rev [0..<16])"

definition packed4 :: "32 word \<Rightarrow> 8 word list" where
  "packed4 w = map (\<lambda>k. word_of_nat (unat w div 256 ^ k)) (rev [0..<4])"

definition colon_hex :: "8 word list \<Rightarrow> string" where
  "colon_hex bs = join '':'' (map hex_byte bs)"

text \<open>The datapath id in bytes 8 to 15 of the exporter address; only addresses have \<open>packed\<close>.\<close>

fun dpid_text :: "pyval \<Rightarrow> string result" where
  "dpid_text (PyIPv6 w) = Inr (''of:'' @ colon_hex (take 8 (drop 8 (packed w))))"
| "dpid_text (PyIPv4 w) = Inr (''of:'' @ colon_hex (take 8 (drop 8 (packed4 w))))"
| "dpid_text _ = Inl AttributeError"

fun hex_of_val :: "pyval \<Rightarrow> string result" where
  "hex_of_val (PyInt i) =
     Inr (if i < 0 then CHR ''-'' # hex_nat (nat (- i)) else hex2 (nat i))"
| "hex_of_val (PyBool b) = Inr (if b then ''01'' else ''00'')"
| "hex_of_val _ = Inl TypeError"

fun mac_text :: "pyval \<Rightarrow> string result" where
  "mac_text (PyBytes bs) = Inr (colon_hex bs)"
| "mac_text (PyList xs) = bindE (mapE hex_of_val xs) (\<lambda>ts. Inr (join '':'' ts))"
| "mac_text (PyStr []) = Inr []"
| "mac_text (PyDict []) = Inr []"
| "mac_text _ = Inl TypeError"

definition ipv4_text :: "32 word \<Rightarrow> string" where
  "ipv4_text w = join ''.'' (map (\<lambda>b. nat_str (unat b)) (packed4 w))"

section \<open>Packets of snort alerts\<close>

type_synonym layers = "(string \<times> pydict) list"

definition has_layer :: "string \<Rightarrow> layers \<Rightarrow> bool" where
  "has_layer n ls = has_key ls n"

text \<open>A field that a layer lacks is looked up in its payload.\<close>

fun layer_attr :: "layers \<Rightarrow> string \<Rightarrow> pyval result" where
  "layer_attr [] k = Inl AttributeError"
| "layer_attr ((n, fs) # ls) k = (case map_of fs k of Some v \<Rightarrow> Inr v | None \<Rightarrow> layer_attr ls k)"

definition ports_of :: "string \<Rightarrow> string \<Rightarrow> string \<Rightarrow> layers \<Rightarrow> pydict result" where
  "ports_of proto sf df ls =
     bindE (layer_attr ls sf) (\<lambda>sp.
     bindE (layer_attr ls df) (\<lambda>dp.
       Inr [(''protocolIdentifier'', PyStr proto), (''sourceTransportPort'', sp), (''destinationTransportPort'', dp)]))"

definition snort_pkt_values :: "(string \<Rightarrow> layers) \<Rightarrow> pyval \<Rightarrow> pydict result" where
  "snort_pkt_values ether pkt =
     (case pkt of
        PyStr s \<Rightarrow>
          (let eth = ether (take 300 s);
               macs = (case (layer_attr eth ''src'', layer_attr eth ''dst'') of
                         (Inr a, Inr b) \<Rightarrow> [(''sourceMacAddress'', a), (''destinationMacAddress'', b)] | _ \<Rightarrow> [])
           in (if \<not> has_layer ''IP'' eth then Inr macs
               else (let ip = tl eth
                     in bindE (layer_attr ip ''src'') (\<lambda>a.
                        bindE (layer_attr ip ''dst'') (\<lambda>b.
                        bindE (if has_layer ''TCP'' ip then ports_of ''tcp'' ''sport'' ''dport'' (tl ip)
                               else if has_layer ''UDP'' ip then ports_of ''udp'' ''sport'' ''dport'' (tl ip)
                               else if has_layer ''ICMP'' ip then ports_of ''icmp'' ''type'' ''code'' (tl ip)
                               else Inr []) (\<lambda>ports.
                          Inr (macs @ [(''sourceIPv4Address'', a), (''destinationIPv4Address'', b)] @ ports)))))))
      | _ \<Rightarrow> Inl AttributeError)"

section \<open>form_pyobj\<close>

text \<open>
  \<open>form_value\<close> is one round of the loop, \<open>form_items\<close> the loop; an object nested in a value is formed
  without a type.
\<close>

fun form_value :: "(pyval \<Rightarrow> string) \<Rightarrow> (string \<Rightarrow> layers) \<Rightarrow> string \<Rightarrow> pyval \<Rightarrow> pyval result"
  and form_items :: "(pyval \<Rightarrow> string) \<Rightarrow> (string \<Rightarrow> layers) \<Rightarrow> pydict \<Rightarrow> pydict \<Rightarrow> pydict result" where
  "form_value repr_of ether k v =
     (if k = ''exporterIPv6Address'' then bindE (dpid_text v) (\<lambda>t. Inr (PyStr t))
      else (case v of
          PyIPv4 w \<Rightarrow> Inr (PyStr (ipv4_text w))
        | PyIPv6 w \<Rightarrow> Inr (PyStr (repr_of (PyIPv6 w)))
        | PyObj d \<Rightarrow>
            (if k = ''sourceMacAddress'' \<or> k = ''destinationMacAddress'' then bindE (mac_text v) (\<lambda>t. Inr (PyStr t))
             else if k = ''pkt'' then bindE (snort_pkt_values ether v) (\<lambda>p. Inr (PyDict p))
             else bindE (form_items repr_of ether d []) (\<lambda>d'. Inr (PyDict d')))
        | _ \<Rightarrow>
            (if k = ''sourceMacAddress'' \<or> k = ''destinationMacAddress'' then bindE (mac_text v) (\<lambda>t. Inr (PyStr t))
             else if k = ''pkt'' then bindE (snort_pkt_values ether v) (\<lambda>p. Inr (PyDict p))
             else Inr v)))"
| "form_items repr_of ether [] out = Inr out"
| "form_items repr_of ether ((k, v) # items) out =
     bindE (form_value repr_of ether k v) (\<lambda>v'. form_items repr_of ether items (dict_put k v' out))"

definition form_pyobj ::
  "(pyval \<Rightarrow> string) \<Rightarrow> (string \<Rightarrow> layers) \<Rightarrow> int \<Rightarrow> pyval \<Rightarrow> string \<Rightarrow> pyval option \<Rightarrow> pydict result"
where
  "form_pyobj repr_of ether utcnow obj typ subtype =
     (let head = (if typ = [] then []
        else [(''time'', PyTime utcnow), (''type'', PyStr typ)] @
          (case subtype of Some st \<Rightarrow> if py_truth st then [(''subtype'', st)] else [] | None \<Rightarrow> []))
      in (case obj of
            PyDict d \<Rightarrow> form_items repr_of ether d head
          | PyObj d \<Rightarrow> form_items repr_of ether d head
          | _ \<Rightarrow> Inl AttributeError))"

section \<open>The three receivers\<close>

text \<open>
  The routes catch every exception and always answer with return code 1 and status 201. The
  result has the messages pushed to the coordinator.
\<close>

definition collector_answer :: "int \<times> int" where
  "collector_answer = (1, 201)"

definition post_form ::
  "(pyval \<Rightarrow> string) \<Rightarrow> (string \<Rightarrow> layers) \<Rightarrow> int \<Rightarrow> string \<Rightarrow> pyval result \<Rightarrow> pydict list \<times> int \<times> int"
where
  "post_form repr_of ether utcnow typ body =
     ((case bindE body (\<lambda>obj. form_pyobj repr_of ether utcnow obj typ None) of
         Inl e \<Rightarrow> [] | Inr msg \<Rightarrow> [msg]), collector_answer)"

definition snort_post_alert ::
  "(pyval \<Rightarrow> string) \<Rightarrow> (string \<Rightarrow> layers) \<Rightarrow> (8 word list \<Rightarrow> pyval result) \<Rightarrow> int \<Rightarrow> 8 word list \<Rightarrow> pydict list \<times> int \<times> int"
where
  "snort_post_alert repr_of ether unpickle utcnow body = post_form repr_of ether utcnow ''snort'' (unpickle body)"

definition sflow_post_alert ::
  "(pyval \<Rightarrow> string) \<Rightarrow> (string \<Rightarrow> layers) \<Rightarrow> int \<Rightarrow> http_body \<Rightarrow> pydict list \<times> int \<times> int"
where
  "sflow_post_alert repr_of ether utcnow req = post_form repr_of ether utcnow ''sflowrt''
     (if content_type req = Some ''application/json'' then json_body req else Inr PyNone)"

text \<open>The datagram handler: an exception leaves it, but the records before it have been sent.\<close>

fun ipfix_records ::
  "(pyval \<Rightarrow> string) \<Rightarrow> (string \<Rightarrow> layers) \<Rightarrow> pyval \<Rightarrow> (int \<times> pydict result) list \<Rightarrow> pydict list \<times> unit result"
where
  "ipfix_records repr_of ether subtype [] = ([], Inr ())"
| "ipfix_records repr_of ether subtype ((utcnow, rec) # recs) =
     (case bindE rec (\<lambda>d. form_pyobj repr_of ether utcnow (PyDict d) ''ipfix'' (Some subtype)) of
        Inl e \<Rightarrow> ([], Inl e)
      | Inr msg \<Rightarrow> (let (msgs, r) = ipfix_records repr_of ether subtype recs in (msg # msgs, r)))"

section \<open>Starting and closing the collectors\<close>

text \<open>
  A collector has a connected push socket, and the IPFIX collector a bound UDP server. \<open>connect\<close> and \<open>bind\<close> are
  the answers of the system; \<open>run\<close> serves until the process ends.
\<close>

record collector_state =
  coll_port :: pyval
  coll_type :: string
  coll_subtype :: pyval
  zmq_open :: bool
  server_open :: bool

definition zmq_setup :: "(string \<Rightarrow> unit result) \<Rightarrow> string \<Rightarrow> unit result" where
  "zmq_setup connect ipc = connect ipc"

definition snort_collector_new :: "(string \<Rightarrow> unit result) \<Rightarrow> pyval \<Rightarrow> string \<Rightarrow> collector_state result" where
  "snort_collector_new connect conf ipc =
     bindE (py_item conf ''port'') (\<lambda>p. bindE (zmq_setup connect ipc) (\<lambda>_.
       Inr \<lparr>coll_port = p, coll_type = ''snort'', coll_subtype = PyNone, zmq_open = True, server_open = False\<rparr>))"

definition sflow_collector_new :: "(string \<Rightarrow> unit result) \<Rightarrow> pyval \<Rightarrow> string \<Rightarrow> collector_state result" where
  "sflow_collector_new connect conf ipc =
     bindE (py_item conf ''port'') (\<lambda>p. bindE (zmq_setup connect ipc) (\<lambda>_.
       Inr \<lparr>coll_port = p, coll_type = ''sflowrt'', coll_subtype = PyNone, zmq_open = True, server_open = False\<rparr>))"

definition ipfix_collector_new ::
  "(string \<Rightarrow> unit result) \<Rightarrow> (pyval \<Rightarrow> unit result) \<Rightarrow> pyval \<Rightarrow> string \<Rightarrow> collector_state result"
where
  "ipfix_collector_new connect bind conf ipc =
     bindE (zmq_setup connect ipc) (\<lambda>_. bindE (py_item conf ''port'') (\<lambda>p. bindE (bind p) (\<lambda>_.
     bindE (py_item conf ''subtype'') (\<lambda>st.
       Inr \<lparr>coll_port = p, coll_type = ''ipfix'', coll_subtype = st, zmq_open = True, server_open = True\<rparr>))))"

definition snort_collector_close :: "collector_state \<Rightarrow> collector_state" where
  "snort_collector_close s = s\<lparr>zmq_open := False\<rparr>"

definition sflow_collector_close :: "collector_state \<Rightarrow> collector_state" where
  "sflow_collector_close s = s\<lparr>zmq_open := False\<rparr>"

definition ipfix_collector_close :: "collector_state \<Rightarrow> collector_state" where
  "ipfix_collector_close s = s\<lparr>server_open := False, zmq_open := False\<rparr>"

text \<open>The handler of a datagram uses the type and subtype the collector was made with.\<close>

definition ipfix_collector_handle ::
  "(pyval \<Rightarrow> string) \<Rightarrow> (string \<Rightarrow> layers) \<Rightarrow> collector_state \<Rightarrow> (int \<times> pydict result) list \<Rightarrow> pydict list \<times> unit result"
where
  "ipfix_collector_handle repr_of ether s recs = ipfix_records repr_of ether (coll_subtype s) recs"

lemma ipfix_collector_closed:
  "ipfix_collector_new connect bind conf ipc = Inr s \<Longrightarrow>
    \<not> zmq_open (ipfix_collector_close s) \<and> \<not> server_open (ipfix_collector_close s) \<and> zmq_open s \<and> server_open s"
  by (auto simp: ipfix_collector_new_def ipfix_collector_close_def res_simps)

section \<open>Lemmas\<close>

lemma hex_byte_digits: "hex_byte b = [hex_digit (unat b div 16), hex_digit (unat b mod 16)]"
proof -
  have "unat b < 256" using unsigned_less[of b, where ?'a = nat] by simp
  moreover from this have "unat b div 16 < 16" by simp
  ultimately show ?thesis
    by (auto simp: hex_byte_def hex2_def hex_nat.simps[of "unat b"] hex_nat.simps[of "unat b div 16"] hex_digit_def)
qed

lemma hex_digit_inj: "i < 16 \<Longrightarrow> j < 16 \<Longrightarrow> hex_digit i = hex_digit j \<longleftrightarrow> i = j"
  unfolding hex_digit_def by (rule nth_eq_iff_index_eq) simp_all

lemma hex_byte_inj: "hex_byte a = hex_byte b \<longleftrightarrow> a = b"
proof -
  have lt: "unat a < 256" "unat b < 256" 
    using unsigned_less[of a, where ?'a = nat] unsigned_less[of b, where ?'a = nat] by simp_all
  then have "hex_byte a = hex_byte b \<longleftrightarrow> unat a div 16 = unat b div 16 \<and> unat a mod 16 = unat b mod 16"
    unfolding hex_byte_digits by (simp add: hex_digit_inj)
  also have "\<dots> \<longleftrightarrow> unat a = unat b"
    using div_mult_mod_eq[of "unat a" 16] div_mult_mod_eq[of "unat b" 16] by metis
  finally show ?thesis by (simp add: word_unat_eq_iff)
qed

lemma length_hex_byte [simp]: "length (hex_byte b) = 2"
  by (simp add: hex_byte_digits)

lemma colon_hex_Cons: "colon_hex (b # bs) = hex_byte b @ concat (map (\<lambda>y. '':'' @ hex_byte y) bs)"
  by (simp add: colon_hex_def join_def comp_def)

lemma concat_hex_inj:
  "concat (map (\<lambda>y. '':'' @ hex_byte y) xs) = concat (map (\<lambda>y. '':'' @ hex_byte y) ys) \<Longrightarrow> xs = ys"
proof (induction xs arbitrary: ys)
  case Nil
  then show ?case by (cases ys) auto
next
  case (Cons x xs)
  then obtain y ys' where ys: "ys = y # ys'" by (cases ys) auto
  with Cons.prems have "hex_byte x = hex_byte y"
    "concat (map (\<lambda>y. '':'' @ hex_byte y) xs) = concat (map (\<lambda>y. '':'' @ hex_byte y) ys')"
    by (auto simp: append_eq_append_conv)
  then show ?case using Cons.IH ys by (simp add: hex_byte_inj)
qed

lemma colon_hex_inj: "colon_hex xs = colon_hex ys \<longleftrightarrow> xs = ys"
proof
  assume eq: "colon_hex xs = colon_hex ys"
  show "xs = ys"
  proof (cases xs)
    case Nil
    then show ?thesis using eq by (cases ys) (auto simp: colon_hex_def join_def hex_byte_digits)
  next
    case (Cons x xs')
    then obtain y ys' where ys: "ys = y # ys'"
      using eq by (cases ys) (auto simp: colon_hex_def join_def hex_byte_digits)
    have "hex_byte x = hex_byte y" "concat (map (\<lambda>y. '':'' @ hex_byte y) xs') = concat (map (\<lambda>y. '':'' @ hex_byte y) ys')"
      using eq unfolding Cons ys colon_hex_Cons by (simp_all add: append_eq_append_conv)
    then show ?thesis using concat_hex_inj by (simp add: Cons ys hex_byte_inj)
  qed
qed simp

lemma form_items_lookup:
  assumes "form_items repr_of ether items out = Inr r" "wf_dict items"
  shows "map_of r k = (case map_of items k of
      None \<Rightarrow> map_of out k
    | Some v \<Rightarrow> (case form_value repr_of ether k v of Inr v' \<Rightarrow> Some v' | Inl _ \<Rightarrow> None)) \<and>
    (\<forall>v. map_of items k = Some v \<longrightarrow> (\<exists>v'. form_value repr_of ether k v = Inr v'))"
  using assms
proof (induction items arbitrary: out)
  case (Cons p items)
  obtain k' v where p: "p = (k', v)" by (cases p)
  obtain v' where v': "form_value repr_of ether k' v = Inr v'"
    "form_items repr_of ether items (dict_put k' v' out) = Inr r"
    using Cons.prems(1) by (auto simp: p res_simps simp del: form_value.simps)
  have "map_of items k' = None" using Cons.prems(2) by (simp add: p map_of_eq_None_iff)
  then show ?case using Cons.IH[OF v'(2)] Cons.prems(2) v'(1)
    by (auto simp: p simp del: form_value.simps split: option.split)
qed simp

text \<open>Values the database driver accepts as they are: no addresses and no objects at the top.\<close>

fun bson_value :: "pyval \<Rightarrow> bool" where
  "bson_value (PyIPv4 w) = False"
| "bson_value (PyIPv6 w) = False"
| "bson_value (PyObj d) = False"
| "bson_value _ = True"

lemma form_value_bson: "form_value repr_of ether k v = Inr v' \<Longrightarrow> bson_value v'"
  by (cases v) (auto simp: res_simps split: if_splits)

section \<open>Properties\<close>

text \<open>
  C36: what a message says. Forming a message from a record keeps the keys: every field of the record
  is in the message in its converted form, a field of the record wins over the fields the
  collector adds, and without such a field the message carries the time, the type and the
  subtype of the collector. No value of the message is an address or an object.
\<close>

theorem message_contents:
  assumes "form_pyobj repr_of ether utcnow (PyDict d) typ (Some st) = Inr msg" "wf_dict d" "typ \<noteq> []" "py_truth st"
    and "bson_value st"
  shows "(\<forall>k v. map_of d k = Some v \<longrightarrow> (\<exists>v'. form_value repr_of ether k v = Inr v' \<and> map_of msg k = Some v')) \<and>
    (\<forall>k. \<not> has_key d k \<longrightarrow> map_of msg k =
       map_of [(''time'', PyTime utcnow), (''type'', PyStr typ), (''subtype'', st)] k) \<and>
    (\<forall>k v. map_of msg k = Some v \<longrightarrow> bson_value v)"
proof -
  let ?head = "[(''time'', PyTime utcnow), (''type'', PyStr typ), (''subtype'', st)]"
  have f: "form_items repr_of ether d ?head = Inr msg"
    using assms(1,3,4) by (simp add: form_pyobj_def del: form_items.simps)
  note look = form_items_lookup[OF f assms(2)]
  have 1: "\<exists>v'. form_value repr_of ether k v = Inr v' \<and> map_of msg k = Some v'" if "map_of d k = Some v" for k v
    using look[of k] that by (auto simp del: form_value.simps)
  have 2: "map_of msg k = map_of ?head k" if "\<not> has_key d k" for k
    using look[of k] that by (simp add: has_key_def)
  have "bson_value v" if v: "map_of msg k = Some v" for k v
  proof (cases "map_of d k")
    case None
    then show ?thesis using 2[of k] v assms(5) by (auto simp: has_key_def split: if_splits)
  next
    case (Some u)
    then show ?thesis using 1[OF Some] v form_value_bson by fastforce
  qed
  with 1 2 show ?thesis by blast
qed

definition demo_record_in :: pydict where
  "demo_record_in = [(''sourceIPv4Address'', PyIPv4 0x0A000001), (''type'', PyStr ''other'')]"

theorem message_contents_witness:
  "\<exists>msg. form_pyobj (\<lambda>_. []) (\<lambda>_. []) 7 (PyDict demo_record_in) ''ipfix'' (Some (PyStr ''prefix'')) = Inr msg \<and>
     map_of msg ''type'' = Some (PyStr ''other'') \<and> map_of msg ''subtype'' = Some (PyStr ''prefix'')"
proof -
  obtain msg where m: "form_pyobj (\<lambda>_. []) (\<lambda>_. []) 7 (PyDict demo_record_in) ''ipfix'' (Some (PyStr ''prefix'')) = Inr msg"
    by (simp add: form_pyobj_def demo_record_in_def)
  have "wf_dict demo_record_in" by (simp add: demo_record_in_def)
  note c = message_contents[OF m this]
  have "map_of demo_record_in ''type'' = Some (PyStr ''other'')" "\<not> has_key demo_record_in ''subtype''"
    by (simp_all add: demo_record_in_def)
  then show ?thesis using m c by fastforce
qed

text \<open>
  The datapath id text is faithful. It has 26 characters, and two exporter addresses give the same
  text exactly when their last eight bytes agree; likewise hardware addresses of the same or of
  different lengths give the same text only if they are the same bytes.
\<close>

theorem dpid_text_faithful:
  "(\<exists>t. dpid_text (PyIPv6 a) = Inr t \<and> length t = 26) \<and>
   (dpid_text (PyIPv6 a) = dpid_text (PyIPv6 b) \<longleftrightarrow> drop 8 (packed a) = drop 8 (packed b)) \<and>
   (mac_text (PyBytes xs) = mac_text (PyBytes ys) \<longleftrightarrow> xs = ys)"
proof -
  have len: "length (packed w) = 16" for w by (simp add: packed_def)
  have "length (colon_hex (x # xs)) = 3 * length xs + 2" for x xs
    unfolding colon_hex_Cons by (induction xs) simp_all
  moreover obtain x xs where "take 8 (drop 8 (packed a)) = x # xs" "length xs = 7"
  proof -
    have "length (take 8 (drop 8 (packed a))) = Suc 7" using len[of a] by simp
    then obtain y ys where "take 8 (drop 8 (packed a)) = y # ys" "length ys = 7"
      unfolding length_Suc_conv by blast
    then show thesis by (rule that)
  qed
  ultimately have "length (colon_hex (take 8 (drop 8 (packed a)))) = 23" by simp
  then show ?thesis using len by (simp add: colon_hex_inj)
qed

text \<open>
  The alert routes never fail and push at most one message. Whatever the body, the answer is return code 1
  with status 201; a message is pushed exactly when the body yields an object that can be formed.
  An IPFIX datagram pushes its records in order, up to the first that cannot be formed.
\<close>

theorem collectors_push_in_order:
  assumes "ipfix_records repr_of ether st recs = (msgs, r)"
    and "formed = (\<lambda>(now, rec). bindE rec (\<lambda>d. form_pyobj repr_of ether now (PyDict d) ''ipfix'' (Some st)))"
  shows "post_form repr_of ether utcnow typ body =
      ((case body of Inl _ \<Rightarrow> [] | Inr obj \<Rightarrow>
          (case form_pyobj repr_of ether utcnow obj typ None of Inl _ \<Rightarrow> [] | Inr m \<Rightarrow> [m])), 1, 201) \<and>
    (\<forall>i < length msgs. formed (recs ! i) = Inr (msgs ! i)) \<and>
    (case r of Inr _ \<Rightarrow> length msgs = length recs
     | Inl e \<Rightarrow> length msgs < length recs \<and> formed (recs ! length msgs) = Inl e)"
proof -
  have "(\<forall>i < length msgs. formed (recs ! i) = Inr (msgs ! i)) \<and>
    (case r of Inr _ \<Rightarrow> length msgs = length recs
     | Inl e \<Rightarrow> length msgs < length recs \<and> formed (recs ! length msgs) = Inl e)"
    using assms(1)
  proof (induction recs arbitrary: msgs)
    case (Cons p recs)
    obtain now rec where p: "p = (now, rec)" by (cases p)
    show ?case
    proof (cases "formed p")
      case (Inl e)
      then have "msgs = []" "r = Inl e" using Cons.prems by (simp_all add: p assms(2))
      then show ?thesis using Inl by simp
    next
      case (Inr m)
      then obtain msgs' where m: "msgs = m # msgs'" "ipfix_records repr_of ether st recs = (msgs', r)"
        using Cons.prems by (auto simp: p assms(2) split: prod.splits)
      show ?thesis using Cons.IH[OF m(2)] Inr
        by (auto simp: m(1) nth_Cons split: nat.split sum.split)
    qed
  qed auto
  then show ?thesis by (auto simp: post_form_def collector_answer_def split: sum.split)
qed

theorem collectors_push_in_order_witness:
  "\<exists>msgs e. ipfix_records (\<lambda>_. []) (\<lambda>_. []) (PyStr ''prefix'') [(7, Inr demo_record_in), (8, Inl (ExnOther ''ipfix''))] =
     (msgs, Inl e) \<and> length msgs = 1"
proof -
  let ?recs = "[(7, Inr demo_record_in), (8, Inl (ExnOther ''ipfix''))]"
  define formed where "formed = (\<lambda>(now, rec). bindE rec
    (\<lambda>d. form_pyobj (\<lambda>_. []) (\<lambda>_. []) now (PyDict d) ''ipfix'' (Some (PyStr ''prefix''))))"
  obtain msgs r where q: "ipfix_records (\<lambda>_. []) (\<lambda>_. []) (PyStr ''prefix'') ?recs = (msgs, r)" by fastforce
  note c = collectors_push_in_order[OF q formed_def, of 0 "[]" "Inr PyNone"]
  obtain m where ok: "formed (7, Inr demo_record_in) = Inr m"
    by (simp add: formed_def form_pyobj_def demo_record_in_def)
  have bad: "formed (8, Inl (ExnOther ''ipfix'')) = Inl (ExnOther ''ipfix'')" by (simp add: formed_def)
  show ?thesis
  proof (cases r)
    case (Inl e)
    then have l: "length msgs < 2" "formed (?recs ! length msgs) = Inl e" using c by simp_all
    have "length msgs \<noteq> 0"
    proof
      assume "length msgs = 0"
      then show False using l(2) ok by simp
    qed
    then have "length msgs = 1" using l(1) by linarith
    then show ?thesis using q Inl by auto
  next
    case (Inr u)
    then have len: "length msgs = 2" and "\<forall>i < length msgs. formed (?recs ! i) = Inr (msgs ! i)" using c by simp_all
    then have "formed (?recs ! 1) = Inr (msgs ! 1)" by (metis one_less_numeral_iff semiring_norm(76))
    then show ?thesis using bad by simp
  qed
qed

end
