(* ===== verification/App_DDoS.thy ===== *)
theory App_DDoS
  imports Rpc
begin

text \<open>
  The denial of service detector: \<open>coordinator/apps/ipfix-ddos-app/ipfix_ddos.py\<close>.

  The application polls the northbound interface and counts, per destination, the sources seen in the
  last period. What the network answers to a request is the argument \<open>api\<close>: a status code and
  whether the body is JSON, or the exception of the call. An exception ends the application, so
  every step returns the requests made before it. It runs under Python 2, where \<open>items()\<close> is a list and entries
  can be deleted in the loop over it.
\<close>

section \<open>State and configuration\<close>

text \<open>Dictionary keys are in hashed form; a source is an address with a port.\<close>

type_synonym source = "pyval \<times> pyval"
type_synonym api = "http_req \<Rightarrow> (int \<times> bool) result"

record ddos_conf =
  source_count_threshold :: int
  period :: rat

record ddos =
  source_count :: "(pyval \<times> (source \<times> int) list) list"
  possible_attacks :: "pyval list"

definition ddos_new :: ddos where
  "ddos_new = \<lparr>source_count = [], possible_attacks = []\<rparr>"

section \<open>Cleaning up\<close>

text \<open>
  \<open>sources_clean_up\<close>: the clock is read for each source; ages are in seconds, times in
  microseconds.
\<close>

definition too_old :: "ddos_conf \<Rightarrow> int \<Rightarrow> int \<Rightarrow> bool" where
  "too_old c now time = (of_int (now - time) / 1000000 > period c)"

definition sources_clean_up :: "ddos_conf \<Rightarrow> (pyval \<Rightarrow> source \<Rightarrow> int) \<Rightarrow> ddos \<Rightarrow> ddos" where
  "sources_clean_up c now s = s\<lparr>source_count :=
     map (\<lambda>(dst, srcs). (dst, filter (\<lambda>(src, time). \<not> too_old c (now dst src) time) srcs)) (source_count s)\<rparr>"

section \<open>Installing mirrors\<close>

definition underscores :: "string \<Rightarrow> string" where
  "underscores = map (\<lambda>ch. if ch = CHR ''.'' then CHR ''_'' else ch)"

definition mirror_data :: "string \<Rightarrow> string \<Rightarrow> pydict" where
  "mirror_data subtype dst =
     [(''subtype'', PyStr subtype), (''priority'', PyInt 10), (''treatment'', PyStr ''snort_mirror''),
      (''fields'', PyDict [(''destinationIPv4Address'', PyStr dst)]),
      (''treatment_fields'', PyDict [(''destinationIPv4Address'', PyStr dst)])]"

definition mirror_url :: "string \<Rightarrow> string \<Rightarrow> string" where
  "mirror_url subtype dst =
     ''http://127.0.0.1:2401/tennison/thresholds/ipfix/add/ddos-mirror-'' @ underscores dst @ ''-'' @ subtype"

text \<open>One request; a status other than 200 makes the code read the body as JSON.\<close>

definition post_threshold :: "api \<Rightarrow> http_req \<Rightarrow> http_req list \<times> unit result" where
  "post_threshold net req =
     ([req], case net req of
        Inl e \<Rightarrow> Inl e
      | Inr (status, is_json) \<Rightarrow> if status \<noteq> 200 \<and> \<not> is_json then Inl ValueError else Inr ())"

fun post_all :: "api \<Rightarrow> http_req list \<Rightarrow> http_req list \<times> unit result" where
  "post_all net [] = ([], Inr ())"
| "post_all net (req # reqs) =
     (case post_threshold net req of
        (sent, Inl e) \<Rightarrow> (sent, Inl e)
      | (sent, Inr _) \<Rightarrow> (let (sent', r) = post_all net reqs in (sent @ sent', r)))"

definition mirror_requests :: "string \<Rightarrow> http_req list" where
  "mirror_requests dst =
     [HttpPost (mirror_url ''prefix'' dst) (Some (PyDict (mirror_data ''prefix'' dst))),
      HttpPost (mirror_url ''interfix'' dst) (Some (PyDict (mirror_data ''interfix'' dst)))]"

fun install_mirror :: "api \<Rightarrow> pyval \<Rightarrow> http_req list \<times> unit result" where
  "install_mirror net (PyStr dst) = post_all net (mirror_requests dst)"
| "install_mirror net _ = ([], Inl AttributeError)"

section \<open>Tracking\<close>

text \<open>One round of the loop in \<open>source_tracker\<close>; \<open>now\<close> is its clock reading.\<close>

definition track_message ::
  "api \<Rightarrow> ddos_conf \<Rightarrow> int \<Rightarrow> pyval \<Rightarrow> ddos \<Rightarrow> ddos \<times> http_req list \<times> unit result"
where
  "track_message net c now message s =
     (case bindE (py_in ''destinationIPv4Address'' message) (\<lambda>d.
           if \<not> d then Inr True
           else bindE (py_in ''sourceIPv4Address'' message) (\<lambda>sr. Inr (\<not> sr))) of
        Inl e \<Rightarrow> (s, [], Inl e)
      | Inr True \<Rightarrow> (s, [], Inr ())
      | Inr False \<Rightarrow>
          (case bindE (py_item message ''destinationIPv4Address'') (\<lambda>dst.
                bindE (py_item message ''sourceIPv4Address'') (\<lambda>a.
                bindE (py_item message ''sourceTransportPort'') (\<lambda>p.
                bindE (hash_key dst) (\<lambda>dk. Inr (dst, dk, a, p))))) of
             Inl e \<Rightarrow> (s, [], Inl e)
           | Inr (dst, dk, a, p) \<Rightarrow>
               (let srcs = (case map_of (source_count s) dk of None \<Rightarrow> [] | Some m \<Rightarrow> m);
                    s1 = s\<lparr>source_count := dict_put dk srcs (source_count s)\<rparr>
                in (case bindE (hash_key a) (\<lambda>ak. bindE (hash_key p) (\<lambda>pk. Inr (ak, pk))) of
                      Inl e \<Rightarrow> (s1, [], Inl e)
                    | Inr src \<Rightarrow>
                        (let srcs' = dict_put src now srcs;
                             s2 = s\<lparr>source_count := dict_put dk srcs' (source_count s)\<rparr>
                         in if int (length srcs') > source_count_threshold c \<and>
                               \<not> (\<exists>x \<in> set (possible_attacks s). py_eq x dst)
                            then (let (reqs, r) = install_mirror net dst in (s2, reqs, r))
                            else (s2, [], Inr ()))))))"

fun track_messages ::
  "api \<Rightarrow> ddos_conf \<Rightarrow> (int \<times> pyval) list \<Rightarrow> ddos \<Rightarrow> ddos \<times> http_req list \<times> unit result"
where
  "track_messages net c [] s = (s, [], Inr ())"
| "track_messages net c ((now, m) # ms) s =
     (case track_message net c now m s of
        (s', reqs, Inl e) \<Rightarrow> (s', reqs, Inl e)
      | (s', reqs, Inr _) \<Rightarrow>
          (let (s'', reqs', r) = track_messages net c ms s' in (s'', reqs @ reqs', r)))"

definition source_tracker ::
  "api \<Rightarrow> ddos_conf \<Rightarrow> (pyval \<Rightarrow> source \<Rightarrow> int) \<Rightarrow> (int \<times> pyval) list \<Rightarrow> ddos \<Rightarrow> ddos \<times> http_req list \<times> unit result"
where
  "source_tracker net c now ms s = track_messages net c ms (sources_clean_up c now s)"

text \<open>
  \<open>read_ipfix\<close>: one round per answer of the interface; the answer is the messages of the JSON body
  or the exception of the request.
\<close>

fun read_ipfix ::
  "api \<Rightarrow> ddos_conf \<Rightarrow> ((pyval \<Rightarrow> source \<Rightarrow> int) \<times> (int \<times> pyval) list result) list \<Rightarrow> ddos
    \<Rightarrow> ddos \<times> http_req list \<times> unit result"
where
  "read_ipfix net c [] s = (s, [], Inr ())"
| "read_ipfix net c ((now, answer) # rounds) s =
     (let req = HttpGet ''http://127.0.0.1:2401/tennison/ipfix/query/ipfix-ddos-app''
      in (case answer of
            Inl e \<Rightarrow> (s, [req], Inl e)
          | Inr ms \<Rightarrow>
              (case source_tracker net c now ms s of
                 (s', reqs, Inl e) \<Rightarrow> (s', req # reqs, Inl e)
               | (s', reqs, Inr _) \<Rightarrow>
                   (let (s'', reqs', r) = read_ipfix net c rounds s' in (s'', req # reqs @ reqs', r)))))"

text \<open>
  The application: it reads its configuration, registers once and polls. \<open>load\<close> is the outcome of reading the file and \<open>registered\<close>
  the answer to the registration; its status is not looked at. The interface has the route for \<open>POST\<close> only.
\<close>

definition ddos_register :: http_req where
  "ddos_register = HttpGet ''http://127.0.0.1:2401/tennison/app/register/ipfix-ddos-app''"

definition ddos_app ::
  "ddos_conf result \<Rightarrow> int result \<Rightarrow> api \<Rightarrow> ((pyval \<Rightarrow> source \<Rightarrow> int) \<times> (int \<times> pyval) list result) list
    \<Rightarrow> ddos \<times> http_req list \<times> unit result"
where
  "ddos_app load registered net rounds =
     (case load of
        Inl e \<Rightarrow> (ddos_new, [], Inl e)
      | Inr c \<Rightarrow>
          (case registered of
             Inl e \<Rightarrow> (ddos_new, [ddos_register], Inl e)
           | Inr status \<Rightarrow>
               (let (s, reqs, r) = read_ipfix net c rounds ddos_new in (s, ddos_register # reqs, r))))"

section \<open>Lemmas\<close>

text \<open>The abstraction: the set of current sources of a destination.\<close>

definition sources :: "ddos \<Rightarrow> pyval \<Rightarrow> source set" where
  "sources s dk = (case map_of (source_count s) dk of None \<Rightarrow> {} | Some m \<Rightarrow> fst ` set m)"

definition ddos_ok :: "ddos \<Rightarrow> bool" where
  "ddos_ok s \<longleftrightarrow> (\<forall>dk m. map_of (source_count s) dk = Some m \<longrightarrow> wf_dict m) \<and> possible_attacks s = []"

text \<open>A usable record: a flow from an address and port to a destination text.\<close>

definition flow_record :: "pyval \<Rightarrow> string \<Rightarrow> source \<Rightarrow> bool" where
  "flow_record m dst src \<longleftrightarrow> (\<exists>d a p. m = PyDict d \<and> map_of d ''destinationIPv4Address'' = Some (PyStr dst) \<and>
     map_of d ''sourceIPv4Address'' = Some a \<and> map_of d ''sourceTransportPort'' = Some p \<and>
     hash_key a = Inr (fst src) \<and> hash_key p = Inr (snd src))"

lemma dict_put_keys: "fst ` set (dict_put k v d) = insert k (fst ` set d)"
  by (simp add: AList.dom_update)

lemma wf_length: "wf_dict d \<Longrightarrow> length d = card (fst ` set d)"
  by (metis distinct_card length_map set_map)

lemma track_flow_record:
  assumes "ddos_ok s" "flow_record m dst src"
  shows "\<exists>s' reqs r. track_message net c now m s = (s', reqs, r) \<and> ddos_ok s' \<and>
    sources s' = (sources s)(PyStr dst := insert src (sources s (PyStr dst))) \<and>
    (reqs, r) = (if int (card (sources s' (PyStr dst))) > source_count_threshold c
                 then post_all net (mirror_requests dst) else ([], Inr ()))"
proof -
  obtain d a p where m: "m = PyDict d" "map_of d ''destinationIPv4Address'' = Some (PyStr dst)"
    "map_of d ''sourceIPv4Address'' = Some a" "map_of d ''sourceTransportPort'' = Some p"
    "hash_key a = Inr (fst src)" "hash_key p = Inr (snd src)"
    using assms(2) by (auto simp: flow_record_def)
  define srcs where "srcs = (case map_of (source_count s) (PyStr dst) of None \<Rightarrow> [] | Some x \<Rightarrow> x)"
  define s2 where "s2 = s\<lparr>source_count := dict_put (PyStr dst) (dict_put src now srcs) (source_count s)\<rparr>"
  have wf: "wf_dict srcs" using assms(1) by (auto simp: srcs_def ddos_ok_def split: option.split)
  have pa: "possible_attacks s = []" using assms(1) by (simp add: ddos_ok_def)
  have keys: "fst ` set srcs = sources s (PyStr dst)"
    by (auto simp: srcs_def sources_def split: option.split)
  have s2: "sources s2 = (sources s)(PyStr dst := insert src (sources s (PyStr dst)))"
  proof
    fix x
    have "sources s2 (PyStr dst) = fst ` set (dict_put src now srcs)" by (simp add: sources_def s2_def)
    then show "sources s2 x = ((sources s)(PyStr dst := insert src (sources s (PyStr dst)))) x"
      by (cases "x = PyStr dst") (simp_all add: dict_put_keys keys, simp add: sources_def s2_def)
  qed
  have ok: "ddos_ok s2" using assms(1) wf by (simp add: ddos_ok_def s2_def)
  have len: "length (dict_put src now srcs) = card (sources s2 (PyStr dst))"
    using wf_length[OF wf_dict_put[OF wf]] by (simp add: dict_put_keys keys s2)
  have "track_message net c now m s =
    (if int (length (dict_put src now srcs)) > source_count_threshold c
     then (let (reqs, r) = post_all net (mirror_requests dst) in (s2, reqs, r)) else (s2, [], Inr ()))"
    using m pa by (simp add: track_message_def has_key_def srcs_def s2_def Let_def)
  then show ?thesis using ok s2 len by (cases "post_all net (mirror_requests dst)") auto
qed

text \<open>
  The specification: record \<open>i\<close> raises the alarm when its destination has too many sources, the ones
  known before and those of the records up to this one.
\<close>

definition over_threshold :: "ddos_conf \<Rightarrow> (string \<Rightarrow> source set) \<Rightarrow> (string \<times> source) list \<Rightarrow> nat \<Rightarrow> bool" where
  "over_threshold c known fs i = (let dst = fst (fs ! i) in
     int (card (known dst \<union> {src. (dst, src) \<in> set (take (Suc i) fs)})) > source_count_threshold c)"

definition expected_mirrors :: "ddos_conf \<Rightarrow> (string \<Rightarrow> source set) \<Rightarrow> (string \<times> source) list \<Rightarrow> http_req list" where
  "expected_mirrors c known fs = concat (map (\<lambda>i.
     if over_threshold c known fs i then mirror_requests (fst (fs ! i)) else []) [0..<length fs])"

lemma over_threshold_Suc:
  "over_threshold c known ((d, x) # fs) (Suc i) = over_threshold c (known(d := insert x (known d))) fs i"
proof -
  have "known e \<union> {y. (e, y) \<in> set ((d, x) # take (Suc i) fs)} =
      (known(d := insert x (known d))) e \<union> {y. (e, y) \<in> set (take (Suc i) fs)}" for e
    by auto
  then show ?thesis by (simp add: over_threshold_def Let_def)
qed

lemma expected_mirrors_Cons:
  "expected_mirrors c known ((d, x) # fs) =
    (if int (card (insert x (known d))) > source_count_threshold c then mirror_requests d else []) @
    expected_mirrors c (known(d := insert x (known d))) fs"
proof -
  have upt: "[0..<length ((d, x) # fs)] = 0 # map Suc [0..<length fs]" by (simp add: map_Suc_upt upt_conv_Cons del: upt_Suc)
  have "known d \<union> {y. y = x} = insert x (known d)" by auto
  then have "over_threshold c known ((d, x) # fs) 0 = (int (card (insert x (known d))) > source_count_threshold c)"
    by (simp add: over_threshold_def)
  then show ?thesis
    unfolding expected_mirrors_def upt by (simp add: over_threshold_Suc comp_def cong: if_cong)
qed

lemma post_all_answered:
  "\<forall>req. \<exists>status. net req = Inr (status, True) \<Longrightarrow> post_all net reqs = (reqs, Inr ())"
proof (induction reqs)
  case (Cons r reqs)
  obtain status where "net r = Inr (status, True)" using Cons.prems by blast
  then show ?case using Cons by (simp add: post_threshold_def)
qed simp

section \<open>Properties\<close>

text \<open>
  C17: the detector counts distinct sources, and mirrors a destination exactly when they are too many. From a
  consistent state, on usable records and with an interface that answers, the tracker never
  fails; the sources of each destination are those it had and those of the records; and each record
  whose destination then has more sources than the threshold sends the two mirror
  requests again, since no destination is ever remembered as attacked.
\<close>

theorem ddos_counts_distinct_sources:
  assumes "ddos_ok s" "list_all2 (\<lambda>nm f. flow_record (snd nm) (fst f) (snd f)) ms fs"
    and "\<forall>req. \<exists>status. net req = Inr (status, True)"
  shows "\<exists>s'. track_messages net c ms s = (s', expected_mirrors c (\<lambda>d. sources s (PyStr d)) fs, Inr ()) \<and> ddos_ok s' \<and>
    (\<forall>dst. sources s' (PyStr dst) = sources s (PyStr dst) \<union> {src. (dst, src) \<in> set fs})"
  using assms(1,2)
proof (induction ms arbitrary: s fs)
  case Nil
  then show ?case by (simp add: expected_mirrors_def)
next
  case (Cons nm ms)
  obtain now m where nm: "nm = (now, m)" by (cases nm)
  obtain dst src fs' where fs: "fs = (dst, src) # fs'" "flow_record m dst src"
    "list_all2 (\<lambda>nm f. flow_record (snd nm) (fst f) (snd f)) ms fs'"
    using Cons.prems(2) by (auto simp: nm list_all2_Cons1)
  obtain s1 reqs1 where s1: "track_message net c now m s = (s1, reqs1, Inr ())" "ddos_ok s1"
    "sources s1 = (sources s)(PyStr dst := insert src (sources s (PyStr dst)))"
    "reqs1 = (if int (card (sources s1 (PyStr dst))) > source_count_threshold c then mirror_requests dst else [])"
    using track_flow_record[OF Cons.prems(1) fs(2), of net c now] post_all_answered[OF assms(3)]
    by (auto split: if_splits)
  have known: "(\<lambda>d. sources s1 (PyStr d)) = (\<lambda>d. sources s (PyStr d))(dst := insert src (sources s (PyStr dst)))"
    by (auto simp: s1(3))
  obtain s2 where s2: "track_messages net c ms s1 = (s2, expected_mirrors c (\<lambda>d. sources s1 (PyStr d)) fs', Inr ())"
    "ddos_ok s2" "\<forall>dst. sources s2 (PyStr dst) = sources s1 (PyStr dst) \<union> {src. (dst, src) \<in> set fs'}"
    using Cons.IH[OF s1(2) fs(3)] by blast
  have "track_messages net c (nm # ms) s = (s2, expected_mirrors c (\<lambda>d. sources s (PyStr d)) fs, Inr ())"
    by (simp add: nm s1(1) s2(1) fs(1) expected_mirrors_Cons known s1(4) s1(3) fun_upd_def)
  moreover have "sources s2 (PyStr d) = sources s (PyStr d) \<union> {x. (d, x) \<in> set fs}" for d
    using s2(3) by (auto simp: fs(1) s1(3))
  ultimately show ?case using s2(2) by blast
qed

definition demo_flow :: "int \<Rightarrow> pyval" where
  "demo_flow port = PyDict [(''sourceIPv4Address'', PyStr ''10.0.0.9''), (''destinationIPv4Address'', PyStr ''10.0.0.5''),
     (''sourceTransportPort'', PyInt port)]"

theorem ddos_counts_distinct_sources_witness:
  "\<exists>s'. track_messages (\<lambda>_. Inr (400, True)) \<lparr>source_count_threshold = 1, period = 60\<rparr>
      [(0, demo_flow 1), (1, demo_flow 1), (2, demo_flow 2)] ddos_new = (s', mirror_requests ''10.0.0.5'', Inr ())"
proof -
  let ?c = "\<lparr>source_count_threshold = 1, period = 60\<rparr>"
  let ?fs = "[(''10.0.0.5'', (PyStr ''10.0.0.9'', PyFloat 1)), (''10.0.0.5'', (PyStr ''10.0.0.9'', PyFloat 1)),
    (''10.0.0.5'', (PyStr ''10.0.0.9'', PyFloat 2))]"
  have ok: "ddos_ok ddos_new" by (simp add: ddos_ok_def ddos_new_def)
  have records: "list_all2 (\<lambda>nm f. flow_record (snd nm) (fst f) (snd f)) [(0, demo_flow 1), (1, demo_flow 1), (2, demo_flow 2)] ?fs"
    by (simp add: flow_record_def demo_flow_def)
  have net: "\<forall>req :: http_req. \<exists>status. Inr (400, True) = (Inr (status, True) :: (int \<times> bool) result)" by simp
  from ddos_counts_distinct_sources[OF ok records net, of ?c]
  obtain s' where s': "track_messages (\<lambda>_. Inr (400, True)) ?c [(0, demo_flow 1), (1, demo_flow 1), (2, demo_flow 2)] ddos_new =
      (s', expected_mirrors ?c (\<lambda>d. sources ddos_new (PyStr d)) ?fs, Inr ())"
    by (elim exE conjE)
  have none: "(\<lambda>d. sources ddos_new (PyStr d)) = (\<lambda>_. {})" by (simp add: sources_def ddos_new_def)
  have "expected_mirrors ?c (\<lambda>_. {}) [(d, x), (d, x), (d, y)] = mirror_requests d" if "x \<noteq> y" for d x y
    using that by (simp add: expected_mirrors_Cons) (simp add: expected_mirrors_def)
  then have "expected_mirrors ?c (\<lambda>_. {}) ?fs = mirror_requests ''10.0.0.5''" by simp
  then show ?thesis using s' unfolding none by simp
qed

text \<open>
  Cleaning up removes exactly the sources that are too old. A source stays if and only if its last
  record is not older than the period; the destinations and the times of the others do not change.
\<close>

theorem clean_up_removes_old:
  assumes "ddos_ok s"
  shows "ddos_ok (sources_clean_up c now s) \<and> map fst (source_count (sources_clean_up c now s)) = map fst (source_count s) \<and>
    (\<forall>dst m. map_of (source_count s) dst = Some m \<longrightarrow>
       (\<exists>m'. map_of (source_count (sources_clean_up c now s)) dst = Some m' \<and>
          (\<forall>src. map_of m' src = (case map_of m src of
             None \<Rightarrow> None | Some t \<Rightarrow> if too_old c (now dst src) t then None else Some t))))"
proof -
  let ?f = "\<lambda>dst srcs. filter (\<lambda>(src, time). \<not> too_old c (now dst src) time) srcs"
  have sc: "map_of (source_count (sources_clean_up c now s)) dst = map_option (?f dst) (map_of (source_count s) dst)" for dst
  proof -
    have "map_of (map (\<lambda>(dst, srcs). (dst, ?f dst srcs)) xs) dst = map_option (?f dst) (map_of xs dst)" for xs
      by (induction xs) auto
    then show ?thesis by (simp add: sources_clean_up_def)
  qed
  have look: "map_of (?f dst m) src = (case map_of m src of
      None \<Rightarrow> None | Some t \<Rightarrow> if too_old c (now dst src) t then None else Some t)" if "wf_dict m" for dst m src
    using that
  proof (induction m)
    case (Cons p m)
    then have "map_of m (fst p) = None" by (simp add: map_of_eq_None_iff)
    then show ?case using Cons by (cases p) (auto split: option.split)
  qed simp
  have "wf_dict (?f dst m)" if "wf_dict m" for dst m
    using that by (simp add: distinct_map_filter)
  then show ?thesis using assms sc look
    by (auto simp: ddos_ok_def sources_clean_up_def comp_def case_prod_beta)
qed

theorem clean_up_removes_old_witness:
  "\<exists>m'. map_of (source_count (sources_clean_up \<lparr>source_count_threshold = 1, period = 60\<rparr> (\<lambda>_ _. 70000000)
      \<lparr>source_count = [(PyStr ''d'', [((PyStr ''a'', PyFloat 1), 0), ((PyStr ''b'', PyFloat 1), 20000000)])],
       possible_attacks = []\<rparr>)) (PyStr ''d'') = Some m' \<and>
    map_of m' (PyStr ''a'', PyFloat 1) = None \<and> map_of m' (PyStr ''b'', PyFloat 1) = Some 20000000"
proof -
  let ?s = "\<lparr>source_count = [(PyStr ''d'', [((PyStr ''a'', PyFloat 1), 0), ((PyStr ''b'', PyFloat 1), 20000000)])],
       possible_attacks = []\<rparr>"
  have ok: "ddos_ok ?s" by (auto simp: ddos_ok_def split: if_splits)
  let ?m = "[((PyStr ''a'', PyFloat 1), 0), ((PyStr ''b'', PyFloat 1), 20000000 :: int)]"
  have "map_of (source_count ?s) (PyStr ''d'') = Some ?m" by simp
  with clean_up_removes_old[OF ok, of "\<lparr>source_count_threshold = 1, period = 60\<rparr>" "\<lambda>_ _. 70000000"]
  obtain m' where m': "map_of (source_count (sources_clean_up \<lparr>source_count_threshold = 1, period = 60\<rparr> (\<lambda>_ _. 70000000) ?s)) (PyStr ''d'') = Some m'"
    "\<forall>src. map_of m' src = (case map_of ?m src of
         None \<Rightarrow> None | Some t \<Rightarrow> if too_old \<lparr>source_count_threshold = 1, period = 60\<rparr> 70000000 t then None else Some t)"
    by blast
  from m'(2) have "map_of m' (PyStr ''a'', PyFloat 1) = None" "map_of m' (PyStr ''b'', PyFloat 1) = Some 20000000"
    by (simp_all add: too_old_def)
  with m'(1) show ?thesis by blast
qed

end
