(* ===== verification/App_PortScan.thy ===== *)
theory App_PortScan
  imports Rpc
begin

text \<open>
  The port scan detector: \<open>coordinator/apps/ipfix-port-scan-app/ipfixportscan.py\<close>.

  The application remembers which ports each pair of hosts has used and blocks the source when there
  are too many. An exception (a missing field, a failed request) ends it, so every step returns the
  requests made before it. The thresholds are posted under a random number, an argument.
\<close>

type_synonym l3flow = "pyval \<times> pyval"
type_synonym statuses = "http_req \<Rightarrow> int result"

record portscan =
  flow_to_port :: "(l3flow \<times> pyval list) list"
  treated_flows :: "l3flow list"
  time_last_treat :: rat

section \<open>Registration\<close>

text \<open>The loop in the constructor: it repeats until the answer is 200; a failed request ends the application.\<close>

fun register_loop :: "int result list \<Rightarrow> nat \<times> bool result" where
  "register_loop [] = (0, Inr False)"
| "register_loop (answer # answers) =
     (case answer of
        Inl e \<Rightarrow> (1, Inl e)
      | Inr status \<Rightarrow>
          (if status = 200 then (1, Inr True)
           else (let (n, r) = register_loop answers in (Suc n, r))))"

section \<open>Blocking\<close>

definition block_payload :: "string \<Rightarrow> pyval \<Rightarrow> pydict" where
  "block_payload subtype src =
     [(''subtype'', PyStr subtype), (''treatment'', PyStr ''block''),
      (''fields'', PyDict [(''sourceIPv4Address'', src)]),
      (''treatment_fields'', PyDict [(''sourceIPv4Address'', src)]), (''priority'', PyInt 10)]"

definition block_request :: "string \<Rightarrow> nat \<Rightarrow> pyval \<Rightarrow> http_req" where
  "block_request subtype thresh_id src = HttpPost
     (''http://127.0.0.1:2401/tennison/thresholds/ipfix/add/portscan_'' @ subtype @ ''_'' @ nat_str thresh_id)
     (Some (PyDict (block_payload subtype src)))"

definition treat_flow ::
  "statuses \<Rightarrow> nat \<Rightarrow> l3flow \<Rightarrow> pyval \<Rightarrow> portscan \<Rightarrow> portscan \<times> http_req list \<times> unit result"
where
  "treat_flow net thresh_id key src s =
     (let s' = s\<lparr>treated_flows := treated_flows s @ [key]\<rparr>;
          r1 = block_request ''prefix'' thresh_id src;
          r2 = block_request ''interfix'' thresh_id src
      in (case net r1 of
            Inl e \<Rightarrow> (s', [r1], Inl e)
          | Inr _ \<Rightarrow> (s', [r1, r2], bindE (net r2) (\<lambda>_. Inr ()))))"

section \<open>Tracking\<close>

definition add_port :: "pyval \<Rightarrow> pyval list \<Rightarrow> pyval list" where
  "add_port p ports = (if p \<in> set ports then ports else ports @ [p])"

text \<open>
  \<open>flow_to_port_tracker\<close>; \<open>now\<close> is the clock in seconds. The guard skips a record only if both
  addresses are missing.
\<close>

definition flow_to_port_tracker ::
  "statuses \<Rightarrow> int \<Rightarrow> nat \<Rightarrow> rat \<Rightarrow> pydict \<Rightarrow> portscan \<Rightarrow> portscan \<times> http_req list \<times> unit result"
where
  "flow_to_port_tracker net port_threshold_count thresh_id now flow s =
     (if \<not> has_key flow ''sourceIPv4Address'' \<and> \<not> has_key flow ''destinationIPv4Address'' then (s, [], Inr ())
      else (case bindE (py_item (PyDict flow) ''sourceIPv4Address'') (\<lambda>a.
                 bindE (py_item (PyDict flow) ''destinationIPv4Address'') (\<lambda>b.
                 bindE (hash_key a) (\<lambda>ak.
                 bindE (hash_key b) (\<lambda>bk.
                 bindE (py_item (PyDict flow) ''destinationTransportPort'') (\<lambda>p.
                 bindE (hash_key p) (\<lambda>pk. Inr (a, (ak, bk), pk))))))) of
          Inl e \<Rightarrow> (s, [], Inl e)
        | Inr (src, key, port) \<Rightarrow>
            (let ports = add_port port (case map_of (flow_to_port s) key of None \<Rightarrow> [] | Some ps \<Rightarrow> ps);
                 s1 = s\<lparr>flow_to_port := dict_put key ports (flow_to_port s)\<rparr>
             in if int (length ports) > port_threshold_count then
                  (if key \<notin> set (treated_flows s1)
                   then treat_flow net thresh_id key src (s1\<lparr>time_last_treat := now\<rparr>)
                   else if now - time_last_treat s1 > 10
                   then treat_flow net thresh_id key src (s1\<lparr>time_last_treat := now\<rparr>)
                   else (s1, [], Inr ()))
                else (s1, [], Inr ()))))"

fun flows_to_port_tracker ::
  "statuses \<Rightarrow> int \<Rightarrow> (nat \<times> rat \<times> pydict) list \<Rightarrow> portscan \<Rightarrow> portscan \<times> http_req list \<times> unit result"
where
  "flows_to_port_tracker net thr [] s = (s, [], Inr ())"
| "flows_to_port_tracker net thr ((thresh_id, now, flow) # flows) s =
     (case flow_to_port_tracker net thr thresh_id now flow s of
        (s', reqs, Inl e) \<Rightarrow> (s', reqs, Inl e)
      | (s', reqs, Inr _) \<Rightarrow>
          (let (s'', reqs', r) = flows_to_port_tracker net thr flows s' in (s'', reqs @ reqs', r)))"

text \<open>\<open>read_ipfix\<close>: a round per answer of the interface.\<close>

fun portscan_read ::
  "statuses \<Rightarrow> int \<Rightarrow> (nat \<times> rat \<times> pydict) list result list \<Rightarrow> portscan \<Rightarrow> portscan \<times> http_req list \<times> unit result"
where
  "portscan_read net thr [] s = (s, [], Inr ())"
| "portscan_read net thr (answer # rounds) s =
     (let req = HttpGet ''http://127.0.0.1:2401/tennison/ipfix/query/ipfix-port-scan-app''
      in (case answer of
            Inl e \<Rightarrow> (s, [req], Inl e)
          | Inr flows \<Rightarrow>
              (case flows_to_port_tracker net thr flows s of
                 (s', reqs, Inl e) \<Rightarrow> (s', req # reqs, Inl e)
               | (s', reqs, Inr _) \<Rightarrow>
                   (let (s'', reqs', r) = portscan_read net thr rounds s' in (s'', req # reqs @ reqs', r)))))"

text \<open>
  The application: configuration, registration, polling. Only the polling is guarded against the keyboard interrupt; the guard
  logs the length of \<open>flows\<close>, a name the constructor does not have, and so ends with \<open>NameError\<close>.
\<close>

definition portscan_init :: "rat \<Rightarrow> portscan" where
  "portscan_init now = \<lparr>flow_to_port = [], treated_flows = [], time_last_treat = now\<rparr>"

definition portscan_register :: http_req where
  "portscan_register = HttpPost ''http://127.0.0.1:2401/tennison/app/register/ipfix-port-scan-app'' None"

definition portscan_app ::
  "int result \<Rightarrow> rat \<Rightarrow> int result list \<Rightarrow> statuses \<Rightarrow> (nat \<times> rat \<times> pydict) list result list
    \<Rightarrow> portscan \<times> http_req list \<times> unit result"
where
  "portscan_app load now answers net rounds =
     (case load of
        Inl e \<Rightarrow> (portscan_init now, [], Inl e)
      | Inr thr \<Rightarrow>
          (case register_loop answers of
             (n, Inl e) \<Rightarrow> (portscan_init now, replicate n portscan_register, Inl e)
           | (n, Inr False) \<Rightarrow> (portscan_init now, replicate n portscan_register, Inr ())
           | (n, Inr True) \<Rightarrow>
               (case portscan_read net thr rounds (portscan_init now) of
                  (s, reqs, r) \<Rightarrow>
                    (s, replicate n portscan_register @ reqs,
                     case r of Inl e \<Rightarrow> Inl (if e = keyboard_interrupt then NameError else e) | Inr _ \<Rightarrow> Inr ()))))"

section \<open>Lemmas\<close>

text \<open>The abstraction: the ports a pair has used.\<close>

definition ports_used :: "portscan \<Rightarrow> l3flow \<Rightarrow> pyval set" where
  "ports_used s key = (case map_of (flow_to_port s) key of None \<Rightarrow> {} | Some ps \<Rightarrow> set ps)"

text \<open>
  The invariant: port lists have no duplicates, and every pair with too many ports has been treated.
\<close>

definition portscan_ok :: "int \<Rightarrow> portscan \<Rightarrow> bool" where
  "portscan_ok thr s \<longleftrightarrow> (\<forall>key ps. map_of (flow_to_port s) key = Some ps \<longrightarrow> distinct ps) \<and>
     (\<forall>key. int (card (ports_used s key)) > thr \<longrightarrow> key \<in> set (treated_flows s)) \<and> 0 \<le> thr"

definition usable_flow :: "pydict \<Rightarrow> pyval \<Rightarrow> l3flow \<Rightarrow> pyval \<Rightarrow> bool" where
  "usable_flow flow src key port \<longleftrightarrow> (\<exists>b p. map_of flow ''sourceIPv4Address'' = Some src \<and>
     map_of flow ''destinationIPv4Address'' = Some b \<and> map_of flow ''destinationTransportPort'' = Some p \<and>
     hash_key src = Inr (fst key) \<and> hash_key b = Inr (snd key) \<and> hash_key p = Inr port)"

lemma add_port_simps: "set (add_port p ps) = insert p (set ps)" "distinct ps \<Longrightarrow> distinct (add_port p ps)"
  by (auto simp: add_port_def)

lemma treat_flow_answered:
  "(\<And>req. \<exists>c. net req = Inr c) \<Longrightarrow> treat_flow net i key src s =
    (s\<lparr>treated_flows := treated_flows s @ [key]\<rparr>, [block_request ''prefix'' i src, block_request ''interfix'' i src], Inr ())"
proof -
  assume net: "\<And>req. \<exists>c. net req = Inr c"
  obtain c1 c2 where "net (block_request ''prefix'' i src) = Inr c1" "net (block_request ''interfix'' i src) = Inr c2"
    using net by blast
  then show ?thesis by (simp add: treat_flow_def Let_def)
qed

lemma tracker_usable:
  assumes "portscan_ok thr s" "usable_flow flow src key port" "\<And>req. \<exists>c. net req = Inr c"
  shows "\<exists>s' reqs. flow_to_port_tracker net thr i now flow s = (s', reqs, Inr ()) \<and> portscan_ok thr s' \<and>
    ports_used s' = (ports_used s)(key := insert port (ports_used s key)) \<and>
    (let due = int (card (ports_used s' key)) > thr \<and> (key \<notin> set (treated_flows s) \<or> now - time_last_treat s > 10)
     in reqs = (if due then [block_request ''prefix'' i src, block_request ''interfix'' i src] else []) \<and>
        time_last_treat s' = (if due then now else time_last_treat s) \<and>
        treated_flows s' = treated_flows s @ (if due then [key] else []))"
proof -
  obtain b p where f: "map_of flow ''sourceIPv4Address'' = Some src" "map_of flow ''destinationIPv4Address'' = Some b"
    "map_of flow ''destinationTransportPort'' = Some p" "hash_key src = Inr (fst key)" "hash_key b = Inr (snd key)"
    "hash_key p = Inr port" using assms(2) by (auto simp: usable_flow_def)
  define old where "old = (case map_of (flow_to_port s) key of None \<Rightarrow> [] | Some ps \<Rightarrow> ps)"
  define s1 where "s1 = s\<lparr>flow_to_port := dict_put key (add_port port old) (flow_to_port s)\<rparr>"
  have old: "distinct old" "set old = ports_used s key"
    using assms(1) by (cases key; auto simp: old_def portscan_ok_def ports_used_def split: option.split)+
  have s1: "ports_used s1 = (ports_used s)(key := insert port (ports_used s key))"
    by (rule ext) (simp add: ports_used_def[of s1] s1_def add_port_simps old(2) ports_used_def[of s] ports_used_def)
  have len: "length (add_port port old) = card (ports_used s1 key)"
    using distinct_card[OF add_port_simps(2)[OF old(1), of port]] by (simp add: s1 add_port_simps old(2))
  let ?due = "int (card (ports_used s1 key)) > thr \<and> (key \<notin> set (treated_flows s) \<or> now - time_last_treat s > 10)"
  define s' where "s' = (if ?due then s1\<lparr>time_last_treat := now, treated_flows := treated_flows s @ [key]\<rparr> else s1)"
  have run: "flow_to_port_tracker net thr i now flow s =
      (s', if ?due then [block_request ''prefix'' i src, block_request ''interfix'' i src] else [], Inr ())"
    using f by (auto simp: flow_to_port_tracker_def has_key_def Let_def treat_flow_answered[OF assms(3)]
        old_def[symmetric] s1_def[symmetric] len s'_def) (auto simp: s1_def)
  have used: "ports_used s' = ports_used s1" by (rule ext) (simp add: s'_def ports_used_def)
  have "portscan_ok thr s'"
    unfolding portscan_ok_def
  proof (intro conjI allI impI)
    fix k ps assume "map_of (flow_to_port s') k = Some ps"
    then have "ps = add_port port old \<or> map_of (flow_to_port s) k = Some ps"
      by (simp add: s'_def s1_def split: if_splits)
    then show "distinct ps" using assms(1) add_port_simps(2)[OF old(1)] unfolding portscan_ok_def by blast
  next
    fix k assume many: "int (card (ports_used s' k)) > thr"
    show "k \<in> set (treated_flows s')"
    proof (cases "k = key")
      case True
      then show ?thesis using many used by (auto simp: s'_def s1_def)
    next
      case False
      then have "k \<in> set (treated_flows s)" using many assms(1)
        unfolding portscan_ok_def used s1 fun_upd_other[OF False] by blast
      then show ?thesis by (simp add: s'_def s1_def)
    qed
  qed (use assms(1) in \<open>simp add: portscan_ok_def\<close>)
  then show ?thesis using run used s1
    by (intro exI[of _ s'] exI conjI) (auto simp: s'_def s1_def Let_def)
qed

text \<open>
  A run over usable records: the treatments made, each with the number, the source and the pair it is for.
\<close>

definition block_pair :: "nat \<times> pyval \<times> l3flow \<Rightarrow> http_req list" where
  "block_pair = (\<lambda>(i, src, key). [block_request ''prefix'' i src, block_request ''interfix'' i src])"

lemma tracker_run:
  assumes "portscan_ok thr s" "\<And>req. \<exists>c. net req = Inr c"
    and "list_all2 (\<lambda>(i, now, flow) (src, key, port). usable_flow flow src key port) flows fs"
  shows "\<exists>s' due. flows_to_port_tracker net thr flows s = (s', concat (map block_pair due), Inr ()) \<and> portscan_ok thr s' \<and>
    (\<forall>key. ports_used s' key = ports_used s key \<union> {port. \<exists>src. (src, key, port) \<in> set fs}) \<and>
    treated_flows s' = treated_flows s @ map (\<lambda>(i, src, key). key) due \<and>
    (\<forall>(i, src, key) \<in> set due. (\<exists>port. (src, key, port) \<in> set fs) \<and> int (card (ports_used s' key)) > thr) \<and>
    set (map fst due) \<subseteq> set (map fst flows) \<and> (distinct (map fst flows) \<longrightarrow> distinct (map fst due))"
  using assms(1,3)
proof (induction flows arbitrary: s fs)
  case (Cons x flows)
  obtain i now flow where x: "x = (i, now, flow)" by (cases x) auto
  obtain src key port fs' where fs: "fs = (src, key, port) # fs'" "usable_flow flow src key port"
    "list_all2 (\<lambda>(i, now, flow) (src, key, port). usable_flow flow src key port) flows fs'"
    using Cons.prems(2) by (auto simp: x list_all2_Cons1)
  obtain s1 reqs1 where s1: "flow_to_port_tracker net thr i now flow s = (s1, reqs1, Inr ())" "portscan_ok thr s1"
    "ports_used s1 = (ports_used s)(key := insert port (ports_used s key))"
    and d: "let hit = int (card (ports_used s1 key)) > thr \<and> (key \<notin> set (treated_flows s) \<or> now - time_last_treat s > 10)
     in reqs1 = (if hit then [block_request ''prefix'' i src, block_request ''interfix'' i src] else []) \<and>
        time_last_treat s1 = (if hit then now else time_last_treat s) \<and>
        treated_flows s1 = treated_flows s @ (if hit then [key] else [])"
    using tracker_usable[where net = net and i = i and now = now, OF Cons.prems(1) fs(2) assms(2)] by blast
  obtain first where first: "reqs1 = concat (map block_pair first)" "first = [] \<or> first = [(i, src, key)]"
    "treated_flows s1 = treated_flows s @ map (\<lambda>(i, src, key). key) first" "first \<noteq> [] \<longrightarrow> int (card (ports_used s1 key)) > thr"
  proof (rule that[of "if reqs1 = [] then [] else [(i, src, key)]"])
  qed (use d in \<open>auto simp: Let_def block_pair_def split: if_splits\<close>)
  obtain s2 due where s2: "flows_to_port_tracker net thr flows s1 = (s2, concat (map block_pair due), Inr ())" "portscan_ok thr s2"
    "\<forall>key. ports_used s2 key = ports_used s1 key \<union> {port. \<exists>src. (src, key, port) \<in> set fs'}"
    "treated_flows s2 = treated_flows s1 @ map (\<lambda>(i, src, key). key) due"
    "\<forall>(i, src, key) \<in> set due. (\<exists>port. (src, key, port) \<in> set fs') \<and> int (card (ports_used s2 key)) > thr"
    "set (map fst due) \<subseteq> set (map fst flows)" "distinct (map fst flows) \<longrightarrow> distinct (map fst due)"
    using Cons.IH[OF s1(2) fs(3)] by blast
  have fin: "finite (ports_used s2 k)" for k by (simp add: ports_used_def split: option.split)
  have grow: "ports_used s1 key \<subseteq> ports_used s2 key" using s2(3) by blast
  have more: "int (card (ports_used s1 key)) \<le> int (card (ports_used s2 key))" using card_mono[OF fin grow] by simp
  have "flows_to_port_tracker net thr (x # flows) s = (s2, concat (map block_pair (first @ due)), Inr ())"
    using s1(1) s2(1) first(1) by (simp add: x)
  moreover have "ports_used s2 k = ports_used s k \<union> {port. \<exists>src. (src, k, port) \<in> set fs}" for k
    unfolding s2(3)[rule_format, of k] by (auto simp: s1(3) fs(1))
  moreover have "treated_flows s2 = treated_flows s @ map (\<lambda>(i, src, key). key) (first @ due)" using s2(4) first(3) by simp
  moreover have "\<forall>(i, src, key) \<in> set (first @ due). (\<exists>port. (src, key, port) \<in> set fs) \<and> int (card (ports_used s2 key)) > thr"
    using s2(5) first(2,4) more by (fastforce simp: fs(1))
  moreover have "set (map fst (first @ due)) \<subseteq> set (map fst (x # flows))" using s2(6) first(2) by (auto simp: x)
  moreover have "distinct (map fst (x # flows)) \<longrightarrow> distinct (map fst (first @ due))"
    using s2(6,7) first(2) by (fastforce simp: x image_subset_iff)
  ultimately show ?case using s2(2) by blast
qed auto

section \<open>Properties\<close>

text \<open>
  C16: every scanner is blocked, and only scanners are. From a state in which each pair of hosts with too many
  ports has been treated, on usable records and with an interface that answers, the tracker never
  fails and keeps that invariant; the ports of each pair are those it had and those of the records; two
  requests are sent per treatment, and every request blocks the source of a pair that has used more
  ports than the threshold.
\<close>

theorem portscan_blocks_scanners:
  assumes "portscan_ok thr s" "\<And>req. \<exists>c. net req = Inr c"
    and "list_all2 (\<lambda>(i, now, flow) (src, key, port). usable_flow flow src key port) flows fs"
  shows "\<exists>s' reqs. flows_to_port_tracker net thr flows s = (s', reqs, Inr ()) \<and> portscan_ok thr s' \<and>
    (\<forall>key. ports_used s' key = ports_used s key \<union> {port. \<exists>src. (src, key, port) \<in> set fs}) \<and>
    length reqs = 2 * (length (treated_flows s') - length (treated_flows s)) \<and>
    length (treated_flows s) \<le> length (treated_flows s') \<and>
    (\<forall>req \<in> set reqs. \<exists>kind i src key port. req = block_request kind i src \<and> (src, key, port) \<in> set fs \<and>
       int (card (ports_used s' key)) > thr)"
proof -
  obtain s' due where run: "flows_to_port_tracker net thr flows s = (s', concat (map block_pair due), Inr ())" "portscan_ok thr s'"
    "\<forall>key. ports_used s' key = ports_used s key \<union> {port. \<exists>src. (src, key, port) \<in> set fs}"
    "treated_flows s' = treated_flows s @ map (\<lambda>(i, src, key). key) due"
    "\<forall>(i, src, key) \<in> set due. (\<exists>port. (src, key, port) \<in> set fs) \<and> int (card (ports_used s' key)) > thr"
    using tracker_run[where net = net, OF assms] by blast
  have "length (concat (map block_pair due)) = 2 * length due" by (induction due) (auto simp: block_pair_def)
  moreover have "\<exists>kind i src key port. req = block_request kind i src \<and> (src, key, port) \<in> set fs \<and>
      int (card (ports_used s' key)) > thr" if req: "req \<in> set (concat (map block_pair due))" for req
  proof -
    obtain i src key kind where "(i, src, key) \<in> set due" "req = block_request kind i src"
      using req by (auto simp: block_pair_def)
    then show ?thesis using run(5) by blast
  qed
  ultimately show ?thesis using run by (intro exI[of _ s'] exI[of _ "concat (map block_pair due)"]) simp
qed

definition scan_flow :: "int \<Rightarrow> pydict" where
  "scan_flow port = [(''sourceIPv4Address'', PyStr ''a''), (''destinationIPv4Address'', PyStr ''b''),
     (''destinationTransportPort'', PyInt port)]"

definition portscan_new :: portscan where
  "portscan_new = \<lparr>flow_to_port = [], treated_flows = [], time_last_treat = 0\<rparr>"

theorem portscan_blocks_scanners_witness:
  "\<exists>s' reqs. flows_to_port_tracker (\<lambda>_. Inr 200) 1 [(7, 1, scan_flow 22), (8, 2, scan_flow 23)] portscan_new = (s', reqs, Inr ()) \<and>
     (PyStr ''a'', PyStr ''b'') \<in> set (treated_flows s')"
proof -
  let ?flows = "[(7, 1, scan_flow 22), (8, 2, scan_flow 23)]"
  let ?k = "(PyStr ''a'', PyStr ''b'')"
  let ?fs = "[(PyStr ''a'', ?k, PyFloat 22), (PyStr ''a'', ?k, PyFloat 23)]"
  have ok: "portscan_ok 1 portscan_new" by (simp add: portscan_ok_def portscan_new_def ports_used_def)
  have us: "list_all2 (\<lambda>(i, now, flow) (src, key, port). usable_flow flow src key port) ?flows ?fs"
    by (simp add: usable_flow_def scan_flow_def)
  have net: "\<exists>c. (\<lambda>_ :: http_req. Inr 200 :: int result) req = Inr c" for req by simp
  obtain s' reqs where s': "flows_to_port_tracker (\<lambda>_. Inr 200) 1 ?flows portscan_new = (s', reqs, Inr ())"
    "portscan_ok 1 s'" "ports_used s' ?k = ports_used portscan_new ?k \<union> {port. \<exists>src. (src, ?k, port) \<in> set ?fs}"
    using portscan_blocks_scanners[OF ok net us] by blast
  have "{port. \<exists>src. (src, ?k, port) \<in> set ?fs} = {PyFloat 22, PyFloat 23}" by auto
  then have "card (ports_used s' ?k) = 2" unfolding s'(3) by (simp add: ports_used_def portscan_new_def)
  then have "?k \<in> set (treated_flows s')" using s'(2) by (simp add: portscan_ok_def)
  then show ?thesis using s'(1) by blast
qed

text \<open>
  A record with one address ends the application. The guard asks whether both addresses are missing, so
  a record that has exactly one of them (an IPv6 flow, say, with a converted field) is not skipped but raises
  \<open>KeyError\<close>, and nothing after it is looked at.
\<close>

theorem half_record_ends_app:
  assumes "has_key flow ''sourceIPv4Address'' \<noteq> has_key flow ''destinationIPv4Address''"
    and "flows_to_port_tracker net thr before s = (s1, reqs, Inr ())"
  shows "flows_to_port_tracker net thr (before @ (i, now, flow) # after) s = (s1, reqs, Inl KeyError)"
proof -
  have stop: "flow_to_port_tracker net thr i now flow s1 = (s1, [], Inl KeyError)"
    using assms(1) by (auto simp: flow_to_port_tracker_def has_key_def)
  have "flows_to_port_tracker net thr (before @ rest) s =
      (let (s2, reqs2, r) = flows_to_port_tracker net thr rest s1 in (s2, reqs @ reqs2, r))" for rest
    using assms(2)
  proof (induction before arbitrary: s reqs)
    case (Cons x before)
    obtain j t f where x: "x = (j, t, f)" by (cases x) auto
    obtain sa ra where a: "flow_to_port_tracker net thr j t f s = (sa, ra, Inr ())"
      "flows_to_port_tracker net thr before sa = (s1, drop (length ra) reqs, Inr ())" "reqs = ra @ drop (length ra) reqs"
      using Cons.prems by (auto simp: x split: prod.splits sum.splits)
    show ?case using Cons.IH[OF a(2)] a(3) by (simp add: x a(1) case_prod_beta Let_def)
  qed simp
  then show ?thesis by (simp add: stop)
qed

theorem half_record_ends_app_witness:
  "flows_to_port_tracker (\<lambda>_. Inr 200) 1 ([] @ (7, 1, [(''sourceIPv4Address'', PyStr ''a'')]) # []) portscan_new =
     (portscan_new, [], Inl KeyError)"
  by (rule half_record_ends_app) simp_all

text \<open>
  Nothing is read before the registration has succeeded: every request before the first answer 200 is a registration, and an exception then
  ends the application.
\<close>

theorem registered_before_polling:
  assumes "portscan_app (Inr thr) now answers net rounds = (s, reqs, r)" "reqs \<noteq> replicate (length reqs) portscan_register"
  shows "Inr 200 \<in> set answers \<and> (\<exists>n polls. reqs = replicate n portscan_register @ polls \<and> n \<le> length answers)"
proof -
  have reg: "(fst (register_loop answers) \<le> length answers) \<and> (snd (register_loop answers) = Inr True \<longrightarrow> Inr 200 \<in> set answers)"
    by (induction answers) (auto split: sum.splits prod.splits)
  obtain n res where n: "register_loop answers = (n, res)" by fastforce
  show ?thesis
  proof (cases "res = Inr True")
    case True
    then show ?thesis using assms(1) reg n by (auto simp: portscan_app_def split: prod.splits)
  next
    case False
    then have "reqs = replicate n portscan_register"
      using assms(1) n by (auto simp: portscan_app_def split: sum.splits bool.splits)
    then show ?thesis using assms(2) by simp
  qed
qed

theorem registered_before_polling_witness:
  "\<exists>s reqs r. portscan_app (Inr 1) 0 [Inr 500, Inr 200] (\<lambda>_. Inr 200) [Inr []] = (s, reqs, r) \<and> Inr 200 \<in> set [Inr 500, Inr (200 :: int) :: int result]"
proof -
  obtain s reqs r where run: "portscan_app (Inr 1) 0 [Inr 500, Inr 200] (\<lambda>_. Inr 200) [Inr []] = (s, reqs, r)" by (metis prod_cases3)
  then have "reqs \<noteq> replicate (length reqs) portscan_register"
    by (auto simp: portscan_app_def portscan_register_def)
  from registered_before_polling[OF run this] run show ?thesis by blast
qed

end
