(* ===== verification/Flow_Stats.thy ===== *)
theory Flow_Stats
  imports Py_Base
begin

text \<open>
  The statistics a flow keeps: \<open>coordinator/apps/ipfix-threshold-app/Flow.py\<close>.

  The application runs under Python 2, so the division of two integers rounds down; times are
  seconds as exact rationals, counters integers. \<open>raw_input\<close>, which the code calls to stop when
  it meets inconsistent times, is an argument: it returns or raises.
\<close>

section \<open>The class flow\<close>

record flow =
  endpoints :: "(pyval \<times> pyval) \<times> (pyval \<times> pyval)"
  startTime :: rat
  counter :: nat
  byte_diff :: int
  last_OctetObserved :: int
  packet_diff :: int
  last_observed :: rat
  timeM2 :: rat
  avg_time_diff :: rat
  std_time_diff :: rat
  avg_bps :: rat
  avg_pps :: rat
  delta_bps_records :: "rat list"
  delta_pps_records :: "rat list"
  ipfixPrevious :: bool
  last_observed_ipfix :: rat
  avg_time_diff_ipfix :: rat
  std_time_diff_ipfix :: rat
  timeM2_ipfix :: rat
  counterFlow :: nat
  byte_total_avg :: int
  packet_total_avg :: int
  cutoff :: nat

definition flow_new :: "(pyval \<times> pyval) \<times> (pyval \<times> pyval) \<Rightarrow> rat \<Rightarrow> int \<Rightarrow> flow" where
  "flow_new ends start octets = \<lparr>endpoints = ends, startTime = start, counter = 0, byte_diff = 0,
     last_OctetObserved = octets, packet_diff = 0, last_observed = -1, timeM2 = 0, avg_time_diff = 0,
     std_time_diff = 0, avg_bps = 0, avg_pps = 0, delta_bps_records = [], delta_pps_records = [],
     ipfixPrevious = False, last_observed_ipfix = -1, avg_time_diff_ipfix = 0, std_time_diff_ipfix = 0,
     timeM2_ipfix = 0, counterFlow = 0, byte_total_avg = 0, packet_total_avg = 0, cutoff = 0\<rparr>"

text \<open>\<open>__eq__\<close> and the tuple \<open>__hash__\<close> is computed from.\<close>

definition flow_eq :: "flow \<Rightarrow> flow \<Rightarrow> bool" where
  "flow_eq f g = (let ((d, s), (dp, sp)) = endpoints f; ((d', s'), (dp', sp')) = endpoints g in
     py_eq d d' \<and> py_eq s s' \<and> py_eq dp dp' \<and> py_eq sp sp')"

text \<open>The rates, computed inside the \<open>try\<close>: a zero time difference leaves them as they were.\<close>

definition update_rates :: "unit result \<Rightarrow> rat \<Rightarrow> flow \<Rightarrow> flow \<times> unit result" where
  "update_rates raw_input time_diff f =
     (if time_diff = 0 then (f, raw_input)
      else (let bps = of_int (byte_diff f) / time_diff; pps = of_int (packet_diff f) / time_diff;
                n = of_nat (counter f) in
        (f\<lparr>avg_bps := (avg_bps f * n + bps) / (n + 1), avg_pps := (avg_pps f * n + pps) / (n + 1),
           delta_bps_records := delta_bps_records f @ [bps],
           delta_pps_records := delta_pps_records f @ [pps]\<rparr>, Inr ())))"

definition update_times :: "rat \<Rightarrow> rat \<Rightarrow> flow \<Rightarrow> flow" where
  "update_times end_time time_diff f =
     (let n = counter f + 1; delta = time_diff - avg_time_diff f;
          avg = avg_time_diff f + delta / of_nat n; m2 = timeM2 f + delta * (time_diff - avg)
      in f\<lparr>last_observed := end_time, counter := n, avg_time_diff := avg, timeM2 := m2,
           std_time_diff := (if n > 2 then m2 / of_nat (n - 1) else std_time_diff f)\<rparr>)"

definition update_idle :: "rat \<Rightarrow> flow \<Rightarrow> flow \<times> unit result" where
  "update_idle end_time f =
     (if ipfixPrevious f \<and> last_observed_ipfix f \<noteq> -1 then
        (let time_diff = end_time - last_observed_ipfix f; delta = time_diff - avg_time_diff_ipfix f;
             n = counterFlow f
         in if n = 0 then (f, Inl ZeroDivisionError)
            else (let avg = avg_time_diff_ipfix f + delta / of_nat n;
                      m2 = timeM2_ipfix f + delta * (time_diff - avg) in
              (f\<lparr>avg_time_diff_ipfix := avg, timeM2_ipfix := m2,
                 std_time_diff_ipfix := (if n > 2 then m2 / of_nat (n - 1) else std_time_diff_ipfix f),
                 ipfixPrevious := False\<rparr>, Inr ())))
      else (f, Inr ()))"

definition elapsed :: "rat \<Rightarrow> flow \<Rightarrow> rat" where
  "elapsed end_time f =
     (if last_observed f \<noteq> -1 then end_time - last_observed f else end_time - startTime f)"

definition update_active :: "unit result \<Rightarrow> rat \<Rightarrow> int \<Rightarrow> int \<Rightarrow> flow \<Rightarrow> flow \<times> unit result" where
  "update_active raw_input end_time octets packets f =
     (let time_diff = elapsed end_time f;
          f1 = f\<lparr>byte_diff := \<bar>octets - byte_diff f\<bar>, packet_diff := \<bar>packets - packet_diff f\<bar>\<rparr>
      in (case update_rates raw_input time_diff f1 of
            (f2, Inl e) \<Rightarrow> (f2, Inl e)
          | (f2, Inr _) \<Rightarrow> update_idle end_time (update_times end_time time_diff f2)))"

definition update_session :: "rat \<Rightarrow> int \<Rightarrow> int \<Rightarrow> string \<Rightarrow> flow \<Rightarrow> flow" where
  "update_session end_time octets packets subType f =
     (if subType = ''ipfix'' then
        (let n = int (counterFlow f) in
         f\<lparr>byte_diff := 0, packet_diff := 0, last_observed := end_time,
           byte_total_avg := (byte_total_avg f * n + octets) div (n + 1),
           packet_total_avg := (packet_total_avg f * n + packets) div (n + 1),
           counterFlow := counterFlow f + 1, ipfixPrevious := True, last_observed_ipfix := end_time,
           last_OctetObserved := 0\<rparr>)
      else f\<lparr>last_OctetObserved := octets\<rparr>)"

definition update_flow ::
  "unit result \<Rightarrow> rat \<Rightarrow> int \<Rightarrow> int \<Rightarrow> string \<Rightarrow> flow \<Rightarrow> flow \<times> unit result"
where
  "update_flow raw_input end_time octets packets subType f =
     (case (if octets - last_OctetObserved f > 0 then update_active raw_input end_time octets packets f
            else if octets - last_OctetObserved f < 0 \<and> subType \<noteq> ''prefix'' then (f, raw_input)
            else (f, Inr ())) of
        (f', Inl e) \<Rightarrow> (f', Inl e)
      | (f', Inr _) \<Rightarrow> (update_session end_time octets packets subType f', Inr ()))"

text \<open>The sequence of updates a flow receives, record by record.\<close>

type_synonym sample = "rat \<times> int \<times> int \<times> string"

fun update_flows :: "unit result \<Rightarrow> sample list \<Rightarrow> flow \<Rightarrow> flow \<times> unit result" where
  "update_flows raw_input [] f = (f, Inr ())"
| "update_flows raw_input ((t, octets, packets, subType) # rs) f =
     (case update_flow raw_input t octets packets subType f of
        (f', Inl e) \<Rightarrow> (f', Inl e)
      | (f', Inr _) \<Rightarrow> update_flows raw_input rs f')"

text \<open>\<open>strConstructor\<close> and the row \<open>__str__\<close> prints: the fields \<open>anomaly_detection\<close> reads back.\<close>

definition strConstructor :: "int \<Rightarrow> int \<Rightarrow> rat \<Rightarrow> rat \<Rightarrow> rat \<Rightarrow> rat \<Rightarrow> flow \<Rightarrow> flow" where
  "strConstructor bytes packets bps pps avg std f = f\<lparr>byte_total_avg := bytes, packet_total_avg := packets,
     avg_bps := bps, avg_pps := pps, avg_time_diff := avg, std_time_diff := std\<rparr>"

section \<open>Reading flows back\<close>

text \<open>
  The reading loop of \<open>anomaly_detection\<close> (\<open>IPfixAnomalyDetection_1.py\<close>) on a row of the CSV file: an address, an address, two
  integers and the start time, then \<open>Flow.flow\<close> is called with these five arguments, one less than its constructor
  takes. \<open>float_text\<close> is \<open>float\<close> of a text.
\<close>

definition py_index :: "'a list \<Rightarrow> nat \<Rightarrow> 'a result" where
  "py_index xs n = (if n < length xs then Inr (xs ! n) else Inl IndexError)"

definition read_flow_row :: "(string \<Rightarrow> rat result) \<Rightarrow> string \<Rightarrow> flow result" where
  "read_flow_row float_text row =
     (let vs = split_on CHR '','' row in
      bindE (py_index vs 0) (\<lambda>_. bindE (py_index vs 1) (\<lambda>_.
      bindE (bindE (py_index vs 2) int_of_string) (\<lambda>_. bindE (bindE (py_index vs 3) int_of_string) (\<lambda>_.
      bindE (bindE (py_index vs 4) float_text) (\<lambda>_. Inl TypeError))))))"

fun read_flow_rows :: "(string \<Rightarrow> rat result) \<Rightarrow> (string \<times> string) list \<Rightarrow> (string \<times> flow) list result" where
  "read_flow_rows float_text [] = Inr []"
| "read_flow_rows float_text ((k, row) # rows) =
     bindE (read_flow_row float_text row) (\<lambda>f. bindE (read_flow_rows float_text rows) (\<lambda>fs. Inr ((k, f) # fs)))"

lemma no_flow_is_read: "(\<exists>fs. read_flow_rows float_text rows = Inr fs) \<longleftrightarrow> rows = []"
proof (cases rows)
  case (Cons x rs)
  have "read_flow_row float_text row \<noteq> Inr f" for row f
    by (auto simp: read_flow_row_def Let_def res_simps)
  then show ?thesis using Cons by (cases x) (auto simp: res_simps)
qed simp

section \<open>Means and squared deviations\<close>

definition mean :: "rat list \<Rightarrow> rat" where
  "mean xs = sum_list xs / of_nat (length xs)"

definition squares_about :: "rat \<Rightarrow> rat list \<Rightarrow> rat" where
  "squares_about c xs = (\<Sum>x \<leftarrow> xs. (x - c)\<^sup>2)"

abbreviation ssd :: "rat list \<Rightarrow> rat" where
  "ssd xs \<equiv> squares_about (mean xs) xs"

lemma squares_about_shift:
  "squares_about c xs = squares_about d xs + 2 * (d - c) * (sum_list xs - of_nat (length xs) * d) + of_nat (length xs) * (d - c)\<^sup>2"
  by (induction xs) (simp_all add: squares_about_def algebra_simps power2_eq_square)

lemma mean_snoc: "mean (xs @ [x]) = mean xs + (x - mean xs) / of_nat (length xs + 1)"
proof (cases "xs = []")
  case False
  then have "sum_list xs = of_nat (length xs) * mean xs" by (simp add: mean_def)
  moreover have "(1 + of_nat (length xs) :: rat) \<noteq> 0" using of_nat_0_le_iff[of "length xs", where ?'a = rat] by linarith
  ultimately show ?thesis by (simp add: mean_def[of "xs @ [x]"] add_divide_eq_iff) (simp add: algebra_simps)
qed (simp add: mean_def)

lemma ssd_snoc: "ssd (xs @ [x]) = ssd xs + (x - mean xs) * (x - mean (xs @ [x]))"
proof -
  let ?m = "mean xs" and ?m' = "mean (xs @ [x])" and ?n = "of_nat (length xs) :: rat"
  have n1: "1 + ?n \<noteq> 0" using of_nat_0_le_iff[of "length xs", where ?'a = rat] by linarith
  have sum: "sum_list xs - ?n * ?m = 0" by (cases "xs = []") (simp_all add: mean_def)
  have d: "?m' - ?m = (x - ?m) / (1 + ?n)" by (simp add: mean_snoc)
  then have k: "(1 + ?n) * (?m' - ?m) = x - ?m" using n1 by simp
  have "ssd (xs @ [x]) = squares_about ?m' xs + (x - ?m')\<^sup>2" by (simp add: squares_about_def)
  moreover have "squares_about ?m' xs = ssd xs + ?n * (?m - ?m')\<^sup>2"
    using squares_about_shift[of ?m' xs ?m] sum by simp
  moreover have "?n * (?m - ?m')\<^sup>2 + (x - ?m')\<^sup>2 = (x - ?m) * (x - ?m')"
    using k by algebra
  ultimately show ?thesis by simp
qed

lemma running_mean: "(mean xs * of_nat (length xs) + x) / (of_nat (length xs) + 1) = mean (xs @ [x])"
  by (cases "xs = []") (simp_all add: mean_def add.commute)

section \<open>What an update does\<close>

text \<open>
  The reference: the gaps between the records that count, from the counts and times alone. A record counts when
  its byte count has grown since the previous one, or since zero after a record of type \<open>ipfix\<close>.
\<close>

fun active_gaps :: "int \<Rightarrow> rat \<Rightarrow> sample list \<Rightarrow> rat list" where
  "active_gaps seen prev [] = []"
| "active_gaps seen prev ((t, octets, packets, subType) # rs) =
     (if seen < octets then [t - prev] else []) @
     active_gaps (if subType = ''ipfix'' then 0 else octets)
       (if seen < octets \<or> subType = ''ipfix'' then t else prev) rs"

definition reference_time :: "flow \<Rightarrow> rat" where
  "reference_time f = (if last_observed f \<noteq> -1 then last_observed f else startTime f)"

definition describes :: "flow \<Rightarrow> rat list \<Rightarrow> bool" where
  "describes f gaps \<longleftrightarrow> counter f = length gaps \<and> avg_time_diff f = mean gaps \<and> timeM2 f = ssd gaps \<and>
     std_time_diff f = (if length gaps > 2 then ssd gaps / of_nat (length gaps - 1) else 0) \<and>
     (0 \<notin> set gaps \<longrightarrow> length (delta_bps_records f) = length gaps \<and> avg_bps f = mean (delta_bps_records f) \<and>
        length (delta_pps_records f) = length gaps \<and> avg_pps f = mean (delta_pps_records f)) \<and>
     (ipfixPrevious f \<longrightarrow> 0 < counterFlow f)"

lemma describes_session: "describes f gaps \<Longrightarrow> describes (update_session t octets packets subType f) gaps"
  by (auto simp: describes_def update_session_def Let_def)

lemma describes_times:
  assumes "describes f gaps" and "update_rates (Inr ()) gap (f\<lparr>byte_diff := b, packet_diff := p\<rparr>) = (f2, r)"
  shows "r = Inr ()" "describes (update_times t gap f2) (gaps @ [gap])"
proof -
  show "r = Inr ()" using assms(2) by (auto simp: update_rates_def Let_def split: if_splits)
  have f: "counter f = length gaps" "avg_time_diff f = mean gaps" "timeM2 f = ssd gaps"
    "ipfixPrevious f \<longrightarrow> 0 < counterFlow f"
    "std_time_diff f = (if length gaps > 2 then ssd gaps / of_nat (length gaps - 1) else 0)"
    using assms(1) by (auto simp: describes_def)
  have f2: "counter f2 = counter f" "avg_time_diff f2 = avg_time_diff f" "timeM2 f2 = timeM2 f"
    "ipfixPrevious f2 = ipfixPrevious f" "counterFlow f2 = counterFlow f" "std_time_diff f2 = std_time_diff f"
    using assms(2) by (auto simp: update_rates_def Let_def split: if_splits)
  have avg: "avg_time_diff f2 + (gap - avg_time_diff f2) / of_nat (counter f2 + 1) = mean (gaps @ [gap])"
    by (simp add: f f2 mean_snoc)
  have m2: "timeM2 f2 + (gap - avg_time_diff f2) * (gap - mean (gaps @ [gap])) = ssd (gaps @ [gap])"
    by (simp add: f f2 ssd_snoc)
  have rates: "length (delta_bps_records f2) = length (gaps @ [gap]) \<and> avg_bps f2 = mean (delta_bps_records f2) \<and>
      length (delta_pps_records f2) = length (gaps @ [gap]) \<and> avg_pps f2 = mean (delta_pps_records f2)"
    if "0 \<notin> set (gaps @ [gap])"
  proof -
    have old: "length (delta_bps_records f) = length gaps" "avg_bps f = mean (delta_bps_records f)"
      "length (delta_pps_records f) = length gaps" "avg_pps f = mean (delta_pps_records f)" "gap \<noteq> 0"
      using assms(1) that by (auto simp: describes_def)
    then show ?thesis
      using assms(2) running_mean[of "delta_bps_records f" "of_int b / gap"]
        running_mean[of "delta_pps_records f" "of_int p / gap"]
      by (auto simp: update_rates_def Let_def f(1))
  qed
  have small: "\<not> 2 < length gaps" if "\<not> 2 < Suc (length gaps)" using that by simp
  show "describes (update_times t gap f2) (gaps @ [gap])"
    unfolding describes_def update_times_def Let_def avg m2
    using rates small by (auto simp: f f2)
qed

lemma describes_idle:
  "describes f gaps \<Longrightarrow> snd (update_idle t f) = Inr () \<and> describes (fst (update_idle t f)) gaps \<and>
    last_observed (fst (update_idle t f)) = last_observed f"
  by (simp add: update_idle_def describes_def Let_def) auto

lemma update_flow_describes:
  assumes f: "describes f gaps" and t: "0 \<le> t"
  shows "\<exists>f'. update_flow (Inr ()) t octets packets subType f = (f', Inr ()) \<and>
    describes f' (gaps @ (if last_OctetObserved f < octets then [t - reference_time f] else [])) \<and>
    last_OctetObserved f' = (if subType = ''ipfix'' then 0 else octets) \<and>
    reference_time f' = (if last_OctetObserved f < octets \<or> subType = ''ipfix'' then t else reference_time f)"
proof (cases "last_OctetObserved f < octets")
  case True
  have gap: "elapsed t f = t - reference_time f" by (simp add: elapsed_def reference_time_def)
  obtain f2 r where r: "update_rates (Inr ()) (elapsed t f)
      (f\<lparr>byte_diff := \<bar>octets - byte_diff f\<bar>, packet_diff := \<bar>packets - packet_diff f\<bar>\<rparr>) = (f2, r)" by fastforce
  note d = describes_times[OF f r]
  obtain f3 where f3: "update_idle t (update_times t (elapsed t f) f2) = (f3, Inr ())"
    "describes f3 (gaps @ [elapsed t f])" "last_observed f3 = last_observed (update_times t (elapsed t f) f2)"
    using describes_idle[OF d(2)] by (metis prod.collapse)
  have "update_flow (Inr ()) t octets packets subType f = (update_session t octets packets subType f3, Inr ())"
    using True by (simp add: update_flow_def update_active_def Let_def r d(1) f3(1))
  then show ?thesis using True t f3(3) describes_session[OF f3(2), of t octets packets subType]
    by (auto simp: gap reference_time_def update_session_def update_times_def Let_def)
next
  case False
  then have "update_flow (Inr ()) t octets packets subType f = (update_session t octets packets subType f, Inr ())"
    by (simp add: update_flow_def)
  then show ?thesis using False t describes_session[OF f, of t octets packets subType]
    by (auto simp: reference_time_def update_session_def Let_def)
qed

section \<open>Properties\<close>

text \<open>
  C15: the statistics of a flow are the sample statistics of its records. For a new flow and any records with
  proper times, the updates never fail (the idle average never divides by zero); the time statistics,
  computed one record at a time, are the mean, the sum of squared deviations and (despite its name, and from the third
  gap on) the sample variance \<open>std_time_diff\<close> of the gaps between the records that count; and unless two records have the
  same time the average rates are the means of the recorded rates.
\<close>

theorem flow_statistics:
  assumes "\<forall>(t, octets, packets, subType) \<in> set rs. 0 \<le> t"
  shows "\<exists>f. update_flows (Inr ()) rs (flow_new ends start octets) = (f, Inr ()) \<and>
    (let gaps = active_gaps octets start rs in
       counter f = length gaps \<and> avg_time_diff f = mean gaps \<and> timeM2 f = ssd gaps \<and>
       std_time_diff f = (if length gaps > 2 then ssd gaps / of_nat (length gaps - 1) else 0) \<and>
       (0 \<notin> set gaps \<longrightarrow> length (delta_bps_records f) = length gaps \<and> avg_bps f = mean (delta_bps_records f) \<and>
          avg_pps f = mean (delta_pps_records f)))"
proof -
  have run: "\<exists>f'. update_flows (Inr ()) rs f = (f', Inr ()) \<and>
      describes f' (gaps @ active_gaps (last_OctetObserved f) (reference_time f) rs)"
    if "describes f gaps" for f gaps
    using that assms
  proof (induction rs arbitrary: f gaps)
    case (Cons x rs)
    obtain t o' p sub where x: "x = (t, o', p, sub)" by (cases x) auto
    obtain f1 where f1: "update_flow (Inr ()) t o' p sub f = (f1, Inr ())"
      "describes f1 (gaps @ (if last_OctetObserved f < o' then [t - reference_time f] else []))"
      "last_OctetObserved f1 = (if sub = ''ipfix'' then 0 else o')"
      "reference_time f1 = (if last_OctetObserved f < o' \<or> sub = ''ipfix'' then t else reference_time f)"
      using update_flow_describes[OF Cons.prems(1), of t o' p sub] Cons.prems(2) by (auto simp: x)
    show ?case using Cons.IH[OF f1(2)] Cons.prems(2) by (simp add: x f1(1,3,4))
  qed simp
  have "describes (flow_new ends start octets) []"
    by (simp add: describes_def flow_new_def mean_def squares_about_def)
  from run[OF this] show ?thesis by (auto simp: describes_def flow_new_def reference_time_def Let_def)
qed

text \<open>Three records, two of them with new bytes: an average of two gaps and two rates.\<close>

definition demo_ends :: "(pyval \<times> pyval) \<times> (pyval \<times> pyval)" where
  "demo_ends = ((PyStr ''10.0.0.2'', PyStr ''10.0.0.1''), (PyInt 80, PyInt 4000))"

theorem flow_statistics_witness:
  "\<exists>f. update_flows (Inr ()) [(1, 100, 1, ''prefix''), (3, 500, 4, ''interfix''), (7, 900, 9, ''ipfix'')]
     (flow_new demo_ends 1 100) = (f, Inr ()) \<and> avg_time_diff f = 3 \<and> length (delta_bps_records f) = 2"
proof -
  let ?rs = "[(1, 100, 1, ''prefix''), (3, 500, 4, ''interfix''), (7, 900, 9, ''ipfix'')] :: sample list"
  have "\<forall>(t, octets, packets, subType) \<in> set ?rs. 0 \<le> t" by simp
  from flow_statistics[OF this, of demo_ends 1 100] show ?thesis
    by (simp add: Let_def) (auto simp: mean_def)
qed

text \<open>Within a session every byte count is compared with the previous difference, not with the previous count.\<close>

fun chained :: "int \<Rightarrow> int list \<Rightarrow> int list" where
  "chained d [] = []"
| "chained d (octets # os) = (octets - d) # chained (octets - d) os"

text \<open>
  The recorded rates are not increments. While the byte counts of a session grow, the difference of each
  record is its count less the previous difference, so the rate of the third record of a session is too high by
  all the bytes of the first, and so on alternately; only the first two rates are what the counts say.
\<close>

theorem rates_are_chained_differences:
  assumes "0 \<le> byte_diff f" "byte_diff f \<le> last_OctetObserved f"
    and "sorted_wrt (<) (last_OctetObserved f # map (\<lambda>(t, octets, p). octets) rs)"
    and "sorted_wrt (<) (reference_time f # map (\<lambda>(t, octets, p). t) rs)" "\<forall>(t, octets, p) \<in> set rs. 0 \<le> t"
    and "\<not> ipfixPrevious f"
  shows "\<exists>f'. update_flows raw_input (map (\<lambda>(t, octets, p). (t, octets, p, ''interfix'')) rs) f = (f', Inr ()) \<and>
    delta_bps_records f' = delta_bps_records f @
      map2 (\<lambda>d gap. of_int d / gap) (chained (byte_diff f) (map (\<lambda>(t, octets, p). octets) rs))
        (map2 (-) (map (\<lambda>(t, octets, p). t) rs) (reference_time f # map (\<lambda>(t, octets, p). t) rs))"
  using assms
proof (induction rs arbitrary: f)
  case (Cons x rs)
  obtain t o' p where x: "x = (t, o', p)" by (cases x) auto
  have t: "reference_time f < t" "0 \<le> t" and o': "last_OctetObserved f < o'" using Cons.prems by (auto simp: x)
  have gap: "elapsed t f = t - reference_time f" by (simp add: elapsed_def reference_time_def)
  have "\<exists>f1. update_flow raw_input t o' p ''interfix'' f = (f1, Inr ()) \<and> byte_diff f1 = o' - byte_diff f \<and>
      last_OctetObserved f1 = o' \<and> reference_time f1 = t \<and> \<not> ipfixPrevious f1 \<and>
      delta_bps_records f1 = delta_bps_records f @ [of_int (o' - byte_diff f) / (t - reference_time f)]"
    using Cons.prems(1,2,6) t o' by (simp add: update_flow_def update_active_def update_rates_def update_idle_def
        update_times_def update_session_def gap Let_def reference_time_def[of "_ :: flow"] split del: if_split)
  then obtain f1 where f1: "update_flow raw_input t o' p ''interfix'' f = (f1, Inr ())"
    "byte_diff f1 = o' - byte_diff f" "last_OctetObserved f1 = o'" "reference_time f1 = t" "\<not> ipfixPrevious f1"
    "delta_bps_records f1 = delta_bps_records f @ [of_int (o' - byte_diff f) / (t - reference_time f)]" by blast
  have "0 \<le> byte_diff f1" "byte_diff f1 \<le> last_OctetObserved f1" using Cons.prems(1,2) o' by (simp_all add: f1)
  then show ?case using Cons.IH[of f1] Cons.prems(3,4,5) by (simp add: x f1)
qed simp

text \<open>1000, 1500 and 2100 bytes at one second intervals are recorded as 1000, 500 and 1600 bytes per second.\<close>

theorem rates_are_chained_differences_witness:
  "\<exists>f. update_flows (Inr ()) [(1, 1000, 1, ''interfix''), (2, 1500, 2, ''interfix''), (3, 2100, 3, ''interfix'')]
     (flow_new demo_ends 0 0) = (f, Inr ()) \<and> delta_bps_records f = [1000, 500, 1600]"
  using rates_are_chained_differences[of "flow_new demo_ends 0 0" "[(1, 1000, 1), (2, 1500, 2), (3, 2100, 3)]" "Inr ()"]
  by (simp add: flow_new_def reference_time_def)

end
