(* ===== verification/Threshold_Updater.thy ===== *)
theory Threshold_Updater
  imports Flow_Stats Rpc
begin

text \<open>
  The threshold application: \<open>coordinator/apps/ipfix-threshold-app/thresholdUpdater.py\<close>.

  It polls the IPFIX records, keeps a \<open>flow\<close> object per hash of the four endpoints, and derives a
  threshold from the rates recorded since it last pushed one. The module's globals are the record \<open>updater\<close>.
  Code that is not the application's is an argument: the hash of a tuple, the local clock (\<open>mktime\<close>),
  \<open>numpy\<close>'s standard deviation, \<open>pyflux\<close>' forecast, and what the network answers. An exception other
  than \<open>KeyError\<close> in a record ends the application.
\<close>

section \<open>Dates\<close>

text \<open>
  \<open>strptime\<close> with the two formats of \<open>isoformat\<close>, as seconds of the calendar and microseconds; a field may
  be shorter than the format, and the letters of the format match in either case.
\<close>

definition digits_field :: "nat \<Rightarrow> string \<Rightarrow> nat option" where
  "digits_field n s = (if s = [] \<or> length s > n then None else digits_val 0 s)"

definition day_field :: "string \<Rightarrow> nat option" where
  "day_field s = (case s of [c, d] \<Rightarrow> if c = CHR '' '' then digits_val 0 [d] else digits_field 2 s
     | _ \<Rightarrow> digits_field 2 s)"

definition leap :: "nat \<Rightarrow> bool" where
  "leap y = (y mod 4 = 0 \<and> (y mod 100 \<noteq> 0 \<or> y mod 400 = 0))"

definition month_days :: "nat \<Rightarrow> nat list" where
  "month_days y = [31, if leap y then 29 else 28, 31, 30, 31, 30, 31, 31, 30, 31, 30, 31]"

definition day_number :: "nat \<Rightarrow> nat \<Rightarrow> nat \<Rightarrow> int" where
  "day_number y m d = 365 * int (y - 1) + int ((y - 1) div 4) - int ((y - 1) div 100) + int ((y - 1) div 400) +
     int (sum_list (take (m - 1) (month_days y))) + int d - 719163"

definition date_part :: "string \<Rightarrow> int option" where
  "date_part s = (case split_on CHR ''-'' s of
      [ys, ms, ds] \<Rightarrow>
        (case (if length ys = 4 then digits_val 0 ys else None, digits_field 2 ms, day_field ds) of
           (Some y, Some m, Some d) \<Rightarrow>
             if 1 \<le> y \<and> 1 \<le> m \<and> m \<le> 12 \<and> 1 \<le> d \<and> d \<le> month_days y ! (m - 1) then Some (day_number y m d) else None
         | _ \<Rightarrow> None)
    | _ \<Rightarrow> None)"

definition time_part :: "string \<Rightarrow> int option" where
  "time_part s = (case split_on CHR '':'' s of
      [hs, ms, ss] \<Rightarrow>
        (case (digits_field 2 hs, digits_field 2 ms, digits_field 2 ss) of
           (Some h, Some m, Some sec) \<Rightarrow>
             if h < 24 \<and> m < 60 \<and> sec < 60 then Some (int (3600 * h + 60 * m + sec)) else None
         | _ \<Rightarrow> None)
    | _ \<Rightarrow> None)"

definition strptime :: "string \<Rightarrow> int result" where
  "strptime s = (case split_on CHR ''T'' (map (\<lambda>c. if c = CHR ''t'' then CHR ''T'' else c) s) of
      [d, t] \<Rightarrow> (case (date_part d, time_part t) of
          (Some days, Some secs) \<Rightarrow> Inr (86400 * days + secs) | _ \<Rightarrow> Inl ValueError)
    | _ \<Rightarrow> Inl ValueError)"

definition strptime_frac :: "string \<Rightarrow> (int \<times> rat) result" where
  "strptime_frac s = (case split_on CHR ''.'' s of
      [whole, fs] \<Rightarrow> bindE (strptime whole) (\<lambda>secs.
        (case digits_field 6 fs of
           Some f \<Rightarrow> Inr (secs, of_nat f / 10 ^ length fs) | None \<Rightarrow> Inl ValueError))
    | _ \<Rightarrow> Inl ValueError)"

text \<open>The nested \<open>try\<close> around each date: with a fraction first, then without.\<close>

fun read_time :: "(int \<Rightarrow> rat result) \<Rightarrow> pyval \<Rightarrow> rat result" where
  "read_time mktime (PyStr s) =
     (case strptime_frac s of
        Inr (secs, part) \<Rightarrow> bindE (mktime secs) (\<lambda>t. Inr (t + part))
      | Inl _ \<Rightarrow> bindE (strptime s) mktime)"
| "read_time mktime _ = Inl TypeError"

section \<open>Records\<close>

record updater =
  thresholds :: "(int \<times> rat) list"
  flows :: "(int \<times> flow) list"
  countTypes :: "(pyval \<times> nat) list"
  incoherent :: nat

record updater_conf =
  query_time :: rat
  ml_type :: int
  minimuStep :: int
  margin :: rat
  exponentialSmoothing :: rat

record flow_sample =
  s_ends :: "(pyval \<times> pyval) \<times> (pyval \<times> pyval)"
  s_start :: rat
  s_end :: rat
  s_octets :: int
  s_packets :: int
  s_subtype :: pyval

text \<open>Counters are integers; any other value is treated as one that cannot be subtracted.\<close>

fun count_of :: "pyval \<Rightarrow> int result" where
  "count_of (PyInt i) = Inr i"
| "count_of (PyBool b) = Inr (if b then 1 else 0)"
| "count_of _ = Inl TypeError"

text \<open>The lookups in their order, then the conversions the rest of the round needs.\<close>

definition read_fields :: "(int \<Rightarrow> rat result) \<Rightarrow> pyval \<Rightarrow>
    ((pyval \<times> pyval) \<times> (pyval \<times> pyval) \<times> rat \<times> rat \<times> pyval \<times> pyval \<times> pyval) result" where
  "read_fields mktime j =
     bindE (py_item j ''destinationIPv4Address'') (\<lambda>d.
     bindE (py_item j ''sourceIPv4Address'') (\<lambda>s.
     bindE (py_item j ''destinationTransportPort'') (\<lambda>dp.
     bindE (py_item j ''sourceTransportPort'') (\<lambda>sp.
     bindE (bindE (py_item j ''flowStartMilliseconds'') (read_time mktime)) (\<lambda>start.
     bindE (bindE (py_item j ''flowEndMilliseconds'') (read_time mktime)) (\<lambda>endt.
     bindE (py_item j ''octetDeltaCount'') (\<lambda>oc.
     bindE (py_item j ''packetDeltaCount'') (\<lambda>pc.
     bindE (py_item j ''subtype'') (\<lambda>st.
       Inr ((d, s), (dp, sp), start, endt, oc, pc, st))))))))))"

definition read_sample :: "(int \<Rightarrow> rat result) \<Rightarrow> pyval \<Rightarrow> flow_sample result" where
  "read_sample mktime j =
     bindE (read_fields mktime j) (\<lambda>((d, s), (dp, sp), start, endt, oc, pc, st).
     bindE (hash_key st) (\<lambda>_. bindE (hash_key d) (\<lambda>_. bindE (hash_key s) (\<lambda>_.
     bindE (hash_key dp) (\<lambda>_. bindE (hash_key sp) (\<lambda>_.
     bindE (count_of oc) (\<lambda>o'. bindE (count_of pc) (\<lambda>p.
       Inr \<lparr>s_ends = ((d, s), (dp, sp)), s_start = start, s_end = endt, s_octets = o', s_packets = p,
            s_subtype = st\<rparr>))))))))"

definition count_type :: "pyval \<Rightarrow> (pyval \<times> nat) list \<Rightarrow> (pyval \<times> nat) list" where
  "count_type st m = (case map_of m st of Some n \<Rightarrow> dict_put st (n + 1) m | None \<Rightarrow> dict_put st 1 m)"

definition subtype_text :: "pyval \<Rightarrow> string" where
  "subtype_text v = (case v of PyStr s \<Rightarrow> s | _ \<Rightarrow> ''?'')"

type_synonym hashing = "(pyval \<times> pyval) \<times> (pyval \<times> pyval) \<Rightarrow> int"

text \<open>
  A flow is found by its hash, so flows whose hashes collide share one object. A new object is filed when its update has
  returned; a known one is changed where it is.
\<close>

definition apply_sample :: "hashing \<Rightarrow> unit result \<Rightarrow> flow_sample \<Rightarrow> updater \<Rightarrow> updater \<times> unit result" where
  "apply_sample hash_of raw_input x s =
     (let s1 = s\<lparr>countTypes := count_type (s_subtype x) (countTypes s)\<rparr>; h = hash_of (s_ends x);
          f = (case map_of (flows s) h of Some f \<Rightarrow> f | None \<Rightarrow> flow_new (s_ends x) (s_start x) (s_octets x));
          (f', r) = update_flow raw_input (s_end x) (s_octets x) (s_packets x) (subtype_text (s_subtype x)) f
      in (if r = Inr () \<or> has_key (flows s) h then s1\<lparr>flows := dict_put h f' (flows s)\<rparr> else s1, r))"

definition train_record ::
  "hashing \<Rightarrow> (int \<Rightarrow> rat result) \<Rightarrow> unit result \<Rightarrow> pyval \<Rightarrow> updater \<Rightarrow> updater \<times> unit result"
where
  "train_record hash_of mktime raw_input j s =
     (case read_sample mktime j of
        Inl KeyError \<Rightarrow> (s\<lparr>incoherent := incoherent s + 1\<rparr>, Inr ())
      | Inl e \<Rightarrow> (s, Inl e)
      | Inr x \<Rightarrow> apply_sample hash_of raw_input x s)"

fun train_records ::
  "hashing \<Rightarrow> (int \<Rightarrow> rat result) \<Rightarrow> unit result \<Rightarrow> pyval list \<Rightarrow> updater \<Rightarrow> updater \<times> unit result"
where
  "train_records hash_of mktime raw_input [] s = (s, Inr ())"
| "train_records hash_of mktime raw_input (j # js) s =
     (case train_record hash_of mktime raw_input j s of
        (s', Inl e) \<Rightarrow> (s', Inl e)
      | (s', Inr _) \<Rightarrow> train_records hash_of mktime raw_input js s')"

section \<open>Thresholds\<close>

text \<open>\<open>retrieveThresholds\<close>: the thresholds of an earlier run, by the hash in their id.\<close>

definition unsigned_decimal :: "string \<Rightarrow> rat result" where
  "unsigned_decimal s = (let (whole, part) = (case split_on CHR ''.'' s of [w] \<Rightarrow> (w, []) | [w, f] \<Rightarrow> (w, f) | _ \<Rightarrow> ([], []))
     in (if whole @ part = [] then Inl ValueError
         else (case digits_val 0 (whole @ part) of
                 Some n \<Rightarrow> Inr (of_nat n / 10 ^ length part) | None \<Rightarrow> Inl ValueError)))"

text \<open>\<open>float\<close> of a text in decimal notation; exponents, infinities and \<open>nan\<close> are not read.\<close>

definition float_of_string :: "string \<Rightarrow> rat result" where
  "float_of_string s = (case strip s of
      [] \<Rightarrow> Inl ValueError
    | c # cs \<Rightarrow> (if c = CHR ''-'' then bindE (unsigned_decimal cs) (\<lambda>q. Inr (- q))
                else unsigned_decimal (if c = CHR ''+'' then cs else c # cs)))"

fun float_of :: "pyval \<Rightarrow> rat result" where
  "float_of (PyStr s) = float_of_string s"
| "float_of v = (case num_of v of Some q \<Rightarrow> Inr q | None \<Rightarrow> Inl TypeError)"

fun retrieve_thresholds :: "pydict \<Rightarrow> (int \<times> rat) list \<Rightarrow> (int \<times> rat) list result" where
  "retrieve_thresholds [] m = Inr m"
| "retrieve_thresholds ((key, v) # items) m =
     (if is_prefix ''ipfix_'' key then
        bindE (bindE (py_item v ''threshold'') float_of) (\<lambda>q.
        bindE (int_of_string (drop 6 key)) (\<lambda>h.
          retrieve_thresholds items (dict_put h q m)))
      else retrieve_thresholds items m)"

definition slice_from :: "int \<Rightarrow> 'a list \<Rightarrow> 'a list" where
  "slice_from i xs = drop (nat (if i < 0 then int (length xs) + i else i)) xs"

definition truncate_int :: "rat \<Rightarrow> int" where
  "truncate_int q = (if 0 \<le> q then \<lfloor>q\<rfloor> else - \<lfloor>- q\<rfloor>)"

definition updater_payload :: "flow \<Rightarrow> rat \<Rightarrow> pydict" where
  "updater_payload f avg = (let ((d, s), (dp, sp)) = endpoints f in
     [(''subtype'', PyStr ''ipfix''), (''treatment'', PyStr ''snort_mirror''),
      (''fields'', PyDict [(''destinationIPv4Address'', d), (''sourceIPv4Address'', s),
         (''destinationTransportPort'', dp), (''sourceTransportPort'', sp)]),
      (''priority'', PyInt 10), (''metric'', PyStr ''avg_bps''), (''threshold'', PyInt (truncate_int avg))])"

definition updater_request :: "string \<Rightarrow> int \<Rightarrow> flow \<Rightarrow> rat \<Rightarrow> http_req" where
  "updater_request action h f avg = HttpPost
     (''http://127.0.0.1:2401/tennison/thresholds/ipfix/'' @ action @ ''/ipfix_'' @ int_str h)
     (Some (PyDict (updater_payload f avg)))"

definition new_values :: "flow \<Rightarrow> int" where
  "new_values f = int (length (delta_bps_records f)) - int (cutoff f)"

abbreviation cut :: "flow \<Rightarrow> flow" where
  "cut f \<equiv> f\<lparr>cutoff := length (delta_bps_records f)\<rparr>"

text \<open>
  One round of \<open>updateThresholds\<close>: the flow, the thresholds, the requests sent. The mean of no rates is not
  a number, which \<open>int\<close> refuses.
\<close>

definition update_one ::
  "net \<Rightarrow> (rat list \<Rightarrow> rat) \<Rightarrow> updater_conf \<Rightarrow> int \<Rightarrow> flow \<Rightarrow> (int \<times> rat) list
    \<Rightarrow> flow \<times> (int \<times> rat) list \<times> http_req list \<times> unit result"
where
  "update_one net np_std c h f m =
     (if new_values f < minimuStep c then (f, m, [], Inr ())
      else (let rates = slice_from (- new_values f) (delta_bps_records f) in
        if rates = [] then ((if has_key m h then cut f else f), m, [], Inl ValueError)
        else (let avg = mean rates + np_std rates * margin c in
          (case map_of m h of
             Some t \<Rightarrow>
               (if t = avg then (f, m, [], Inr ())
                else (let avg' = avg * exponentialSmoothing c + (1 - exponentialSmoothing c) * t;
                          req = updater_request ''update'' h f avg'
                      in (case net req of
                            Inl e \<Rightarrow> (cut f, m, [req], Inl e)
                          | Inr _ \<Rightarrow> (cut f, dict_put h avg' m, [req], Inr ()))))
           | None \<Rightarrow>
               (let req = updater_request ''add'' h f avg
                in (case net req of
                      Inl e \<Rightarrow> (f, m, [req], Inl e)
                    | Inr _ \<Rightarrow> (cut f, dict_put h avg m, [req], Inr ())))))))"

text \<open>
  One round of \<open>updateThresholdsLLT\<close>: the model is fitted to all rates, and the largest value of the forecast's
  95\% interval becomes the threshold, without smoothing.
\<close>

definition update_one_llt ::
  "net \<Rightarrow> (rat list \<Rightarrow> nat \<Rightarrow> rat result) \<Rightarrow> updater_conf \<Rightarrow> int \<Rightarrow> flow \<Rightarrow> (int \<times> rat) list
    \<Rightarrow> flow \<times> (int \<times> rat) list \<times> http_req list \<times> unit result"
where
  "update_one_llt net forecast c h f m =
     (if new_values f < minimuStep c then (f, m, [], Inr ())
      else (case forecast (delta_bps_records f) (nat (new_values f)) of
         Inl e \<Rightarrow> (f, m, [], Inl e)
       | Inr avg \<Rightarrow>
           (if map_of m h = Some avg then (f, m, [], Inr ())
            else (let req = updater_request (if has_key m h then ''update'' else ''add'') h f avg
              in (case net req of
                    Inl e \<Rightarrow> (f, m, [req], Inl e)
                  | Inr _ \<Rightarrow> (cut f, dict_put h avg m, [req], Inr ()))))))"

text \<open>The loop over the flows; the argument is one of the two rounds.\<close>

fun update_each ::
  "(int \<Rightarrow> flow \<Rightarrow> (int \<times> rat) list \<Rightarrow> flow \<times> (int \<times> rat) list \<times> http_req list \<times> unit result)
    \<Rightarrow> (int \<times> flow) list \<Rightarrow> (int \<times> rat) list
    \<Rightarrow> (int \<times> flow) list \<times> (int \<times> rat) list \<times> http_req list \<times> unit result"
where
  "update_each one [] m = ([], m, [], Inr ())"
| "update_each one ((h, f) # fs) m =
     (case one h f m of
        (f', m', reqs, Inl e) \<Rightarrow> ((h, f') # fs, m', reqs, Inl e)
      | (f', m', reqs, Inr _) \<Rightarrow>
          (case update_each one fs m' of
             (fs', m'', reqs', r) \<Rightarrow> ((h, f') # fs', m'', reqs @ reqs', r)))"

definition update_thresholds ::
  "net \<Rightarrow> (rat list \<Rightarrow> rat) \<Rightarrow> (rat list \<Rightarrow> nat \<Rightarrow> rat result) \<Rightarrow> updater_conf \<Rightarrow> updater
    \<Rightarrow> updater \<times> http_req list \<times> unit result"
where
  "update_thresholds net np_std forecast c s =
     (if ml_type c \<noteq> 0 \<and> ml_type c \<noteq> 1 then (s, [], Inr ())
      else (case update_each (if ml_type c = 0 then update_one net np_std c else update_one_llt net forecast c)
                   (flows s) (thresholds s) of
         (fs, m, reqs, r) \<Rightarrow> (s\<lparr>flows := fs, thresholds := m\<rparr>, reqs, r)))"

text \<open>\<open>training\<close>: one round per answer of the interface.\<close>

fun training ::
  "net \<Rightarrow> (rat list \<Rightarrow> rat) \<Rightarrow> (rat list \<Rightarrow> nat \<Rightarrow> rat result) \<Rightarrow> hashing \<Rightarrow> (int \<Rightarrow> rat result) \<Rightarrow> unit result
    \<Rightarrow> updater_conf \<Rightarrow> pyval list result list \<Rightarrow> updater \<Rightarrow> updater \<times> http_req list \<times> unit result"
where
  "training net np_std forecast hash_of mktime raw_input c [] s = (s, [], Inr ())"
| "training net np_std forecast hash_of mktime raw_input c (answer # rounds) s =
     (let req = HttpGet ''http://127.0.0.1:2401/tennison/ipfix/query/ipfix-threshold-app'' in
      (case answer of
         Inl e \<Rightarrow> (s, [req], Inl e)
       | Inr js \<Rightarrow>
           (case train_records hash_of mktime raw_input js s of
              (s1, Inl e) \<Rightarrow> (s1, [req], Inl e)
            | (s1, Inr _) \<Rightarrow>
                (case update_thresholds net np_std forecast c s1 of
                   (s2, reqs, Inl e) \<Rightarrow> (s2, req # reqs, Inl e)
                 | (s2, reqs, Inr _) \<Rightarrow>
                     (case training net np_std forecast hash_of mktime raw_input c rounds s2 of
                        (s3, reqs', r) \<Rightarrow> (s3, req # reqs @ reqs', r))))))"

section \<open>Lemmas\<close>

text \<open>The records of a hash, and the statistics object they make.\<close>

definition good_record :: "(int \<Rightarrow> rat result) \<Rightarrow> pyval \<Rightarrow> flow_sample \<Rightarrow> bool" where
  "good_record mktime j x \<longleftrightarrow> read_sample mktime j = Inr x \<and> 0 \<le> s_end x"

definition sample_of :: "flow_sample \<Rightarrow> sample" where
  "sample_of x = (s_end x, s_octets x, s_packets x, subtype_text (s_subtype x))"

definition owner :: "flow option \<Rightarrow> flow_sample list \<Rightarrow> flow option" where
  "owner old xs = (case (old, xs) of
      (Some f, _) \<Rightarrow> Some (fst (update_flows (Inr ()) (map sample_of xs) f))
    | (None, []) \<Rightarrow> None
    | (None, x # _) \<Rightarrow>
        Some (fst (update_flows (Inr ()) (map sample_of xs) (flow_new (s_ends x) (s_start x) (s_octets x)))))"

definition described :: "flow \<Rightarrow> bool" where
  "described f \<longleftrightarrow> (\<exists>gaps. describes f gaps)"

lemma described_new: "described (flow_new ends start octets)"
  unfolding described_def by (rule exI[of _ "[]"]) (simp add: describes_def flow_new_def mean_def squares_about_def)

lemma described_update:
  assumes "described f" "0 \<le> t"
  obtains f' where "update_flow (Inr ()) t octets packets subType f = (f', Inr ())" "described f'"
  using assms update_flow_describes unfolding described_def by metis

lemma apply_sample_ok:
  assumes "\<forall>h f. map_of (flows s) h = Some f \<longrightarrow> described f" "0 \<le> s_end x"
  shows "\<exists>s'. apply_sample hash_of (Inr ()) x s = (s', Inr ()) \<and> incoherent s' = incoherent s \<and>
    thresholds s' = thresholds s \<and> (\<forall>h f. map_of (flows s') h = Some f \<longrightarrow> described f) \<and>
    map_of (flows s') = (map_of (flows s))
      (hash_of (s_ends x) := owner (map_of (flows s) (hash_of (s_ends x))) [x])"
proof -
  let ?h = "hash_of (s_ends x)"
  define f where "f = (case map_of (flows s) ?h of Some f \<Rightarrow> f | None \<Rightarrow> flow_new (s_ends x) (s_start x) (s_octets x))"
  have "described f" using assms(1) described_new by (auto simp: f_def split: option.split)
  then obtain f' where f': "update_flow (Inr ()) (s_end x) (s_octets x) (s_packets x) (subtype_text (s_subtype x)) f = (f', Inr ())"
    "described f'" using described_update[OF _ assms(2)] by metis
  have "owner (map_of (flows s) ?h) [x] = Some f'"
    using f'(1) by (simp add: owner_def f_def sample_of_def split: option.splits)
  then show ?thesis using assms(1) f'(2)
    by (simp add: apply_sample_def Let_def f_def[symmetric] f'(1))
qed

lemma owner_again:
  assumes "\<And>f. old = Some f \<Longrightarrow> described f" "0 \<le> s_end x"
  shows "owner (owner old [x]) xs = owner old (x # xs)"
proof -
  define f where "f = (case old of Some f \<Rightarrow> f | None \<Rightarrow> flow_new (s_ends x) (s_start x) (s_octets x))"
  have "described f" using assms(1) described_new by (auto simp: f_def split: option.split)
  then obtain f' where "update_flow (Inr ()) (s_end x) (s_octets x) (s_packets x) (subtype_text (s_subtype x)) f = (f', Inr ())"
    using described_update[OF _ assms(2)] by metis
  then show ?thesis by (cases old) (simp_all add: owner_def f_def sample_of_def)
qed

abbreviation read_as :: "(int \<Rightarrow> rat result) \<Rightarrow> pyval \<Rightarrow> flow_sample option \<Rightarrow> bool" where
  "read_as mktime j y \<equiv> (case y of Some x \<Rightarrow> good_record mktime j x | None \<Rightarrow> read_sample mktime j = Inl KeyError)"

lemma train_records_owner:
  assumes "list_all2 (read_as mktime) js ys" "\<forall>h f. map_of (flows s) h = Some f \<longrightarrow> described f"
  shows "\<exists>s'. train_records hash_of mktime (Inr ()) js s = (s', Inr ()) \<and>
    incoherent s' = incoherent s + length (filter (\<lambda>y. y = None) ys) \<and> thresholds s' = thresholds s \<and>
    (\<forall>h. map_of (flows s') h = owner (map_of (flows s) h) (filter (\<lambda>x. hash_of (s_ends x) = h) (List.map_filter id ys)))"
  using assms
proof (induction js arbitrary: s ys)
  case Nil
  then show ?case by (simp add: owner_def List.map_filter_def split: option.split)
next
  case (Cons j js)
  obtain y ys' where ys: "ys = y # ys'" "read_as mktime j y" "list_all2 (read_as mktime) js ys'"
    using Cons.prems(1) by (auto simp: list_all2_Cons1)
  show ?case
  proof (cases y)
    case None
    then have "train_record hash_of mktime (Inr ()) j s = (s\<lparr>incoherent := incoherent s + 1\<rparr>, Inr ())"
      using ys(2) by (simp add: train_record_def)
    then show ?thesis using Cons.IH[of ys' "s\<lparr>incoherent := incoherent s + 1\<rparr>"] ys Cons.prems(2) None
      by (auto simp: List.map_filter_def)
  next
    case (Some x)
    then have x: "read_sample mktime j = Inr x" "0 \<le> s_end x" using ys(2) by (simp_all add: good_record_def)
    obtain s1 where s1: "apply_sample hash_of (Inr ()) x s = (s1, Inr ())" "incoherent s1 = incoherent s"
      "thresholds s1 = thresholds s" "\<forall>h f. map_of (flows s1) h = Some f \<longrightarrow> described f"
      "map_of (flows s1) = (map_of (flows s))(hash_of (s_ends x) := owner (map_of (flows s) (hash_of (s_ends x))) [x])"
      using apply_sample_ok[OF Cons.prems(2) x(2)] by blast
    have "train_record hash_of mktime (Inr ()) j s = (s1, Inr ())"
      by (simp add: train_record_def x(1) s1(1))
    then show ?thesis using Cons.IH[OF ys(3) s1(4)] ys(1) Some owner_again[OF _ x(2)] Cons.prems(2)
      by (auto simp: s1(2,3,5) List.map_filter_def)
  qed
qed

section \<open>Passes over the flows\<close>

text \<open>
  The contract of a round: it touches the threshold of its own flow only, and after a round that succeeded a
  second one, with no new records, sends nothing.
\<close>

locale settling =
  fixes one :: "int \<Rightarrow> flow \<Rightarrow> (int \<times> rat) list \<Rightarrow> flow \<times> (int \<times> rat) list \<times> http_req list \<times> unit result"
    and step :: int
  assumes own_key: "one h f m = (f', m', reqs, r) \<Longrightarrow> k \<noteq> h \<Longrightarrow> map_of m' k = map_of m k"
    and settled: "0 < step \<Longrightarrow> one h f m = (f', m', reqs, Inr ()) \<Longrightarrow> map_of m2 h = map_of m' h \<Longrightarrow>
      one h f' m2 = (f', m2, [], Inr ())"
begin

lemma pass_keys:
  "update_each one fs m = (fs', m', reqs, r) \<Longrightarrow> k \<notin> set (map fst fs) \<Longrightarrow> map_of m' k = map_of m k"
proof (induction fs arbitrary: m fs' reqs)
  case (Cons x fs)
  obtain h f where x: "x = (h, f)" by (cases x)
  obtain f1 m1 reqs1 r1 where one: "one h f m = (f1, m1, reqs1, r1)" by (cases "one h f m") auto
  have "map_of m1 k = map_of m k" using own_key[OF one] Cons.prems(2) by (simp add: x)
  then show ?case using Cons.prems Cons.IH[of m1] by (cases r1) (auto simp: x one split: prod.splits)
qed simp

lemma pass_settles:
  "0 < step \<Longrightarrow> wf_dict fs \<Longrightarrow> update_each one fs m = (fs', m', reqs, Inr ()) \<Longrightarrow>
    update_each one fs' m' = (fs', m', [], Inr ())"
proof -
  assume step: "0 < step"
  have "update_each one fs' m2 = (fs', m2, [], Inr ())"
    if "wf_dict fs" "update_each one fs m = (fs', m', reqs, Inr ())" "\<forall>h \<in> set (map fst fs). map_of m2 h = map_of m' h" for m2
    using that
  proof (induction fs arbitrary: m fs' reqs)
    case (Cons x fs)
    obtain h f where x: "x = (h, f)" by (cases x)
    obtain f1 m1 reqs1 r1 where one: "one h f m = (f1, m1, reqs1, r1)" by (cases "one h f m") auto
    obtain fs1 reqs' where rest: "r1 = Inr ()" "update_each one fs m1 = (fs1, m', reqs', Inr ())" "fs' = (h, f1) # fs1"
      using Cons.prems(2) by (cases r1) (auto simp: x one split: prod.splits)
    have "map_of m2 h = map_of m1 h"
      using pass_keys[OF rest(2)] Cons.prems(1,3) by (auto simp: x)
    then have "one h f1 m2 = (f1, m2, [], Inr ())" using settled[OF step one[unfolded rest(1)]] by blast
    moreover have "update_each one fs1 m2 = (fs1, m2, [], Inr ())"
      using Cons.IH[OF _ rest(2)] Cons.prems(1,3) by (auto simp: x)
    ultimately show ?case by (simp add: rest(3))
  qed simp
  then show "wf_dict fs \<Longrightarrow> update_each one fs m = (fs', m', reqs, Inr ()) \<Longrightarrow>
    update_each one fs' m' = (fs', m', [], Inr ())" by blast
qed

lemma pass_round:
  assumes "wf_dict fs" "update_each one fs m = (fs', m', reqs, Inr ())" "map_of fs h = Some f"
  obtains m0 m1 f1 reqs1 where "one h f m0 = (f1, m1, reqs1, Inr ())" "map_of m0 h = map_of m h"
    "map_of m1 h = map_of m' h"
  using assms
proof (induction fs arbitrary: m fs' reqs thesis)
  case (Cons x fs)
  obtain k g where x: "x = (k, g)" by (cases x)
  obtain f1 m1 reqs1 r1 where one: "one k g m = (f1, m1, reqs1, r1)" by (cases "one k g m") auto
  obtain fs1 reqs' where rest: "r1 = Inr ()" "update_each one fs m1 = (fs1, m', reqs', Inr ())"
    using Cons.prems(3) by (cases r1) (auto simp: x one split: prod.splits)
  show ?case
  proof (cases "k = h")
    case True
    then show ?thesis using Cons.prems(1)[of m f1 m1 reqs1] Cons.prems(2,4) one rest pass_keys[OF rest(2), of h]
      by (auto simp: x)
  next
    case False
    then have "map_of m1 h = map_of m h" using own_key[OF one] by auto
    then show ?thesis using False Cons.IH[OF _ _ rest(2)] Cons.prems(1,2,4) by (auto simp: x)
  qed
qed simp

end

interpretation plain: settling "update_one net np_std c" "minimuStep c" for net np_std c
proof unfold_locales
  show "map_of m' k = map_of m k" if "update_one net np_std c h f m = (f', m', reqs, r)" "k \<noteq> h" for h f m f' m' reqs r k
    using that by (auto simp: update_one_def Let_def split: if_splits option.splits sum.splits)
  show "update_one net np_std c h f' m2 = (f', m2, [], Inr ())"
    if "0 < minimuStep c" "update_one net np_std c h f m = (f', m', reqs, Inr ())" "map_of m2 h = map_of m' h"
    for h f m f' m' reqs m2
    using that by (auto simp: update_one_def new_values_def Let_def split: if_splits option.splits sum.splits)
qed

interpretation llt: settling "update_one_llt net forecast c" "minimuStep c" for net forecast c
proof unfold_locales
  show "map_of m' k = map_of m k" if "update_one_llt net forecast c h f m = (f', m', reqs, r)" "k \<noteq> h" for h f m f' m' reqs r k
    using that by (auto simp: update_one_llt_def Let_def split: if_splits option.splits sum.splits)
  show "update_one_llt net forecast c h f' m2 = (f', m2, [], Inr ())"
    if "0 < minimuStep c" "update_one_llt net forecast c h f m = (f', m', reqs, Inr ())" "map_of m2 h = map_of m' h"
    for h f m f' m' reqs m2
    using that by (auto simp: update_one_llt_def new_values_def Let_def split: if_splits option.splits sum.splits)
qed

section \<open>Properties\<close>

text \<open>
  C13: every record reaches the flow of its endpoints, and only that one. From a state without flows, records that lack a
  field are counted and skipped, and for every hash the statistics object is what the records with that hash
  make on their own, in their order; a record never fails.
\<close>

theorem records_are_demultiplexed:
  assumes "list_all2 (read_as mktime) js ys" "flows s = []"
  shows "\<exists>s'. train_records hash_of mktime (Inr ()) js s = (s', Inr ()) \<and>
    incoherent s' = incoherent s + length (filter (\<lambda>y. y = None) ys) \<and> thresholds s' = thresholds s \<and>
    (\<forall>h. map_of (flows s') h =
      (case filter (\<lambda>x. hash_of (s_ends x) = h) (List.map_filter id ys) of
         [] \<Rightarrow> None
       | x # xs \<Rightarrow> Some (fst (update_flows (Inr ()) (map sample_of (x # xs))
                        (flow_new (s_ends x) (s_start x) (s_octets x))))))"
  using train_records_owner[OF assms(1), of s hash_of] assms(2)
  by (simp add: owner_def cong: list.case_cong)

definition demo_iso :: pyval where
  "demo_iso = PyStr ''2018-03-01T10:00:00''"

definition demo_iso_frac :: pyval where
  "demo_iso_frac = PyStr ''2018-03-01T10:00:00.250000''"

definition demo_ipfix_record :: pyval where
  "demo_ipfix_record = PyDict [(''destinationIPv4Address'', PyStr ''10.0.0.2''), (''sourceIPv4Address'', PyStr ''10.0.0.1''),
     (''destinationTransportPort'', PyInt 80), (''sourceTransportPort'', PyInt 4000),
     (''flowStartMilliseconds'', demo_iso), (''flowEndMilliseconds'', demo_iso_frac),
     (''octetDeltaCount'', PyInt 100), (''packetDeltaCount'', PyInt 1), (''subtype'', PyStr ''prefix'')]"

definition updater_new :: updater where
  "updater_new = \<lparr>thresholds = [], flows = [], countTypes = [], incoherent = 0\<rparr>"

lemma demo_times:
  "read_time (\<lambda>secs. Inr (of_int secs)) demo_iso = Inr 1519898400"
  "read_time (\<lambda>secs. Inr (of_int secs)) demo_iso_frac = Inr (1519898400 + 1 / 4)"
  by (simp_all add: demo_iso_def demo_iso_frac_def strptime_frac_def strptime_def date_part_def time_part_def
      digits_field_def day_field_def day_number_def month_days_def leap_def digit_of_def upt_conv_Cons del: upt_Suc)

theorem records_are_demultiplexed_witness:
  "\<exists>s'. train_records (\<lambda>_. 5) (\<lambda>secs. Inr (of_int secs)) (Inr ()) [demo_ipfix_record, PyDict []] updater_new = (s', Inr ()) \<and>
     incoherent s' = 1 \<and> map_of (flows s') 5 \<noteq> None"
proof -
  let ?x = "\<lparr>s_ends = ((PyStr ''10.0.0.2'', PyStr ''10.0.0.1''), (PyInt 80, PyInt 4000)),
     s_start = 1519898400, s_end = 1519898400 + 1 / 4, s_octets = 100, s_packets = 1, s_subtype = PyStr ''prefix''\<rparr>"
  have "list_all2 (read_as (\<lambda>secs. Inr (of_int secs))) [demo_ipfix_record, PyDict []] [Some ?x, None]"
    by (simp add: good_record_def read_sample_def read_fields_def demo_ipfix_record_def demo_times)
  from records_are_demultiplexed[OF this, of updater_new "\<lambda>_. 5"]
  show ?thesis by (auto simp: updater_new_def List.map_filter_def)
qed

text \<open>
  C14: pushing thresholds settles. After a pass over the flows that succeeded, with either algorithm, another pass without
  new records in between sends no request and changes nothing: a threshold is neither pushed again nor
  smoothed again.
\<close>

theorem update_settles:
  assumes "0 < minimuStep c" "wf_dict (flows s)"
    and "update_thresholds net np_std forecast c s = (s', reqs, Inr ())"
  shows "update_thresholds net np_std forecast c s' = (s', [], Inr ())"
  using assms(3) plain.pass_settles[OF assms(1,2), of net np_std "thresholds s"]
    llt.pass_settles[OF assms(1,2), of net forecast "thresholds s"]
  by (auto simp: update_thresholds_def split: if_splits prod.splits)

definition demo_updater_conf :: updater_conf where
  "demo_updater_conf = \<lparr>query_time = 2, ml_type = 0, minimuStep = 2, margin = 1, exponentialSmoothing = 1 / 2\<rparr>"

definition demo_rates :: "rat list \<Rightarrow> flow" where
  "demo_rates rates = flow_new demo_ends 0 0\<lparr>delta_bps_records := rates\<rparr>"

theorem update_settles_witness:
  "\<exists>s' reqs. update_thresholds (\<lambda>_. Inr 200) (\<lambda>_. 1) (\<lambda>_ _. Inr 0) demo_updater_conf
       (updater_new\<lparr>flows := [(5, demo_rates [10, 20])]\<rparr>) = (s', reqs, Inr ()) \<and> length reqs = 1 \<and>
     update_thresholds (\<lambda>_. Inr 200) (\<lambda>_. 1) (\<lambda>_ _. Inr 0) demo_updater_conf s' = (s', [], Inr ())"
proof -
  let ?s = "updater_new\<lparr>flows := [(5, demo_rates [10, 20])]\<rparr>"
  obtain s' reqs where s': "update_thresholds (\<lambda>_. Inr 200) (\<lambda>_. 1) (\<lambda>_ _. Inr 0) demo_updater_conf ?s = (s', reqs, Inr ())"
    "length reqs = 1"
    by (simp add: update_thresholds_def demo_updater_conf_def update_one_def new_values_def demo_rates_def flow_new_def
        updater_new_def slice_from_def Let_def)
  have "0 < minimuStep demo_updater_conf" "wf_dict (flows ?s)" by (simp_all add: demo_updater_conf_def)
  from update_settles[OF this s'(1)] s' show ?thesis by blast
qed

text \<open>The level a flow's recent rates suggest: their mean and a margin of standard deviations.\<close>

definition suggested :: "(rat list \<Rightarrow> rat) \<Rightarrow> updater_conf \<Rightarrow> flow \<Rightarrow> rat" where
  "suggested np_std c f = (let rates = drop (cutoff f) (delta_bps_records f) in mean rates + np_std rates * margin c)"

lemma between: "0 \<le> a \<Longrightarrow> a \<le> 1 \<Longrightarrow> min t q \<le> q * a + (1 - a) * t \<and> q * a + (1 - a) * t \<le> max t (q :: rat)"
proof -
  assume a: "0 \<le> a" "a \<le> 1"
  have eq: "q * a + (1 - a) * t = t + a * (q - t)" by (simp add: algebra_simps)
  show ?thesis
  proof (cases "t \<le> q")
    case True
    then have "0 \<le> a * (q - t)" "a * (q - t) \<le> q - t"
      using a mult_left_le_one_le[of "q - t" a] by simp_all
    then show ?thesis unfolding eq using True by simp
  next
    case False
    then have "a * (q - t) \<le> 0" "q - t \<le> a * (q - t)"
      using a mult_left_le_one_le[of "t - q" a] mult_nonneg_nonneg[of a "t - q"] by (simp_all add: right_diff_distrib)
    then have "q \<le> t + a * (q - t)" "t + a * (q - t) \<le> t" by linarith+
    then show ?thesis unfolding eq min_def max_def using False by presburger
  qed
qed

text \<open>
  Thresholds follow the recent rates. After a successful pass of the basic algorithm a flow with too few new rates has the
  threshold it had; a flow with enough has the suggested level if it had no threshold, and otherwise, the smoothing
  factor being a proportion, one between the old threshold and the suggested level.
\<close>

theorem thresholds_follow_rates:
  assumes "0 < minimuStep c" "0 \<le> exponentialSmoothing c" "exponentialSmoothing c \<le> 1" "ml_type c = 0"
    and "wf_dict (flows s)" "update_thresholds net np_std forecast c s = (s', reqs, Inr ())"
    and "map_of (flows s) h = Some f"
  shows "if new_values f < minimuStep c then map_of (thresholds s') h = map_of (thresholds s) h
    else (case map_of (thresholds s) h of
            None \<Rightarrow> map_of (thresholds s') h = Some (suggested np_std c f)
          | Some t \<Rightarrow> (\<exists>q. map_of (thresholds s') h = Some q \<and> min t (suggested np_std c f) \<le> q \<and>
              q \<le> max t (suggested np_std c f)))"
proof -
  obtain fs' where pass: "update_each (update_one net np_std c) (flows s) (thresholds s) = (fs', thresholds s', reqs, Inr ())"
    using assms(4,6) by (auto simp: update_thresholds_def split: prod.splits)
  obtain m0 m1 f1 reqs1 where one: "update_one net np_std c h f m0 = (f1, m1, reqs1, Inr ())"
    "map_of m0 h = map_of (thresholds s) h" "map_of m1 h = map_of (thresholds s') h"
    by (rule plain.pass_round[OF assms(5) pass assms(7)])
  have window: "slice_from (- new_values f) (delta_bps_records f) = drop (cutoff f) (delta_bps_records f)"
    if "0 < new_values f" using that by (simp add: slice_from_def new_values_def)
  show ?thesis
  proof (cases "new_values f < minimuStep c")
    case True
    then show ?thesis using one by (simp add: update_one_def)
  next
    case False
    then have "0 < new_values f" using assms(1) by linarith
    note w = window[OF this]
    have "drop (cutoff f) (delta_bps_records f) \<noteq> []" using \<open>0 < new_values f\<close> by (simp add: new_values_def)
    moreover have sug: "mean (drop (cutoff f) (delta_bps_records f)) + np_std (drop (cutoff f) (delta_bps_records f)) * margin c
        = suggested np_std c f" by (simp add: suggested_def Let_def)
    ultimately have "map_of m1 h = Some (case map_of m0 h of
        None \<Rightarrow> suggested np_std c f
      | Some t \<Rightarrow> if t = suggested np_std c f then t
          else suggested np_std c f * exponentialSmoothing c + (1 - exponentialSmoothing c) * t)"
      using one(1) False by (auto simp: update_one_def Let_def w sug split: option.splits if_splits sum.splits)
    then show ?thesis using one(2,3) False between[OF assms(2,3)] by (auto split: option.split)
  qed
qed

theorem thresholds_follow_rates_witness:
  "\<exists>s' reqs q. update_thresholds (\<lambda>_. Inr 200) (\<lambda>_. 0) (\<lambda>_ _. Inr 0) demo_updater_conf
       (updater_new\<lparr>flows := [(5, demo_rates [10, 20])], thresholds := [(5, 5)]\<rparr>) = (s', reqs, Inr ()) \<and>
     map_of (thresholds s') 5 = Some q \<and> 5 \<le> q \<and> q \<le> 15"
proof -
  let ?s = "updater_new\<lparr>flows := [(5, demo_rates [10, 20])], thresholds := [(5, 5)]\<rparr>"
  obtain s' reqs where s': "update_thresholds (\<lambda>_. Inr 200) (\<lambda>_. 0) (\<lambda>_ _. Inr 0) demo_updater_conf ?s = (s', reqs, Inr ())"
    by (simp add: update_thresholds_def demo_updater_conf_def update_one_def new_values_def demo_rates_def flow_new_def
        updater_new_def slice_from_def mean_def Let_def)
  have c: "0 < minimuStep demo_updater_conf" "0 \<le> exponentialSmoothing demo_updater_conf"
    "exponentialSmoothing demo_updater_conf \<le> 1" "ml_type demo_updater_conf = 0" "wf_dict (flows ?s)"
    "map_of (flows ?s) 5 = Some (demo_rates [10, 20])"
    by (simp_all add: demo_updater_conf_def)
  from thresholds_follow_rates[OF c(1-5) s' c(6)] s' show ?thesis
    by (auto simp: demo_rates_def flow_new_def new_values_def demo_updater_conf_def suggested_def mean_def)
qed

lemma truncate_int_close: "\<bar>q - of_int (truncate_int q)\<bar> < 1"
proof (cases "0 \<le> q")
  case True
  then show ?thesis using floor_correct[of q] by (simp add: truncate_int_def)
next
  case False
  then show ?thesis using floor_correct[of "- q"] of_int_floor_le[of "- q"] unfolding truncate_int_def by (simp add: abs_less_iff) linarith
qed

text \<open>
  C38: a restart finds the thresholds again. Whatever other thresholds the interface lists, those the application pushed come
  back under the hashes of their flows, each less than one away from the level that was pushed.
\<close>

theorem thresholds_survive_restart:
  assumes "filter (\<lambda>(key, _). is_prefix ''ipfix_'' key) items =
      map (\<lambda>(h, f, q). (''ipfix_'' @ int_str h, PyDict (updater_payload f q))) pushes"
    and "distinct (map fst pushes)"
  shows "\<exists>m. retrieve_thresholds items [] = Inr m \<and> dom (map_of m) = fst ` set pushes \<and>
    (\<forall>(h, f, q) \<in> set pushes. \<exists>t. map_of m h = Some t \<and> \<bar>q - t\<bar> < 1)"
proof -
  have run: "\<exists>m. retrieve_thresholds items m0 = Inr m \<and>
      (\<forall>h. map_of m h = (case map_of pushes h of Some (f, q) \<Rightarrow> Some (of_int (truncate_int q)) | None \<Rightarrow> map_of m0 h))"
    for m0
    using assms
  proof (induction items arbitrary: m0 pushes)
    case (Cons x items)
    obtain key v where x: "x = (key, v)" by (cases x)
    show ?case
    proof (cases "is_prefix ''ipfix_'' key")
      case False
      then show ?thesis using Cons by (simp add: x)
    next
      case True
      then obtain h f q ps where ps: "pushes = (h, f, q) # ps" "key = ''ipfix_'' @ int_str h" "v = PyDict (updater_payload f q)"
        "filter (\<lambda>(key, _). is_prefix ''ipfix_'' key) items =
           map (\<lambda>(h, f, q). (''ipfix_'' @ int_str h, PyDict (updater_payload f q))) ps"
        using Cons.prems(1) by (auto simp: x Cons_eq_map_conv)
      have h: "map_of ps h = None" using Cons.prems(2) by (simp add: ps(1) map_of_eq_None_iff)
      have "retrieve_thresholds (x # items) m0 = retrieve_thresholds items (dict_put h (of_int (truncate_int q)) m0)"
        by (simp add: x ps(2,3) updater_payload_def Let_def case_prod_beta int_of_int_str)
      moreover obtain m where m: "retrieve_thresholds items (dict_put h (of_int (truncate_int q)) m0) = Inr m"
        "\<And>k. map_of m k = (case map_of ps k of Some (f, q) \<Rightarrow> Some (of_int (truncate_int q))
           | None \<Rightarrow> map_of (dict_put h (of_int (truncate_int q)) m0) k)"
        using Cons.IH[OF ps(4), of "dict_put h (of_int (truncate_int q)) m0"] Cons.prems(2) ps(1) by auto
      moreover have "map_of m k = (case map_of pushes k of Some (f, q) \<Rightarrow> Some (of_int (truncate_int q)) | None \<Rightarrow> map_of m0 k)"
        for k by (cases "k = h") (simp_all add: m(2) ps(1) h split: option.split)
      ultimately show ?thesis by auto
    qed
  qed (simp split: option.split)
  obtain m where m: "retrieve_thresholds items [] = Inr m"
    "\<forall>h. map_of m h = (case map_of pushes h of Some (f, q) \<Rightarrow> Some (of_int (truncate_int q)) | None \<Rightarrow> map_of [] h)"
    using run[of "[]"] by blast
  have "dom (map_of m) = dom (map_of pushes)" by (auto simp: m(2) dom_def split: option.splits)
  moreover have "\<exists>t. map_of m h = Some t \<and> \<bar>q - t\<bar> < 1" if "(h, f, q) \<in> set pushes" for h f q
    using map_of_is_SomeI[OF assms(2) that] truncate_int_close[of q] by (simp add: m(2))
  ultimately show ?thesis using m(1) by (auto simp: dom_map_of_conv_image_fst)
qed

theorem thresholds_survive_restart_witness:
  "\<exists>m. retrieve_thresholds [(''other'', PyNone), (''ipfix_-7'', PyDict (updater_payload (demo_rates []) (5 / 2)))] [] = Inr m \<and>
     (\<exists>t. map_of m (-7) = Some t \<and> \<bar>5 / 2 - t\<bar> < 1)"
proof -
  have "filter (\<lambda>(key, _). is_prefix ''ipfix_'' key)
      [(''other'', PyNone), (''ipfix_-7'', PyDict (updater_payload (demo_rates []) (5 / 2)))] =
    map (\<lambda>(h, f, q). (''ipfix_'' @ int_str h, PyDict (updater_payload f q))) [(-7, demo_rates [], 5 / 2)]"
    by (simp add: int_str_def nat_str.simps digit_char_def)
  then show ?thesis using thresholds_survive_restart[of "[(''other'', PyNone), (''ipfix_-7'', PyDict (updater_payload (demo_rates []) (5 / 2)))]"
      "[(-7, demo_rates [], 5 / 2)]"] by auto
qed

end
