(* ===== verification/Gui_Data.thy ===== *)
theory Gui_Data
  imports Rpc
begin

text \<open>
  What the operator interface knows: \<open>coordinator/apps/gui/data_handler.py\<close>, and the part of
  \<open>coordinator/apps/gui/app.py\<close> that pushes it to the browsers.

  The data handler's thread polls the coordinator; the push thread sends what is new to the clients; both
  share the data handler's fields. A body is a JSON object whose items come in some order. An exception in the
  polling loop ends its thread.
\<close>

section \<open>The data handler\<close>

record disk_usage =
  d_used :: int
  d_free :: int
  d_p_used :: rat
  d_p_free :: rat

record gui_data =
  gui_apps :: pyval
  traffic_report :: "pyval list"
  old_thresholds_length :: int
  traffic_dirty :: int
  alerts_dirty :: int
  thresholds_dirty :: int
  gui_alerts :: "pyval list"
  gui_thresholds :: "pyval list"
  gui_disk :: disk_usage

definition gui_new :: gui_data where
  "gui_new = \<lparr>gui_apps = PyDict [], traffic_report = [], old_thresholds_length = -1, traffic_dirty = 0,
     alerts_dirty = 0, thresholds_dirty = 0, gui_alerts = [], gui_thresholds = [],
     gui_disk = \<lparr>d_used = 0, d_free = 0, d_p_used = 0, d_p_free = 0\<rparr>\<rparr>"

text \<open>\<open>getInstance\<close> calls the constructor without its arguments when there is no instance yet.\<close>

definition get_instance :: "gui_data option \<Rightarrow> gui_data result" where
  "get_instance inst = of_option TypeError inst"

definition construct :: "gui_data option \<Rightarrow> gui_data result" where
  "construct inst = (case inst of Some _ \<Rightarrow> Inl (ExnOther ''This class is a singleton!'') | None \<Rightarrow> Inr gui_new)"

text \<open>\<open>d.get(k)\<close>\<close>

fun py_get :: "pyval \<Rightarrow> string \<Rightarrow> pyval result" where
  "py_get (PyDict d) k = Inr (case map_of d k of Some v \<Rightarrow> v | None \<Rightarrow> PyNone)"
| "py_get _ k = Inl AttributeError"

definition base_url :: "string \<Rightarrow> string \<Rightarrow> string" where
  "base_url ip port = ''http://'' @ ip @ '':'' @ port @ ''/tennison''"

type_synonym answers = "http_req \<Rightarrow> pyval result"

definition update_apps :: "answers \<Rightarrow> string \<Rightarrow> string \<Rightarrow> gui_data \<Rightarrow> gui_data \<times> unit result" where
  "update_apps net ip port s =
     (case bindE (net (HttpGet (base_url ip port @ ''/app/query''))) (\<lambda>j. bindE (py_items j) (\<lambda>_. Inr j)) of
        Inl e \<Rightarrow> (s, Inl e) | Inr j \<Rightarrow> (s\<lparr>gui_apps := j\<rparr>, Inr ()))"

text \<open>Registration: a failed connection or a status other than 200 is tried again; other exceptions end the thread.\<close>

fun gui_register :: "int result list \<Rightarrow> nat \<times> bool result" where
  "gui_register [] = (0, Inr False)"
| "gui_register (answer # answers) =
     (case answer of
        Inr status \<Rightarrow> (if status = 200 then (1, Inr True) else (let (n, r) = gui_register answers in (Suc n, r)))
      | Inl ConnectionError \<Rightarrow> (let (n, r) = gui_register answers in (Suc n, r))
      | Inl e \<Rightarrow> (1, Inl e))"

definition add_traffic :: "pyval \<Rightarrow> gui_data \<Rightarrow> gui_data" where
  "add_traffic r s = s\<lparr>traffic_report := traffic_report s @ [r], traffic_dirty := traffic_dirty s + 1\<rparr>"

definition poll_traffic :: "pyval result \<Rightarrow> gui_data \<Rightarrow> gui_data \<times> unit result" where
  "poll_traffic body s = (case bindE body py_items of
      Inl e \<Rightarrow> (s, Inl e) | Inr items \<Rightarrow> (foldl (\<lambda>s item. add_traffic (snd item) s) s items, Inr ()))"

text \<open>A row of the threshold table; a threshold without \<open>treatment_fields\<close> gets the empty text.\<close>

definition threshold_row :: "(pyval \<Rightarrow> string) \<Rightarrow> string \<Rightarrow> pyval \<Rightarrow> pyval result" where
  "threshold_row repr_of key value =
     bindE (py_in ''treatment_fields'' value) (\<lambda>b.
     bindE (if b then Inr value
            else (case value of PyDict d \<Rightarrow> Inr (PyDict (dict_put ''treatment_fields'' (PyStr []) d)) | _ \<Rightarrow> Inl TypeError))
       (\<lambda>value.
     bindE (py_item value ''fields'') (\<lambda>f.
     bindE (py_item value ''priority'') (\<lambda>p.
     bindE (py_item value ''subtype'') (\<lambda>st.
     bindE (py_item value ''treatment'') (\<lambda>t.
     bindE (py_item value ''treatment_fields'') (\<lambda>tf.
       Inr (PyList [PyStr key, PyStr (py_str repr_of f), p, st, t, PyStr (py_str repr_of tf)]))))))))"

fun threshold_rows :: "(pyval \<Rightarrow> string) \<Rightarrow> pydict \<Rightarrow> gui_data \<Rightarrow> gui_data \<times> unit result" where
  "threshold_rows repr_of [] s = (s, Inr ())"
| "threshold_rows repr_of ((k, v) # items) s =
     (case threshold_row repr_of k v of
        Inl e \<Rightarrow> (s, Inl e)
      | Inr row \<Rightarrow> threshold_rows repr_of items (s\<lparr>gui_thresholds := gui_thresholds s @ [row]\<rparr>))"

definition poll_thresholds :: "(pyval \<Rightarrow> string) \<Rightarrow> pyval result \<Rightarrow> gui_data \<Rightarrow> gui_data \<times> unit result" where
  "poll_thresholds repr_of body s = (case body of
      Inl e \<Rightarrow> (s, Inl e)
    | Inr j \<Rightarrow>
        (let n = int (length (gui_thresholds s));
             s1 = (if gui_thresholds s \<noteq> [] \<and> old_thresholds_length s \<noteq> -1 \<and> n > old_thresholds_length s
                   then s\<lparr>thresholds_dirty := n - old_thresholds_length s\<rparr> else s);
             s2 = s1\<lparr>old_thresholds_length := n, gui_thresholds := []\<rparr>
         in (case py_items j of
               Inl e \<Rightarrow> (s2, Inl e) | Inr items \<Rightarrow> threshold_rows repr_of items s2)))"

definition alert_row :: "pyval \<Rightarrow> pyval result" where
  "alert_row value =
     bindE (py_get value ''time'') (\<lambda>t. bindE (py_get value ''alertmsg'') (\<lambda>m. bindE (py_get value ''pkt'') (\<lambda>pkt.
     bindE (py_get pkt ''sourceIPv4Address'') (\<lambda>sa. bindE (py_get pkt ''destinationIPv4Address'') (\<lambda>da.
     bindE (py_get pkt ''sourceTransportPort'') (\<lambda>sp. bindE (py_get pkt ''destinationTransportPort'') (\<lambda>dp.
     bindE (py_get pkt ''protocolIdentifier'') (\<lambda>pr.
       Inr (PyList [t, m, sa, da, sp, dp, pr])))))))))"

fun poll_alert_items :: "pydict \<Rightarrow> gui_data \<Rightarrow> gui_data \<times> unit result" where
  "poll_alert_items [] s = (s, Inr ())"
| "poll_alert_items ((k, v) # items) s =
     (case alert_row v of
        Inl e \<Rightarrow> (s, Inl e)
      | Inr row \<Rightarrow> poll_alert_items items
          (s\<lparr>gui_alerts := gui_alerts s @ [row], alerts_dirty := alerts_dirty s + 1\<rparr>))"

definition poll_alerts :: "pyval result \<Rightarrow> gui_data \<Rightarrow> gui_data \<times> unit result" where
  "poll_alerts body s = (case bindE body py_items of Inl e \<Rightarrow> (s, Inl e) | Inr items \<Rightarrow> poll_alert_items items s)"

text \<open>Sizes in GiB, rounded down by the integer division.\<close>

definition poll_disk :: "int \<Rightarrow> int \<Rightarrow> rat \<Rightarrow> gui_data \<Rightarrow> gui_data" where
  "poll_disk used free percent s = s\<lparr>gui_disk := \<lparr>d_used = used div 1073741824, d_free = free div 1073741824,
     d_p_used = percent, d_p_free = 100 - percent\<rparr>\<rparr>"

text \<open>One round of the loop: the answers to the three requests, and the disk.\<close>

definition poll_round ::
  "(pyval \<Rightarrow> string) \<Rightarrow> pyval result \<Rightarrow> pyval result \<Rightarrow> pyval result \<Rightarrow> int \<times> int \<times> rat
    \<Rightarrow> gui_data \<Rightarrow> gui_data \<times> unit result"
where
  "poll_round repr_of ipfix_body thr_body snort_body disk s =
     (case poll_traffic ipfix_body s of
        (s1, Inl e) \<Rightarrow> (s1, Inl e)
      | (s1, Inr _) \<Rightarrow>
          (case poll_thresholds repr_of thr_body s1 of
             (s2, Inl e) \<Rightarrow> (s2, Inl e)
           | (s2, Inr _) \<Rightarrow>
               (case poll_alerts snort_body s2 of
                  (s3, Inl e) \<Rightarrow> (s3, Inl e)
                | (s3, Inr _) \<Rightarrow> (poll_disk (fst disk) (fst (snd disk)) (snd (snd disk)) s3, Inr ()))))"

fun poll_rounds ::
  "(pyval \<Rightarrow> string) \<Rightarrow> (pyval result \<times> pyval result \<times> pyval result \<times> int \<times> int \<times> rat) list
    \<Rightarrow> gui_data \<Rightarrow> gui_data \<times> unit result"
where
  "poll_rounds repr_of [] s = (s, Inr ())"
| "poll_rounds repr_of ((a, b, c, d) # rounds) s =
     (case poll_round repr_of a b c d s of
        (s', Inl e) \<Rightarrow> (s', Inl e) | (s', Inr _) \<Rightarrow> poll_rounds repr_of rounds s')"

section \<open>Pushing to the clients\<close>

text \<open>The slice \<open>xs[-n:]\<close> of an integer \<open>n\<close>.\<close>

definition newest :: "int \<Rightarrow> 'a list \<Rightarrow> 'a list" where
  "newest n xs = (if n \<le> 0 then drop (nat (- n)) xs else drop (length xs - nat n) xs)"

definition report_row :: "pyval \<Rightarrow> pyval result" where
  "report_row report =
     bindE (mapE (py_get report) [''time'', ''subtype'', ''sourceIPv4Address'', ''destinationIPv4Address'',
       ''sourceTransportPort'', ''destinationTransportPort'', ''octetDeltaCount'']) (\<lambda>vs. Inr (PyList vs))"

text \<open>\<open>get_new_ipfix\<close> and \<open>get_new_alert\<close> reset the counter they read.\<close>

definition get_new_ipfix :: "gui_data \<Rightarrow> gui_data \<times> pyval list result" where
  "get_new_ipfix s = (s\<lparr>traffic_dirty := 0\<rparr>, mapE report_row (newest (traffic_dirty s) (traffic_report s)))"

definition get_new_alert :: "gui_data \<Rightarrow> gui_data \<times> pyval list" where
  "get_new_alert s = (s\<lparr>alerts_dirty := 0\<rparr>, newest (alerts_dirty s) (gui_alerts s))"

type_synonym emission = "string \<times> pyval list"

text \<open>
  One round of \<open>background_thread\<close>. What is sent under \<open>threshold_update\<close> comes from \<open>get_new_ipfix\<close> too.
\<close>

definition push_ipfix :: "string \<Rightarrow> gui_data \<Rightarrow> gui_data \<times> emission list \<times> unit result" where
  "push_ipfix event s = (case get_new_ipfix s of
      (s', Inl e) \<Rightarrow> (s', [], Inl e) | (s', Inr rows) \<Rightarrow> (s', [(event, rows)], Inr ()))"

definition ipfix_available :: "gui_data \<Rightarrow> bool" where
  "ipfix_available s = (traffic_dirty s > 0)"

definition thresholds_available :: "gui_data \<Rightarrow> bool" where
  "thresholds_available s = (thresholds_dirty s > 0)"

definition alert_available :: "gui_data \<Rightarrow> bool" where
  "alert_available s = (alerts_dirty s > 0)"

lemmas available_defs [simp] = ipfix_available_def thresholds_available_def alert_available_def

definition push_round :: "gui_data \<Rightarrow> gui_data \<times> emission list \<times> unit result" where
  "push_round s =
     (case (if ipfix_available s then push_ipfix ''ipfix_update'' s else (s, [], Inr ())) of
        (s1, em1, Inl e) \<Rightarrow> (s1, em1, Inl e)
      | (s1, em1, Inr _) \<Rightarrow>
          (case (if thresholds_available s1 then push_ipfix ''threshold_update'' s1 else (s1, [], Inr ())) of
             (s2, em2, Inl e) \<Rightarrow> (s2, em1 @ em2, Inl e)
           | (s2, em2, Inr _) \<Rightarrow>
               (if alert_available s2
                then (let (s3, rows) = get_new_alert s2 in (s3, em1 @ em2 @ [(''alert_update'', rows)], Inr ()))
                else (s2, em1 @ em2, Inr ()))))"

text \<open>A client connects: everything counts as delivered.\<close>

definition client_connect :: "gui_data \<Rightarrow> gui_data" where
  "client_connect s = s\<lparr>traffic_dirty := 0, thresholds_dirty := 0, alerts_dirty := 0\<rparr>"

section \<open>Lemmas\<close>

definition rows :: "pyval list \<Rightarrow> pyval list" where
  "rows rs = map (\<lambda>r. case report_row r of Inr row \<Rightarrow> row | Inl _ \<Rightarrow> PyNone) rs"

fun is_dict :: "pyval \<Rightarrow> bool" where
  "is_dict (PyDict d) = True"
| "is_dict _ = False"

lemma report_row_dict: "is_dict r \<Longrightarrow> \<exists>row. report_row r = Inr row"
  by (cases r) (simp_all add: report_row_def)

lemma mapE_rows: "\<forall>r \<in> set rs. is_dict r \<Longrightarrow> mapE report_row rs = Inr (rows rs)"
proof (induction rs)
  case (Cons r rs)
  then obtain row where "report_row r = Inr row" using report_row_dict by auto
  then show ?case using Cons by (simp add: rows_def)
qed (simp add: rows_def)

lemma newest_snoc: "0 \<le> n \<Longrightarrow> n \<le> int (length xs) \<Longrightarrow> 0 < n \<Longrightarrow> newest (n + 1) (xs @ [x]) = newest n xs @ [x]"
  by (simp add: newest_def nat_add_distrib Suc_diff_le)

lemma mapE_newest: "\<forall>r \<in> set rs. is_dict r \<Longrightarrow> mapE report_row (newest n rs) = Inr (rows (newest n rs))"
  by (rule mapE_rows) (auto simp: newest_def dest: in_set_dropD split: if_splits)

lemma newest_none [simp]: "newest 0 xs = xs"
  by (simp add: newest_def)

lemma push_ipfix_dicts:
  "\<forall>r \<in> set (traffic_report s). is_dict r \<Longrightarrow>
    push_ipfix ev s = (s\<lparr>traffic_dirty := 0\<rparr>, [(ev, rows (newest (traffic_dirty s) (traffic_report s)))], Inr ())"
  by (simp add: push_ipfix_def get_new_ipfix_def mapE_newest)

section \<open>Runs\<close>

text \<open>The two threads in any order, a record or a push at a time.\<close>

datatype gui_event = Received pyval | Push

fun gui_step :: "gui_event \<Rightarrow> gui_data \<Rightarrow> gui_data \<times> emission list \<times> unit result" where
  "gui_step (Received r) s = (add_traffic r s, [], Inr ())"
| "gui_step Push s = push_round s"

fun gui_run :: "gui_event list \<Rightarrow> gui_data \<Rightarrow> gui_data \<times> emission list \<times> unit result" where
  "gui_run [] s = (s, [], Inr ())"
| "gui_run (e # es) s =
     (case gui_step e s of
        (s', em, Inl x) \<Rightarrow> (s', em, Inl x)
      | (s', em, Inr _) \<Rightarrow> (case gui_run es s' of (s'', em', r) \<Rightarrow> (s'', em @ em', r)))"

fun received_of :: "gui_event list \<Rightarrow> pyval list" where
  "received_of [] = []"
| "received_of (Received r # es) = r # received_of es"
| "received_of (Push # es) = received_of es"

definition sent_rows :: "emission list \<Rightarrow> pyval list" where
  "sent_rows em = concat (map snd (filter (\<lambda>(ev, _). ev = ''ipfix_update'') em))"

text \<open>What is not yet sent; an empty counter means nothing, unlike the slice.\<close>

definition unsent :: "gui_data \<Rightarrow> pyval list" where
  "unsent s = (if traffic_dirty s = 0 then [] else newest (traffic_dirty s) (traffic_report s))"

definition pushable :: "gui_data \<Rightarrow> bool" where
  "pushable s \<longleftrightarrow> 0 \<le> traffic_dirty s \<and> traffic_dirty s \<le> int (length (traffic_report s)) \<and>
     thresholds_dirty s = 0 \<and> alerts_dirty s = 0 \<and> (\<forall>r \<in> set (traffic_report s). is_dict r)"

lemma rows_append: "rows (xs @ ys) = rows xs @ rows ys"
  by (simp add: rows_def)

lemma sent_rows_append [simp]: "sent_rows (xs @ ys) = sent_rows xs @ sent_rows ys"
  by (simp add: sent_rows_def)

lemma unsent_received:
  "pushable s \<Longrightarrow> is_dict r \<Longrightarrow> pushable (add_traffic r s) \<and> unsent (add_traffic r s) = unsent s @ [r]"
  by (auto simp: pushable_def unsent_def add_traffic_def newest_snoc) (simp add: newest_def)

lemma push_pushable:
  assumes "pushable s"
  shows "push_round s = (s\<lparr>traffic_dirty := 0\<rparr>, if traffic_dirty s > 0 then [(''ipfix_update'', rows (unsent s))] else [], Inr ())"
proof (cases "traffic_dirty s > 0")
  case True
  then show ?thesis using assms push_ipfix_dicts[of s "''ipfix_update''"]
    by (simp add: push_round_def pushable_def unsent_def)
next
  case False
  then have "traffic_dirty s = 0" using assms by (simp add: pushable_def)
  then show ?thesis using assms by (simp add: push_round_def pushable_def)
qed

section \<open>Properties\<close>


definition demo_report :: "int \<Rightarrow> pyval" where
  "demo_report n = PyDict [(''subtype'', PyStr ''ipfix''), (''octetDeltaCount'', PyInt n)]"


text \<open>
  New thresholds flood the clients with traffic. Once the number of thresholds has grown, every push round sends the
  rows of all traffic ever reported, and no threshold, as a threshold update, and the counter is never reset by
  a push, so the next round does it again.
\<close>

theorem threshold_push_repeats_traffic:
  assumes "thresholds_dirty s > 0" "0 \<le> traffic_dirty s" "\<forall>r \<in> set (traffic_report s). is_dict r"
  shows "\<exists>s' em. push_round s = (s', em, Inr ()) \<and> (''threshold_update'', rows (traffic_report s)) \<in> set em \<and>
    thresholds_dirty s' = thresholds_dirty s \<and> traffic_dirty s' = 0 \<and> traffic_report s' = traffic_report s"
proof -
  define s1 where "s1 = s\<lparr>traffic_dirty := 0\<rparr>"
  have same: "s1 = s" if "traffic_dirty s = 0" using that by (simp add: s1_def)
  have 1: "\<exists>em. (if traffic_dirty s > 0 then push_ipfix ''ipfix_update'' s else (s, [], Inr ())) = (s1, em, Inr ())"
  proof (cases "traffic_dirty s > 0")
    case True
    then show ?thesis using push_ipfix_dicts[OF assms(3), of "''ipfix_update''"] by (simp add: s1_def)
  next
    case False
    then show ?thesis using same assms(2) by simp
  qed
  have 2: "push_ipfix ''threshold_update'' s1 = (s1, [(''threshold_update'', rows (traffic_report s))], Inr ())"
    using push_ipfix_dicts[of s1 "''threshold_update''"] assms(3) by (simp add: s1_def)
  obtain em where em: "(if traffic_dirty s > 0 then push_ipfix ''ipfix_update'' s else (s, [], Inr ())) = (s1, em, Inr ())"
    using 1 by blast
  have s1: "thresholds_dirty s1 = thresholds_dirty s" "traffic_dirty s1 = 0" "traffic_report s1 = traffic_report s"
    by (simp_all add: s1_def)
  show ?thesis
    unfolding push_round_def ipfix_available_def em
    by (cases "alerts_dirty s1 > 0") (simp_all add: 2 s1 assms(1) get_new_alert_def)
qed

theorem threshold_push_repeats_traffic_witness:
  "\<exists>s' em. push_round (gui_new\<lparr>traffic_report := [demo_report 1, demo_report 2], thresholds_dirty := 1\<rparr>) = (s', em, Inr ()) \<and>
     (''threshold_update'', rows [demo_report 1, demo_report 2]) \<in> set em"
  using threshold_push_repeats_traffic[of "gui_new\<lparr>traffic_report := [demo_report 1, demo_report 2], thresholds_dirty := 1\<rparr>"]
  by (auto simp: gui_new_def demo_report_def)

lemma traffic_items:
  "foldl (\<lambda>s item. add_traffic (snd item) s) s items =
    s\<lparr>traffic_report := traffic_report s @ map snd items, traffic_dirty := traffic_dirty s + int (length items)\<rparr>"
  by (induction items arbitrary: s) (simp_all add: add_traffic_def)

lemma alert_items:
  "poll_alert_items items s = (s', Inr ()) \<Longrightarrow> \<exists>rws. length rws = length items \<and>
    s' = s\<lparr>gui_alerts := gui_alerts s @ rws, alerts_dirty := alerts_dirty s + int (length items)\<rparr>"
proof (induction items arbitrary: s)
  case (Cons x items)
  obtain k v where x: "x = (k, v)" by (cases x)
  obtain row where row: "alert_row v = Inr row" using Cons.prems by (auto simp: x split: sum.splits)
  obtain rws where "length rws = length items"
    "s' = s\<lparr>gui_alerts := (gui_alerts s @ [row]) @ rws, alerts_dirty := alerts_dirty s + 1 + int (length items)\<rparr>"
    using Cons.IH[of "s\<lparr>gui_alerts := gui_alerts s @ [row], alerts_dirty := alerts_dirty s + 1\<rparr>"] Cons.prems
    by (auto simp: x row)
  then show ?case by (intro exI[of _ "row # rws"]) (simp add: algebra_simps)
qed simp

lemma threshold_items:
  "threshold_rows repr_of items s = (s', Inr ()) \<Longrightarrow> \<exists>rws. mapE (\<lambda>(k, v). threshold_row repr_of k v) items = Inr rws \<and>
    s' = s\<lparr>gui_thresholds := gui_thresholds s @ rws\<rparr>"
proof (induction items arbitrary: s)
  case (Cons x items)
  obtain k v where x: "x = (k, v)" by (cases x)
  obtain row where row: "threshold_row repr_of k v = Inr row" using Cons.prems by (auto simp: x split: sum.splits)
  show ?case using Cons.IH[of "s\<lparr>gui_thresholds := gui_thresholds s @ [row]\<rparr>"] Cons.prems by (auto simp: x row)
qed simp

text \<open>
  A poll accounts for everything it got. After a successful round the traffic and alert lists have grown by exactly the records
  and alerts of the answers, the counters of what is new by their numbers, and the threshold table is that of the last
  answer alone, whatever it held before.
\<close>

theorem poll_accounts:
  assumes "poll_round repr_of (Inr (PyDict recs)) (Inr (PyDict thrs)) (Inr (PyDict alerts)) disk s = (s', Inr ())"
  shows "traffic_report s' = traffic_report s @ map snd recs \<and> traffic_dirty s' = traffic_dirty s + int (length recs) \<and>
    mapE (\<lambda>(k, v). threshold_row repr_of k v) thrs = Inr (gui_thresholds s') \<and>
    old_thresholds_length s' = int (length (gui_thresholds s)) \<and>
    (\<exists>rws. length rws = length alerts \<and> gui_alerts s' = gui_alerts s @ rws) \<and>
    alerts_dirty s' = alerts_dirty s + int (length alerts)"
proof -
  let ?s1 = "s\<lparr>traffic_report := traffic_report s @ map snd recs, traffic_dirty := traffic_dirty s + int (length recs)\<rparr>"
  have 1: "poll_traffic (Inr (PyDict recs)) s = (?s1, Inr ())" by (simp add: poll_traffic_def traffic_items)
  obtain s2 s3 where 2: "poll_thresholds repr_of (Inr (PyDict thrs)) ?s1 = (s2, Inr ())"
    and 3: "poll_alert_items alerts s2 = (s3, Inr ())" "s' = poll_disk (fst disk) (fst (snd disk)) (snd (snd disk)) s3"
    using assms unfolding poll_round_def 1 by (auto simp: poll_alerts_def split: prod.splits sum.splits)
  define s0 where "s0 = (let n = int (length (gui_thresholds s)) in
      (if gui_thresholds s \<noteq> [] \<and> old_thresholds_length s \<noteq> -1 \<and> n > old_thresholds_length s
       then ?s1\<lparr>thresholds_dirty := n - old_thresholds_length s\<rparr> else ?s1)\<lparr>old_thresholds_length := n, gui_thresholds := []\<rparr>)"
  have s0: "gui_thresholds s0 = []" "old_thresholds_length s0 = int (length (gui_thresholds s))"
    "traffic_report s0 = traffic_report s @ map snd recs" "traffic_dirty s0 = traffic_dirty s + int (length recs)"
    "gui_alerts s0 = gui_alerts s" "alerts_dirty s0 = alerts_dirty s"
    by (simp_all add: s0_def Let_def)
  have "threshold_rows repr_of thrs s0 = (s2, Inr ())"
    using 2 by (simp add: poll_thresholds_def s0_def Let_def cong: if_cong split: if_splits)
  then obtain rws where "mapE (\<lambda>(k, v). threshold_row repr_of k v) thrs = Inr rws" "s2 = s0\<lparr>gui_thresholds := rws\<rparr>"
    using threshold_items s0(1) by fastforce
  moreover obtain as where "length as = length alerts"
    "s3 = s2\<lparr>gui_alerts := gui_alerts s2 @ as, alerts_dirty := alerts_dirty s2 + int (length alerts)\<rparr>"
    using alert_items[OF 3(1)] by blast
  ultimately show ?thesis using s0 by (auto simp: 3(2) poll_disk_def)
qed

text \<open>A poll of one record, one threshold and one alert.\<close>

definition demo_threshold :: pyval where
  "demo_threshold = PyDict [(''fields'', PyNone), (''priority'', PyInt 10), (''subtype'', PyStr ''prefix''),
     (''treatment'', PyStr ''block'')]"

definition demo_alert :: pyval where
  "demo_alert = PyDict [(''alertmsg'', PyStr ''scan''), (''pkt'', PyDict [])]"

theorem poll_accounts_witness:
  "\<exists>s'. poll_round (\<lambda>_. []) (Inr (PyDict [(''1'', demo_report 5)])) (Inr (PyDict [(''t'', demo_threshold)]))
       (Inr (PyDict [(''a'', demo_alert)])) (0, 0, 0) gui_new = (s', Inr ()) \<and>
     traffic_report s' = [demo_report 5] \<and> length (gui_thresholds s') = 1 \<and> alerts_dirty s' = 1"
proof -
  obtain s' where s': "poll_round (\<lambda>_. []) (Inr (PyDict [(''1'', demo_report 5)])) (Inr (PyDict [(''t'', demo_threshold)]))
       (Inr (PyDict [(''a'', demo_alert)])) (0, 0, 0) gui_new = (s', Inr ())" "length (gui_thresholds s') = 1"
    by (simp add: poll_round_def poll_traffic_def poll_thresholds_def poll_alerts_def poll_disk_def add_traffic_def
        threshold_row_def alert_row_def demo_threshold_def demo_alert_def gui_new_def Let_def)
  from poll_accounts[OF s'(1)] s' show ?thesis by (auto simp: gui_new_def)
qed

end
