(* ===== verification/Gui_Views.thy ===== *)
theory Gui_Views
  imports Gui_Data
begin

text \<open>
  The pages and events of the operator interface: \<open>coordinator/apps/gui/views.py\<close>, \<open>user.py\<close>, \<open>loginform.py\<close>
  and the socket events of \<open>app.py\<close>.

  A page is a function of the session, of the view object, whose attributes the template reads, and of the data
  handler. Flask, WTForms and the templates are outside: the answer of a page is a redirect or the name of the
  template, and form validation is an argument.
\<close>

section \<open>Users and the login form\<close>

record user =
  user_id :: string
  user_password :: string

definition USERS :: "(string \<times> string) list" where
  "USERS = [(''tennison'', ''rocks''), (''mary'', ''jane'')]"

definition user_get :: "string \<Rightarrow> user option" where
  "user_get name = map_option (\<lambda>pw. \<lparr>user_id = name, user_password = pw\<rparr>) (map_of USERS name)"

type_synonym form = "(string \<times> string) list"

definition form_field :: "form \<Rightarrow> string \<Rightarrow> string" where
  "form_field form f = (case map_of form f of Some v \<Rightarrow> v | None \<Rightarrow> [])"

definition login_fields :: "string list" where
  "login_fields = [''username'', ''password'']"

text \<open>The form's own method; it raises \<open>ValidationError\<close> in two cases.\<close>

definition validate_login :: "form \<Rightarrow> bool" where
  "validate_login form = (case user_get (form_field form ''username'') of
      None \<Rightarrow> False | Some u \<Rightarrow> user_password u = form_field form ''password'')"

definition login_methods :: "string \<Rightarrow> (form \<Rightarrow> bool) option" where
  "login_methods = Map.empty(''validate_login'' \<mapsto> validate_login)"

text \<open>
  What \<open>validate\<close> of a WTForms form is documented to check: every field is filled (the validators of the two
  fields), and the methods called \<open>validate_\<close> with the name of a field accept.
\<close>

type_synonym validation = "string list \<Rightarrow> (string \<Rightarrow> (form \<Rightarrow> bool) option) \<Rightarrow> form \<Rightarrow> bool"

definition wtforms :: "validation \<Rightarrow> bool" where
  "wtforms validate \<longleftrightarrow> (\<forall>fields methods form. validate fields methods form \<longleftrightarrow>
     (\<forall>f \<in> set fields. strip (form_field form f) \<noteq> [] \<and>
        (\<forall>m. methods (''validate_'' @ f) = Some m \<longrightarrow> m form)))"

section \<open>Sessions and pages\<close>

text \<open>The session is the id of the logged in user, which the user loader turns into a user.\<close>

type_synonym session = "string option"

definition is_authenticated :: "session \<Rightarrow> bool" where
  "is_authenticated sess \<longleftrightarrow> Option.bind sess user_get \<noteq> None"

datatype response = Redirect string | Render string

record admin_view =
  page_header :: string
  free_RAM :: int
  used_RAM :: int
  onos_instances :: int
  snort_instances :: int
  total_alerts :: int
  total_thresholds :: int
  view_alerts :: "pyval list"
  table_alert :: "pyval list"
  view_disk :: disk_usage
  view_apps :: pyval
  ipfix_count :: nat
  prefix_count :: nat
  interfix_count :: nat
  table_report :: "pyval list"
  table_thresholds :: "pyval list"
  hosts :: "pyval list"
  host_flows :: nat
  dest_report :: "pyval list"

text \<open>Pages that only set the header: path, header, template.\<close>

definition chart_pages :: "(string \<times> string \<times> string) list" where
  "chart_pages =
     [(''/blank'', ''Blank'', ''blank''), (''/flot'', ''Flot Charts'', ''flot''), (''/morris'', ''Morris Charts'', ''morris''),
      (''/tables'', ''Tables'', ''tables'')]"

definition operator_pages :: "(string \<times> string \<times> string) list" where
  "operator_pages =
     [(''/thresholds'', ''Thresholds'', ''thresholds''), (''/topology'', ''Topology'', ''topology''),
      (''/settings'', ''Settings'', ''settings''), (''/forms'', ''Forms'', ''forms'')]"

definition ui_pages :: "(string \<times> string \<times> string) list" where
  "ui_pages =
     [(''/ui/panelswells'', ''Panels Wells'', ''ui/panels-wells''), (''/ui/buttons'', ''Buttons'', ''ui/buttons''),
      (''/ui/notifications'', ''Notifications'', ''ui/notifications''), (''/ui/typography'', ''Typography'', ''ui/typography''),
      (''/ui/icons'', ''Icons'', ''ui/icons''), (''/ui/grid'', ''Grid'', ''ui/grid'')]"

definition static_pages :: "(string \<times> string \<times> string) list" where
  "static_pages = chart_pages @ operator_pages @ ui_pages"

datatype page =
    Index | StaticPage string | System | Applications | AlertsPage | IpfixPage | HostsPage string
  | LoginPage bool form | LogoutPage

definition template :: "string \<Rightarrow> response" where
  "template name = Render (''sb-admin/pages/'' @ name @ ''.html'')"

definition page_index :: "gui_data \<Rightarrow> admin_view \<Rightarrow> admin_view \<times> response result" where
  "page_index d v = (v\<lparr>page_header := ''Dashboard'', free_RAM := 20, used_RAM := 50, onos_instances := 1,
      snort_instances := 1, total_alerts := int (length (gui_alerts d)), view_alerts := gui_alerts d,
      view_disk := gui_disk d, total_thresholds := int (length (gui_thresholds d))\<rparr>, Inr (template ''dashboard''))"

definition page_system :: "gui_data \<Rightarrow> admin_view \<Rightarrow> admin_view \<times> response result" where
  "page_system d v = (v\<lparr>view_disk := gui_disk d, page_header := ''System''\<rparr>, Inr (template ''system''))"

definition page_applications :: "gui_data \<Rightarrow> admin_view \<Rightarrow> admin_view \<times> response result" where
  "page_applications d v =
     (v\<lparr>view_apps := gui_apps d, page_header := ''Applications''\<rparr>, Inr (template ''applications''))"

definition page_alerts :: "gui_data \<Rightarrow> admin_view \<Rightarrow> admin_view \<times> response result" where
  "page_alerts d v = (v\<lparr>page_header := ''Alerts'', table_alert := gui_alerts d\<rparr>, Inr (template ''alerts''))"

text \<open>A report that is not an object ends the request after the attributes set so far.\<close>

definition count_report :: "pyval \<Rightarrow> admin_view \<Rightarrow> admin_view \<times> unit result" where
  "count_report report v = (case py_get report ''subtype'' of
      Inl e \<Rightarrow> (v, Inl e)
    | Inr st \<Rightarrow>
        (let v1 = v\<lparr>interfix_count := interfix_count v + (if py_eq st (PyStr ''interfix'') then 1 else 0),
                    prefix_count := prefix_count v + (if py_eq st (PyStr ''prefix'') then 1 else 0),
                    ipfix_count := ipfix_count v + (if py_eq st (PyStr ''ipfix'') then 1 else 0)\<rparr>
         in (case report_row report of
               Inl e \<Rightarrow> (v1, Inl e)
             | Inr row \<Rightarrow> (v1\<lparr>table_report := table_report v1 @ [row]\<rparr>, Inr ()))))"

fun each_report :: "(pyval \<Rightarrow> admin_view \<Rightarrow> admin_view \<times> unit result) \<Rightarrow> pyval list \<Rightarrow> admin_view \<Rightarrow> admin_view \<times> unit result" where
  "each_report f [] v = (v, Inr ())"
| "each_report f (r # rs) v = (case f r v of (v', Inl e) \<Rightarrow> (v', Inl e) | (v', Inr _) \<Rightarrow> each_report f rs v')"

definition page_ipfix :: "gui_data \<Rightarrow> admin_view \<Rightarrow> admin_view \<times> response result" where
  "page_ipfix d v =
     (case each_report count_report (traffic_report d)
        (v\<lparr>ipfix_count := 0, prefix_count := 0, interfix_count := 0, table_report := []\<rparr>) of
        (v', Inl e) \<Rightarrow> (v', Inl e)
      | (v', Inr _) \<Rightarrow> (v'\<lparr>table_thresholds := gui_thresholds d, total_thresholds := int (length (gui_thresholds d)),
          page_header := ''IPFIX''\<rparr>, Inr (template ''ipfix'')))"

definition host_report :: "string \<Rightarrow> pyval \<Rightarrow> admin_view \<Rightarrow> admin_view \<times> unit result" where
  "host_report code report v = (case py_get report ''sourceIPv4Address'' of
      Inl e \<Rightarrow> (v, Inl e)
    | Inr src \<Rightarrow>
        (let v1 = (if \<exists>h \<in> set (hosts v). py_eq h src then v else v\<lparr>hosts := hosts v @ [src]\<rparr>)
         in if py_eq src (PyStr code) then
              (case report_row report of
                 Inl e \<Rightarrow> (v1, Inl e)
               | Inr row \<Rightarrow> (v1\<lparr>dest_report := dest_report v1 @ [row], host_flows := host_flows v1 + 1\<rparr>, Inr ()))
            else (v1, Inr ())))"

definition page_hosts :: "string \<Rightarrow> gui_data \<Rightarrow> admin_view \<Rightarrow> admin_view \<times> response result" where
  "page_hosts code d v =
     (case each_report (host_report code) (traffic_report d)
        (v\<lparr>page_header := code, hosts := [], host_flows := 0, dest_report := []\<rparr>) of
        (v', Inl e) \<Rightarrow> (v', Inl e)
      | (v', Inr _) \<Rightarrow> (v', Inr (template (if code \<noteq> ''Overview'' then ''indiv-hosts'' else ''hosts''))))"

definition page_static :: "string \<Rightarrow> admin_view \<Rightarrow> admin_view \<times> response result" where
  "page_static path v = (case map_of static_pages path of
      None \<Rightarrow> (v, Inl (ExnOther ''NotFound''))
    | Some (h, t) \<Rightarrow> (v\<lparr>page_header := h\<rparr>, Inr (template t)))"

text \<open>\<open>login_view\<close>: \<open>login_user\<close> reads an attribute of the user it is given, which may be None.\<close>

definition page_login :: "validation \<Rightarrow> bool \<Rightarrow> form \<Rightarrow> session \<Rightarrow> session \<times> response result" where
  "page_login validate submitted form sess =
     (if submitted \<and> validate login_fields login_methods form then
        (case user_get (form_field form ''username'') of
           None \<Rightarrow> (sess, Inl AttributeError)
         | Some u \<Rightarrow> (Some (user_id u), Inr (Redirect ''index'')))
      else if is_authenticated sess then (sess, Inr (Redirect ''index''))
      else (sess, Inr (template ''login'')))"

definition guarded ::
  "session \<Rightarrow> (admin_view \<Rightarrow> admin_view \<times> response result) \<Rightarrow> admin_view \<Rightarrow> session \<times> admin_view \<times> response result"
where
  "guarded sess f v = (if \<not> is_authenticated sess then (sess, v, Inr (Redirect ''login_view'')) else (sess, f v))"

fun show_page :: "validation \<Rightarrow> gui_data \<Rightarrow> page \<Rightarrow> session \<times> admin_view \<Rightarrow> session \<times> admin_view \<times> response result" where
  "show_page validate d Index (sess, v) = guarded sess (page_index d) v"
| "show_page validate d (StaticPage path) (sess, v) = guarded sess (page_static path) v"
| "show_page validate d System (sess, v) = guarded sess (page_system d) v"
| "show_page validate d Applications (sess, v) = guarded sess (page_applications d) v"
| "show_page validate d AlertsPage (sess, v) = guarded sess (page_alerts d) v"
| "show_page validate d IpfixPage (sess, v) = guarded sess (page_ipfix d) v"
| "show_page validate d (HostsPage code) (sess, v) = guarded sess (page_hosts code d) v"
| "show_page validate d (LoginPage submitted form) (sess, v) =
     (let (sess', r) = page_login validate submitted form sess in (sess', v, r))"
| "show_page validate d LogoutPage (sess, v) = (None, v, Inr (Redirect ''index''))"

section \<open>Socket events\<close>

text \<open>
  \<open>activate\<close> and \<open>deactivate\<close>: the answer has the status and whether its body is JSON, which only \<open>activate\<close>
  reads. Then the list of applications is fetched again.
\<close>

definition app_event ::
  "(http_req \<Rightarrow> (int \<times> bool) result) \<Rightarrow> answers \<Rightarrow> string \<Rightarrow> string \<Rightarrow> bool \<Rightarrow> pyval \<Rightarrow> gui_data
    \<Rightarrow> gui_data \<times> http_req list \<times> unit result"
where
  "app_event post net ip port active message d =
     (case bindE (py_item message ''appid'') as_str of
        Inl e \<Rightarrow> (d, [], Inl e)
      | Inr appid \<Rightarrow>
          (let req = HttpPost (base_url ip port @ (if active then ''/app/start/'' else ''/app/stop/'') @ appid) None
           in (case post req of
                 Inl e \<Rightarrow> (d, [req], Inl e)
               | Inr (status, is_json) \<Rightarrow>
                   (if active \<and> status = 200 \<and> \<not> is_json then (d, [req], Inl ValueError)
                    else (let (d', r) = update_apps net ip port d
                          in (d', [req, HttpGet (base_url ip port @ ''/app/query'')], r))))))"

text \<open>\<open>test_connect\<close>: the background thread is started with the first client.\<close>

definition connect_event :: "bool \<Rightarrow> gui_data \<Rightarrow> bool \<times> gui_data" where
  "connect_event thread_started d = (True, client_connect d)"

text \<open>\<open>test_message\<close>: the echo counts the messages of the session.\<close>

definition echo_event :: "nat \<Rightarrow> pyval \<Rightarrow> nat \<times> (pyval \<times> nat) result" where
  "echo_event receive_count message =
     (receive_count + 1, bindE (py_item message ''data'') (\<lambda>x. Inr (x, receive_count + 1)))"

section \<open>Lemmas\<close>

definition subtype_is :: "string \<Rightarrow> pyval \<Rightarrow> bool" where
  "subtype_is name r = (case py_get r ''subtype'' of Inr st \<Rightarrow> py_eq st (PyStr name) | Inl _ \<Rightarrow> False)"

definition source_of :: "pyval \<Rightarrow> pyval" where
  "source_of r = (case py_get r ''sourceIPv4Address'' of Inr v \<Rightarrow> v | Inl _ \<Rightarrow> PyNone)"

lemma py_eq_str: "py_eq v (PyStr s) \<longleftrightarrow> v = PyStr s"
  by (cases v) simp_all

lemma disjoint_filters:
  assumes "\<And>x. \<not> (P x \<and> Q x)" "\<And>x. \<not> (P x \<and> R x)" "\<And>x. \<not> (Q x \<and> R x)"
  shows "length (filter P xs) + length (filter Q xs) + length (filter R xs) \<le> length xs"
proof (induction xs)
  case (Cons x xs)
  then show ?case using assms[of x] by (cases "P x"; cases "Q x"; cases "R x") auto
qed simp

lemma rows_simps [simp]: "rows [] = []" "report_row r = Inr row \<Longrightarrow> rows (r # rs) = row # rows rs"
  by (simp_all add: rows_def)

lemma count_reports:
  "\<forall>r \<in> set rs. is_dict r \<Longrightarrow> each_report count_report rs v =
    (v\<lparr>interfix_count := interfix_count v + length (filter (subtype_is ''interfix'') rs),
       prefix_count := prefix_count v + length (filter (subtype_is ''prefix'') rs),
       ipfix_count := ipfix_count v + length (filter (subtype_is ''ipfix'') rs),
       table_report := table_report v @ rows rs\<rparr>, Inr ())"
proof (induction rs arbitrary: v)
  case (Cons r rs)
  then obtain d row where d: "r = PyDict d" "report_row r = Inr row" using report_row_dict[of r] by (cases r) auto
  then show ?case using Cons by (simp add: count_report_def subtype_is_def Let_def)
qed simp

lemma host_reports:
  assumes "\<forall>r \<in> set rs. is_dict r \<and> (source_of r = PyNone \<or> (\<exists>s. source_of r = PyStr s))"
  shows "\<exists>hs. each_report (host_report code) rs v =
      (v\<lparr>hosts := hosts v @ hs, dest_report := dest_report v @ rows (filter (\<lambda>r. source_of r = PyStr code) rs),
         host_flows := host_flows v + length (filter (\<lambda>r. source_of r = PyStr code) rs)\<rparr>, Inr ()) \<and>
    distinct hs \<and> set hs = source_of ` set rs - {x. \<exists>h \<in> set (hosts v). py_eq h x}"
  using assms
proof (induction rs arbitrary: v)
  case (Cons r rs)
  then obtain d row where d: "r = PyDict d" "report_row r = Inr row" using report_row_dict[of r] by (cases r) auto
  have src: "py_get r ''sourceIPv4Address'' = Inr (source_of r)" using d(1) by (simp add: source_of_def)
  have eq: "py_eq (source_of r) x \<longleftrightarrow> source_of r = x" for x using Cons.prems by auto
  let ?known = "\<exists>h \<in> set (hosts v). py_eq h (source_of r)"
  let ?mine = "source_of r = PyStr code"
  define v1 where "v1 = v\<lparr>hosts := (if ?known then hosts v else hosts v @ [source_of r]),
     dest_report := dest_report v @ (if ?mine then [row] else []), host_flows := host_flows v + (if ?mine then 1 else 0)\<rparr>"
  have step: "host_report code r v = (v1, Inr ())"
    by (simp add: host_report_def src d(2) eq v1_def Let_def)
  obtain hs where hs: "each_report (host_report code) rs v1 =
      (v1\<lparr>hosts := hosts v1 @ hs, dest_report := dest_report v1 @ rows (filter (\<lambda>r. source_of r = PyStr code) rs),
         host_flows := host_flows v1 + length (filter (\<lambda>r. source_of r = PyStr code) rs)\<rparr>, Inr ())"
    "distinct hs" "set hs = source_of ` set rs - {x. \<exists>h \<in> set (hosts v1). py_eq h x}"
    using Cons.IH[of v1] Cons.prems by auto
  let ?hs = "(if ?known then [] else [source_of r]) @ hs"
  have "distinct ?hs" using hs(2,3) eq by (auto simp: v1_def)
  moreover have "set ?hs = source_of ` set (r # rs) - {x. \<exists>h \<in> set (hosts v). py_eq h x}"
    using hs(3) eq by (auto simp: v1_def)
  ultimately show ?case using d(2) by (intro exI[of _ ?hs]) (simp add: step hs(1), simp add: v1_def)
qed (intro exI[of _ "[]"], simp)

section \<open>Properties\<close>



text \<open>
  The password is not checked. Form validation calls the methods named after the fields, which are \<open>username\<close> and
  \<open>password\<close>, so \<open>validate_login\<close> is never called: whoever posts the name of a user and any password that is not
  blank is logged in as that user and sees every page; an unknown name is a server error instead of a refusal.
\<close>

theorem any_password_logs_in:
  assumes "wtforms validate" "strip (form_field form ''username'') \<noteq> []" "strip (form_field form ''password'') \<noteq> []"
  shows "page_login validate True form sess =
    (if has_key USERS (form_field form ''username'')
     then (Some (form_field form ''username''), Inr (Redirect ''index'')) else (sess, Inl AttributeError)) \<and>
    (has_key USERS (form_field form ''username'') \<longrightarrow> is_authenticated (fst (page_login validate True form sess)))"
proof -
  have "validate login_fields login_methods form"
    using assms by (simp add: wtforms_def login_fields_def login_methods_def)
  then show ?thesis
    by (auto simp: page_login_def user_get_def has_key_def is_authenticated_def split: option.split)
qed

definition wrong_password :: form where
  "wrong_password = [(''username'', ''mary''), (''password'', ''wrong'')]"

theorem any_password_logs_in_witness:
  "wtforms (\<lambda>fields methods form. \<forall>f \<in> set fields. strip (form_field form f) \<noteq> [] \<and>
      (\<forall>m. methods (''validate_'' @ f) = Some m \<longrightarrow> m form)) \<and>
   \<not> validate_login wrong_password \<and>
   page_login (\<lambda>fields methods form. \<forall>f \<in> set fields. strip (form_field form f) \<noteq> [] \<and>
      (\<forall>m. methods (''validate_'' @ f) = Some m \<longrightarrow> m form)) True wrong_password None = (Some ''mary'', Inr (Redirect ''index''))"
proof -
  let ?validate = "\<lambda>fields (methods :: string \<Rightarrow> (form \<Rightarrow> bool) option) form. \<forall>f \<in> set fields. strip (form_field form f) \<noteq> [] \<and>
      (\<forall>m. methods (''validate_'' @ f) = Some m \<longrightarrow> m form)"
  have w: "wtforms ?validate" by (simp add: wtforms_def)
  have f: "form_field wrong_password ''username'' = ''mary''" "form_field wrong_password ''password'' = ''wrong''"
    by (simp_all add: wrong_password_def form_field_def)
  have "page_login ?validate True wrong_password None = (Some ''mary'', Inr (Redirect ''index''))"
    using any_password_logs_in[OF w, of wrong_password None] f by (simp add: strip_def is_space_def USERS_def)
  moreover have "\<not> validate_login wrong_password"
    by (simp add: validate_login_def f user_get_def USERS_def)
  ultimately show ?thesis using w by simp
qed

text \<open>
  The IPFIX page counts every record under its subtype. To a logged in session whose reports are objects, the page shows a row for every record of
  the data handler, in order, and the three numbers are those of the records with each subtype, so that their sum is
  at most the number of rows.
\<close>

theorem ipfix_page_counts:
  assumes "is_authenticated sess" "\<forall>r \<in> set (traffic_report d). is_dict r"
  shows "\<exists>v'. show_page validate d IpfixPage (sess, v) = (sess, v', Inr (template ''ipfix'')) \<and>
    table_report v' = rows (traffic_report d) \<and>
    ipfix_count v' = length (filter (subtype_is ''ipfix'') (traffic_report d)) \<and>
    prefix_count v' = length (filter (subtype_is ''prefix'') (traffic_report d)) \<and>
    interfix_count v' = length (filter (subtype_is ''interfix'') (traffic_report d)) \<and>
    total_thresholds v' = int (length (gui_thresholds d)) \<and>
    ipfix_count v' + prefix_count v' + interfix_count v' \<le> length (table_report v')"
proof -
  have "length (filter (subtype_is ''ipfix'') rs) + length (filter (subtype_is ''prefix'') rs) +
      length (filter (subtype_is ''interfix'') rs) \<le> length rs" for rs
    by (rule disjoint_filters) (auto simp: subtype_is_def py_eq_str split: sum.splits)
  then show ?thesis using assms
    by (simp add: guarded_def page_ipfix_def count_reports rows_def)
qed

definition logged_in :: session where
  "logged_in = Some ''tennison''"

lemma logged_in_ok: "is_authenticated logged_in"
  by (simp add: is_authenticated_def logged_in_def user_get_def USERS_def)

theorem ipfix_page_counts_witness:
  "\<exists>v'. show_page (\<lambda>_ _ _. True) (gui_new\<lparr>traffic_report := [demo_report 1, demo_report 2]\<rparr>) IpfixPage (logged_in, v) =
     (logged_in, v', Inr (template ''ipfix'')) \<and> ipfix_count v' = 2 \<and> prefix_count v' = 0"
proof -
  let ?d = "gui_new\<lparr>traffic_report := [demo_report 1, demo_report 2]\<rparr>"
  have "\<forall>r \<in> set (traffic_report ?d). is_dict r" by (simp add: demo_report_def)
  from ipfix_page_counts[OF logged_in_ok this, of "\<lambda>_ _ _. True" v] show ?thesis
    by (auto simp: demo_report_def subtype_is_def)
qed

text \<open>
  A host's page is about that host. To a logged in session whose reports have texts or nothing as source, the page lists every
  source address once, and shows exactly the records of the host in the path, in order, with their number;
  what an earlier request left in the view does not matter.
\<close>

theorem hosts_page_correct:
  assumes "is_authenticated sess"
    and "\<forall>r \<in> set (traffic_report d). is_dict r \<and> (source_of r = PyNone \<or> (\<exists>s. source_of r = PyStr s))"
  shows "\<exists>v'. show_page validate d (HostsPage code) (sess, v) =
      (sess, v', Inr (template (if code = ''Overview'' then ''hosts'' else ''indiv-hosts''))) \<and>
    distinct (hosts v') \<and> set (hosts v') = source_of ` set (traffic_report d) \<and>
    dest_report v' = rows (filter (\<lambda>r. source_of r = PyStr code) (traffic_report d)) \<and>
    host_flows v' = length (dest_report v')"
proof -
  obtain hs where "each_report (host_report code) (traffic_report d)
      (v\<lparr>page_header := code, hosts := [], host_flows := 0, dest_report := []\<rparr>) =
      (v\<lparr>page_header := code, hosts := hs, dest_report := rows (filter (\<lambda>r. source_of r = PyStr code) (traffic_report d)),
         host_flows := length (filter (\<lambda>r. source_of r = PyStr code) (traffic_report d))\<rparr>, Inr ())"
    "distinct hs" "set hs = source_of ` set (traffic_report d)"
    using host_reports[OF assms(2), of code "v\<lparr>page_header := code, hosts := [], host_flows := 0, dest_report := []\<rparr>"]
    by auto
  then show ?thesis using assms(1) by (simp add: guarded_def page_hosts_def) (simp add: rows_def)
qed

definition host_record :: "string \<Rightarrow> pyval" where
  "host_record src = PyDict [(''sourceIPv4Address'', PyStr src)]"

theorem hosts_page_correct_witness:
  "\<exists>v'. show_page (\<lambda>_ _ _. True) (gui_new\<lparr>traffic_report := [host_record ''a'', host_record ''b'', host_record ''a'']\<rparr>)
     (HostsPage ''a'') (logged_in, v) = (logged_in, v', Inr (template ''indiv-hosts'')) \<and> host_flows v' = 2 \<and>
     set (hosts v') = {PyStr ''a'', PyStr ''b''}"
proof -
  let ?d = "gui_new\<lparr>traffic_report := [host_record ''a'', host_record ''b'', host_record ''a'']\<rparr>"
  have "\<forall>r \<in> set (traffic_report ?d). is_dict r \<and> (source_of r = PyNone \<or> (\<exists>s. source_of r = PyStr s))"
    by (simp add: host_record_def source_of_def)
  from hosts_page_correct[OF logged_in_ok this, of "\<lambda>_ _ _. True" "''a''" v] show ?thesis
    by (auto simp: host_record_def source_of_def rows_def)
qed

end
