(* ===== verification/Dev_Networks.thy ===== *)
theory Dev_Networks
  imports Rpc
begin

text \<open>
  The development network: \<open>tools/dev/tennison_dev.py\<close>.

  It builds three Mininet networks of 20 hosts and runs one of them with the parts of the system the options ask for.
  Mininet is outside: a network is the list of its nodes and links, and running it is a list of
  commands in their order. The script runs under Python 2, where \<open>/\<close> of integers rounds down.
\<close>

section \<open>Networks\<close>

record network =
  net_controller :: string
  net_hosts :: "string list"
  host_ips :: "string list"
  net_switches :: "string list"
  switch_links :: "(string \<times> string) list"
  host_links :: "(string \<times> string) list"

definition HOSTS :: nat where
  "HOSTS = 20"

definition networkNames :: "string list" where
  "networkNames = [''A'', ''B'', ''C'']"

text \<open>\<open>[xs[i:i + n] for i in xrange(0, len(xs), n)]\<close>; a step of zero raises.\<close>

function chunks :: "nat \<Rightarrow> 'a list \<Rightarrow> 'a list list" where
  "chunks n xs = (if n = 0 \<or> xs = [] then [] else take n xs # chunks n (drop n xs))"
  by pat_completeness auto
termination by (relation "measure (\<lambda>(n, xs). length xs)") auto

declare chunks.simps [simp del]

definition chunked :: "nat \<Rightarrow> 'a list \<Rightarrow> 'a list list result" where
  "chunked n xs = (if n = 0 then Inl ValueError else Inr (chunks n xs))"

definition chain_links :: "string list \<Rightarrow> (string \<times> string) list" where
  "chain_links switches = zip switches (tl switches)"

text \<open>The loops over \<open>sortedHosts\<close>: the overrun goes to the last switch.\<close>

definition spread_hosts :: "string list \<Rightarrow> string list list \<Rightarrow> (string \<times> string) list" where
  "spread_hosts switches groups = concat (map (\<lambda>(si, hs).
     map (\<lambda>h. (if si + 1 < length switches then switches ! si else last switches, h)) hs) (enumerate 0 groups))"

definition create_network :: "nat \<Rightarrow> nat \<Rightarrow> network result" where
  "create_network hosts ni =
     (let hs = map (\<lambda>h. ''h'' @ nat_str h) [1..<hosts + 1];
          ss = map (\<lambda>s. ''s'' @ nat_str ni @ nat_str s) [1..<ni + 2]
      in bindE (chunked (length hs div length ss) hs) (\<lambda>groups.
           Inr \<lparr>net_controller = ''c'' @ nat_str ni @ ''0'', net_hosts = hs,
                host_ips = map (\<lambda>h. ''10.0.0.'' @ nat_str h) [1..<hosts + 1], net_switches = ss,
                switch_links = chain_links ss, host_links = spread_hosts ss groups\<rparr>))"

definition create_networks :: "network list result" where
  "create_networks = mapE (create_network HOSTS) [0, 1, 2]"

section \<open>Running a network\<close>

record options =
  opt_pig :: bool
  opt_mervyn :: bool
  opt_activate :: bool
  opt_deactivate :: bool
  opt_sflow :: bool
  opt_network :: string

datatype dev_command =
    OnosDeactivate | OnosActivate | Request http_req | StartNet string | StopNet string | DeleteIntfs string
  | VethPair nat nat nat | Intf string string | HostCommand string string | StartMervyn | TerminateMervyn | KillSnort
  | SFlowBridge string | StartSFlowtool | StartSFlowRT | KillSFlowtool | KillSFlowRT | CommandLine

definition clear_snort_from_onos :: dev_command where
  "clear_snort_from_onos = Request (HttpGet ''http://127.0.0.1:8181/mervyn/snort/clear'')"

text \<open>\<open>startPig\<close>: the counter numbers the interface pairs; \<open>pig_cmd\<close> is the command of the relay.\<close>

definition start_pig :: "string \<Rightarrow> string \<Rightarrow> nat \<Rightarrow> nat \<times> dev_command list" where
  "start_pig pig_cmd host cnt =
     (let int1 = cnt * 2 + 1; int2 = cnt * 2 + 2; veth = ''veth'' @ nat_str int2;
          addr = ''192.168.'' @ nat_str (cnt + 1) @ ''.2''
      in (cnt + 1, [VethPair int1 int2 (cnt + 1), Intf veth host,
            HostCommand host (''ifconfig '' @ veth @ '' '' @ addr @ '' ; '' @ pig_cmd),
            HostCommand host ''ping 10.0.0.2 -c 1'']))"

text \<open>\<open>startMervyn\<close>: a process started before is terminated first.\<close>

definition start_mervyn :: "bool \<Rightarrow> bool \<times> dev_command list" where
  "start_mervyn started = (True, (if started then [TerminateMervyn] else []) @ [StartMervyn])"

definition choose_network :: "string \<Rightarrow> network list \<Rightarrow> network" where
  "choose_network name nets = (case List.find (\<lambda>(n, net). n = name) (zip networkNames nets) of
      None \<Rightarrow> hd nets | Some (_, net) \<Rightarrow> net)"

text \<open>
  \<open>dev\<close>: the networks are built, the chosen one is started, and after the command line what was started is
  stopped; all three networks are stopped. \<open>mervyn\<close> is not in \<open>procs\<close> when the script starts. Pauses are left out.
\<close>

definition stop_network :: "network \<Rightarrow> dev_command list" where
  "stop_network net = StopNet (net_controller net) # map DeleteIntfs (net_hosts net)"

definition dev_session :: "string \<Rightarrow> options \<Rightarrow> network list \<Rightarrow> network \<Rightarrow> dev_command list" where
  "dev_session pig_cmd opts nets net =
     StartNet (net_controller net) #
     (if opt_pig opts then snd (start_pig pig_cmd ''h1'' 0) else []) @
     (if opt_mervyn opts then snd (start_mervyn False) else []) @
     (if opt_sflow opts then map SFlowBridge (net_switches net) @ [StartSFlowtool, StartSFlowRT] else []) @
     [CommandLine] @
     (if opt_mervyn opts then [TerminateMervyn] else []) @
     (if opt_pig opts then [KillSnort] else []) @
     (if opt_sflow opts then [KillSFlowtool, KillSFlowRT] else []) @
     concat (map stop_network nets)"

text \<open>
  \<open>tennison_dev_multi_snort.py\<close> is the same script with three relays.
\<close>

fun start_pigs :: "string \<Rightarrow> string list \<Rightarrow> nat \<Rightarrow> nat \<times> dev_command list" where
  "start_pigs pig_cmd [] cnt = (cnt, [])"
| "start_pigs pig_cmd (h # hs) cnt =
     (let (cnt1, cmds1) = start_pig pig_cmd h cnt; (cnt2, cmds2) = start_pigs pig_cmd hs cnt1 in (cnt2, cmds1 @ cmds2))"

definition multi_session :: "string \<Rightarrow> options \<Rightarrow> network list \<Rightarrow> network \<Rightarrow> dev_command list" where
  "multi_session pig_cmd opts nets net =
     StartNet (net_controller net) #
     (if opt_pig opts then snd (start_pigs pig_cmd [''h1'', ''h11'', ''h18''] 0) else []) @
     (if opt_mervyn opts then snd (start_mervyn False) else []) @
     (if opt_sflow opts then map SFlowBridge (net_switches net) @ [StartSFlowtool, StartSFlowRT] else []) @
     [CommandLine] @
     (if opt_mervyn opts then [TerminateMervyn] else []) @
     (if opt_pig opts then [KillSnort] else []) @
     (if opt_sflow opts then [KillSFlowtool, KillSFlowRT] else []) @
     concat (map stop_network nets)"

definition dev :: "string \<Rightarrow> options \<Rightarrow> dev_command list result" where
  "dev pig_cmd opts =
     bindE create_networks (\<lambda>nets. Inr (
       (if opt_deactivate opts then [OnosDeactivate] else []) @
       (if opt_activate opts then [OnosActivate] else []) @
       clear_snort_from_onos # dev_session pig_cmd opts nets (choose_network (opt_network opts) nets)))"

text \<open>
  The two scripts differ in the directories they find the parts in, in the network they warn about and in the relays they start.
\<close>

record dev_paths =
  PIG_CMD :: string
  VETH_CMD :: string
  MERVYN_CMD :: "string list"
  MERVYN_ACTIVATE_CMD :: string
  MERVYN_DEACTIVATE_CMD :: string
  SFLOWRT_ACTIVATE_CMD :: string
  SFLOW_ACTIVATE_CMD :: string

definition pig_command :: "string \<Rightarrow> string" where
  "pig_command dir = ''python '' @ dir @ ''pigrelay.py --config '' @ dir @ ''examples/config.yaml  > /dev/null 2>&1 &''"

definition mervyn_command :: "string \<Rightarrow> string list" where
  "mervyn_command dir = [''python3'', dir @ ''mervyn.py'', ''--config'', dir @ ''examples/config.yaml'', ''--thresholds'',
     dir @ ''examples/thresholds.yaml'']"

definition single_paths :: dev_paths where
  "single_paths = (let wrk = ''/home/lyndon/'' in
     \<lparr>PIG_CMD = pig_command (wrk @ ''pigrelay/''), VETH_CMD = wrk @ ''topology/tennison-dev/multiVETH.sh'',
      MERVYN_CMD = mervyn_command (wrk @ ''coordinator/''), MERVYN_ACTIVATE_CMD = wrk @ ''topology/tennison-dev/activate_mervyn'',
      MERVYN_DEACTIVATE_CMD = wrk @ ''topology/tennison-dev/deactivate_mervyn'',
      SFLOWRT_ACTIVATE_CMD = wrk @ ''sflow/sflow-rt/start.sh > /dev/null 2>&1 &'',
      SFLOW_ACTIVATE_CMD = wrk @ ''sflow/sflowtool/src/sflowtool -f 127.0.0.1/7343 &''\<rparr>)"

definition multi_paths :: dev_paths where
  "multi_paths = (let wrk = ''/home/vagrant/secapp/'' in
     \<lparr>PIG_CMD = pig_command (wrk @ ''pigrelay/''), VETH_CMD = wrk @ ''topology/tennison-dev/multiVETH.sh'',
      MERVYN_CMD = mervyn_command (wrk @ ''mervyn/''), MERVYN_ACTIVATE_CMD = wrk @ ''topology/tennison-dev/activate_mervyn'',
      MERVYN_DEACTIVATE_CMD = wrk @ ''topology/tennison-dev/deactivate_mervyn'',
      SFLOWRT_ACTIVATE_CMD = wrk @ ''sflow/sflow-rt/start.sh > /dev/null 2>&1 &'',
      SFLOW_ACTIVATE_CMD = wrk @ ''sflow/sflowtool/src/sflowtool -f 127.0.0.1/7343 &''\<rparr>)"

text \<open>What a command of the session does to the machine: a line for the shell, a process, a signal, or a call of Mininet.\<close>

datatype effect = Sh string | Popen "string list" | Terminated | Http http_req | OnHost string string | Mininet string "string list"

fun command_effect :: "dev_paths \<Rightarrow> dev_command \<Rightarrow> effect" where
  "command_effect p OnosDeactivate = Sh (MERVYN_DEACTIVATE_CMD p @ '' 127.0.0.1'')"
| "command_effect p OnosActivate = Sh (MERVYN_ACTIVATE_CMD p @ '' 127.0.0.1'')"
| "command_effect p (Request r) = Http r"
| "command_effect p (StartNet c) = Mininet ''start'' [c]"
| "command_effect p (StopNet c) = Mininet ''stop'' [c]"
| "command_effect p (DeleteIntfs h) = Mininet ''deleteIntfs'' [h]"
| "command_effect p (VethPair a b n) = Sh (VETH_CMD p @ '' '' @ nat_str a @ '' '' @ nat_str b @ '' '' @ nat_str n)"
| "command_effect p (Intf v h) = Mininet ''Intf'' [v, h]"
| "command_effect p (HostCommand h c) = OnHost h c"
| "command_effect p StartMervyn = Popen (MERVYN_CMD p)"
| "command_effect p TerminateMervyn = Terminated"
| "command_effect p KillSnort = Sh ''pkill snort''"
| "command_effect p (SFlowBridge s) = Sh (''ovs-vsctl -- --id=@sflow create sflow agent='' @ s @
     '' target=\"127.0.0.1\" sampling=10 polling=10 -- -- set bridge '' @ s @ '' sflow=@sflow'')"
| "command_effect p StartSFlowtool = Sh (SFLOW_ACTIVATE_CMD p)"
| "command_effect p StartSFlowRT = Sh (SFLOWRT_ACTIVATE_CMD p)"
| "command_effect p KillSFlowtool = Sh ''pkill sflowtool''"
| "command_effect p KillSFlowRT = Sh ''pkill -f sflowrt''"
| "command_effect p CommandLine = Mininet ''CLI'' []"

definition dev_script :: "options \<Rightarrow> effect list result" where
  "dev_script opts = bindE (dev (PIG_CMD single_paths) opts) (\<lambda>cs. Inr (map (command_effect single_paths) cs))"

definition multi_dev :: "options \<Rightarrow> effect list result" where
  "multi_dev opts =
     bindE create_networks (\<lambda>nets. Inr (map (command_effect multi_paths) (
       (if opt_deactivate opts then [OnosDeactivate] else []) @
       (if opt_activate opts then [OnosActivate] else []) @
       clear_snort_from_onos # multi_session (PIG_CMD multi_paths) opts nets (choose_network (opt_network opts) nets))))"

section \<open>Lemmas\<close>

text \<open>The links, host by host: the group of the host decides.\<close>

lemma spread_chunks:
  "0 < n \<Longrightarrow> concat (map (\<lambda>(si, hs). map (\<lambda>h. (f si, h)) hs) (enumerate k (chunks n xs))) =
    map (\<lambda>(j, h). (f (k + j div n), h)) (enumerate 0 xs)"
proof (induction n xs arbitrary: k rule: chunks.induct)
  case (1 n xs)
  show ?case
  proof (cases "xs = []")
    case True
    then show ?thesis by (simp add: chunks.simps)
  next
    case False
    have first: "map (\<lambda>h. (f k, h)) (take n xs) = map (\<lambda>(j, h). (f (k + j div n), h)) (enumerate 0 (take n xs))"
      by (rule nth_equalityI) (simp_all add: nth_enumerate_eq)
    have shift: "map (\<lambda>(j, h). (f (Suc k + j div n), h)) (enumerate 0 (drop n xs)) =
        map (\<lambda>(j, h). (f (k + j div n), h)) (enumerate (length (take n xs)) (drop n xs))"
      using "1.prems" by (cases "length xs \<le> n")
        (auto intro!: nth_equalityI simp: nth_enumerate_eq min_def)
    have "enumerate 0 xs = enumerate 0 (take n xs) @ enumerate (length (take n xs)) (drop n xs)"
      using enumerate_append_eq[of 0 "take n xs" "drop n xs"] by simp
    then show ?thesis
      using False "1.prems" "1.IH"[of "Suc k"] first shift by (simp add: chunks.simps[of n xs])
  qed
qed

lemma links_of_hosts:
  assumes "0 < n" "switches \<noteq> []"
  shows "spread_hosts switches (chunks n hs) =
    map (\<lambda>(j, h). (switches ! min (j div n) (length switches - 1), h)) (enumerate 0 hs)"
proof -
  have "(if si + 1 < length switches then switches ! si else last switches) = switches ! min si (length switches - 1)" for si
  proof -
    have "min si (length switches - 1) = (if si + 1 < length switches then si else length switches - 1)" by auto
    then show ?thesis using assms(2) by (simp add: last_conv_nth)
  qed
  then show ?thesis using spread_chunks[OF assms(1), of "\<lambda>si. switches ! min si (length switches - 1)" 0]
    by (simp add: spread_hosts_def)
qed

lemma filter_upt_length: "length (filter P [0..<hosts]) = card {j. j < hosts \<and> P j}"
proof -
  have "set (filter P [0..<hosts]) = {j. j < hosts \<and> P j}" by auto
  moreover have "distinct (filter P [0..<hosts])" by simp
  ultimately show ?thesis using distinct_card by metis
qed

lemma count_group:
  assumes "0 < n" "(i + 1) * n \<le> hosts"
  shows "length (filter (\<lambda>j. j div n = i) [0..<hosts]) = n"
proof -
  have "j div n = i \<longleftrightarrow> i \<le> j div n \<and> j div n < i + 1" for j by auto
  then have "j div n = i \<longleftrightarrow> i * n \<le> j \<and> j < (i + 1) * n" for j
    unfolding less_eq_div_iff_mult_less_eq[OF assms(1)] div_less_iff_less_mult[OF assms(1)] by blast
  then have eq: "(j < hosts \<and> j div n = i) \<longleftrightarrow> i * n \<le> j \<and> j < (i + 1) * n" for j
    using assms(2) less_le_trans by blast
  have "{j. j < hosts \<and> j div n = i} = {i * n..<(i + 1) * n}"
    unfolding eq atLeastLessThan_def lessThan_def atLeast_def by blast
  then show ?thesis unfolding filter_upt_length by simp
qed

lemma count_rest:
  assumes "0 < n"
  shows "length (filter (\<lambda>j. i \<le> j div n) [0..<hosts]) = hosts - i * n"
proof -
  have "{j. j < hosts \<and> i \<le> j div n} = {i * n..<hosts}"
    unfolding less_eq_div_iff_mult_less_eq[OF assms] by auto
  then show ?thesis unfolding filter_upt_length by simp
qed

lemma filter_zip_fst: "length xs = length ys \<Longrightarrow> length (filter (\<lambda>(x, y). P x) (zip xs ys)) = length (filter P xs)"
  by (induction xs ys rule: list_induct2) auto

section \<open>Properties\<close>

text \<open>Relays never share an interface: the pairs of any number of relays have different numbers, and each relay gets its own interface.\<close>

fun pairs_of :: "dev_command list \<Rightarrow> nat list" where
  "pairs_of [] = []"
| "pairs_of (VethPair a b n # cs) = a # b # pairs_of cs"
| "pairs_of (c # cs) = pairs_of cs"

fun intfs_of :: "dev_command list \<Rightarrow> (string \<times> string) list" where
  "intfs_of [] = []"
| "intfs_of (Intf v h # cs) = (v, h) # intfs_of cs"
| "intfs_of (c # cs) = intfs_of cs"

theorem relays_have_own_interfaces:
  "pairs_of (snd (start_pigs pig_cmd hs cnt)) = [2 * cnt + 1..<2 * cnt + 1 + 2 * length hs] \<and>
   map snd (intfs_of (snd (start_pigs pig_cmd hs cnt))) = hs \<and> distinct (map fst (intfs_of (snd (start_pigs pig_cmd hs cnt))))"
proof -
  have two: "[a..<a + (2 + n)] = a # (a + 1) # [a + 2..<a + 2 + n]" for a n
    by (simp add: upt_conv_Cons)
  have pairs: "pairs_of (snd (start_pigs pig_cmd hs cnt)) = [2 * cnt + 1..<2 * cnt + 1 + 2 * length hs]"
  proof (induction hs arbitrary: cnt)
    case (Cons h hs)
    have "[2 * cnt + 1..<2 * cnt + 1 + 2 * length (h # hs)] = (2 * cnt + 1) # (2 * cnt + 2) # [2 * Suc cnt + 1..<2 * Suc cnt + 1 + 2 * length hs]"
      using two[of "2 * cnt + 1" "2 * length hs"] by simp
    then show ?case using Cons[of "Suc cnt"] by (simp add: start_pig_def Let_def case_prod_unfold)
  qed simp
  have intfs: "intfs_of (snd (start_pigs pig_cmd hs cnt)) = map (\<lambda>(i, h). (''veth'' @ nat_str (2 * i + 2), h)) (enumerate cnt hs)"
    by (induction hs arbitrary: cnt) (simp_all add: start_pig_def Let_def case_prod_unfold mult.commute)
  have "distinct (map (\<lambda>(i, h). ''veth'' @ nat_str (2 * i + 2)) (enumerate cnt hs))"
    by (induction hs arbitrary: cnt) (auto simp: nat_str_inj in_set_enumerate_eq)
  then show ?thesis unfolding pairs by (simp add: intfs comp_def case_prod_unfold enumerate_eq_zip del: upt_Suc)
qed

text \<open>
  Every host is connected, and the hosts are spread as evenly as the rounding allows. A network with at least as many
  hosts as switches is built; its switches form a chain; each host has exactly one link; all switches but the
  last have the same number of hosts, and the last has the remainder of the division in addition, fewer than there are switches.
\<close>

theorem hosts_spread_evenly:
  assumes "ni + 1 \<le> hosts"
  shows "\<exists>net. create_network hosts ni = Inr net \<and> length (net_switches net) = ni + 1 \<and> distinct (net_switches net) \<and>
    switch_links net = zip (net_switches net) (tl (net_switches net)) \<and>
    map snd (host_links net) = net_hosts net \<and> length (net_hosts net) = hosts \<and> distinct (net_hosts net) \<and>
    (\<forall>i < ni. length (filter (\<lambda>(s, h). s = net_switches net ! i) (host_links net)) = hosts div (ni + 1)) \<and>
    length (filter (\<lambda>(s, h). s = net_switches net ! ni) (host_links net)) = hosts div (ni + 1) + hosts mod (ni + 1)"
proof -
  define hs where "hs = map (\<lambda>h. ''h'' @ nat_str h) [1..<hosts + 1]"
  define ss where "ss = map (\<lambda>s. ''s'' @ nat_str ni @ nat_str s) [1..<ni + 2]"
  define p where "p = hosts div (ni + 1)"
  have len: "length hs = hosts" "length ss = ni + 1" "ss \<noteq> []" by (auto simp: hs_def ss_def)
  have dist: "distinct hs" "distinct ss" by (auto simp: hs_def ss_def distinct_map inj_on_def nat_str_inj)
  have p: "0 < p" using assms by (simp add: p_def div_greater_zero_iff)
  have links: "spread_hosts ss (chunks p hs) = map (\<lambda>(j, h). (ss ! min (j div p) ni, h)) (enumerate 0 hs)"
    using links_of_hosts[OF p len(3), of hs] len(2) by simp
  have at_switch: "length (filter (\<lambda>(s, h). s = ss ! i) (spread_hosts ss (chunks p hs))) =
      length (filter (\<lambda>j. min (j div p) ni = i) [0..<hosts])" if "i \<le> ni" for i
  proof -
    have "(ss ! min (j div p) ni = ss ! i) = (min (j div p) ni = i)" for j
      using that len(2) by (intro nth_eq_iff_index_eq[OF dist(2)]) auto
    then have "length (filter (\<lambda>(s, h). s = ss ! i) (spread_hosts ss (chunks p hs))) =
        length (filter (\<lambda>(j, h). min (j div p) ni = i) (zip [0..<hosts] hs))"
      by (simp add: links filter_map comp_def case_prod_unfold enumerate_eq_zip len(1))
    then show ?thesis using filter_zip_fst[of "[0..<hosts]" hs "\<lambda>j. min (j div p) ni = i"] len(1) by simp
  qed
  have "length (filter (\<lambda>(s, h). s = ss ! i) (spread_hosts ss (chunks p hs))) = p" if "i < ni" for i
  proof -
    have "(i + 1) * p \<le> (ni + 1) * p" using that by (intro mult_right_mono) auto
    also have "\<dots> \<le> hosts" unfolding p_def by (rule times_div_less_eq_dividend)
    finally have "(i + 1) * p \<le> hosts" .
    moreover have "(min (j div p) ni = i) = (j div p = i)" for j using that by (auto simp: min_def)
    ultimately show ?thesis using at_switch[of i] that count_group[OF p] by simp
  qed
  moreover have "length (filter (\<lambda>(s, h). s = ss ! ni) (spread_hosts ss (chunks p hs))) = p + hosts mod (ni + 1)"
  proof -
    have "(min (j div p) ni = ni) = (ni \<le> j div p)" for j by (auto simp: min_def)
    then have "length (filter (\<lambda>(s, h). s = ss ! ni) (spread_hosts ss (chunks p hs))) = hosts - ni * p"
      using at_switch[of ni] count_rest[OF p, of ni hosts] by simp
    moreover have "hosts = (ni + 1) * p + hosts mod (ni + 1)" unfolding p_def by (rule mult_div_mod_eq[symmetric])
    ultimately show ?thesis by (simp add: algebra_simps)
  qed
  moreover have "map snd (spread_hosts ss (chunks p hs)) = hs"
    by (simp add: links comp_def case_prod_unfold enumerate_eq_zip)
  moreover have "create_network hosts ni = Inr \<lparr>net_controller = ''c'' @ nat_str ni @ ''0'', net_hosts = hs,
      host_ips = map (\<lambda>h. ''10.0.0.'' @ nat_str h) [1..<hosts + 1], net_switches = ss,
      switch_links = chain_links ss, host_links = spread_hosts ss (chunks p hs)\<rparr>"
    unfolding create_network_def hs_def[symmetric] ss_def[symmetric] Let_def chunked_def
    using p by (simp only: len p_def[symmetric] bindE.simps) simp
  ultimately show ?thesis using len dist unfolding p_def by (auto simp: chain_links_def)
qed

text \<open>The three networks of the script: 20 hosts on one, two and three switches.\<close>

theorem hosts_spread_evenly_witness:
  "\<exists>net. create_network HOSTS 2 = Inr net \<and> map snd (host_links net) = net_hosts net \<and>
     length (filter (\<lambda>(s, h). s = net_switches net ! 2) (host_links net)) = 8"
proof -
  have "2 + 1 \<le> HOSTS" by (simp add: HOSTS_def)
  from hosts_spread_evenly[OF this] show ?thesis by (auto simp: HOSTS_def)
qed

text \<open>
  The two scripts do the same but for the directories and two more relays: without the option for a relay, what the second does is what the
  first does in its directories.
\<close>

theorem scripts_agree_without_relays:
  assumes "\<not> opt_pig opts"
  shows "\<exists>cs. dev_script opts = Inr (map (command_effect single_paths) cs) \<and> multi_dev opts = Inr (map (command_effect multi_paths) cs)"
proof -
  have "\<exists>nets. create_networks = Inr nets"
    by (simp add: create_networks_def create_network_def chunked_def HOSTS_def Let_def div_greater_zero_iff)
  then obtain nets where nets: "create_networks = Inr nets" by blast
  have same: "multi_session (PIG_CMD multi_paths) opts nets net = dev_session (PIG_CMD single_paths) opts nets net" for net
    using assms by (simp add: multi_session_def dev_session_def)
  show ?thesis unfolding dev_script_def dev_def multi_dev_def nets bindE.simps same by blast
qed

theorem scripts_agree_without_relays_witness:
  "\<exists>cs. dev_script \<lparr>opt_pig = False, opt_mervyn = True, opt_activate = False, opt_deactivate = False, opt_sflow = False, opt_network = ''A''\<rparr> =
     Inr (map (command_effect single_paths) cs)"
  using scripts_agree_without_relays[of "\<lparr>opt_pig = False, opt_mervyn = True, opt_activate = False, opt_deactivate = False, opt_sflow = False, opt_network = ''A''\<rparr>"]
  by auto

end
