(* ===== verification/Dev_Evaluation.thy ===== *)
theory Dev_Evaluation
  imports Dev_Networks Message_Handler
begin

text \<open>
  The evaluation scripts under \<open>tools/dev/old-topos\<close>: the star topology \<open>mervyn_topo.py\<close>, and of \<open>SimpleTopology/components\<close> the
  two stages of the evaluation \<open>mervynEval_stage1.py\<close> and \<open>mervynEval_stage2.py\<close>, the measurements \<open>iperfs.py\<close> and the small
  network \<open>mininetTopo_A.py\<close>.

  As in \<open>Dev_Networks\<close>, a network is the list of its nodes and links and a session the list of its commands.
  What a measurement yields is an argument. Pauses and messages to the user are left out.
\<close>

section \<open>The star topology\<close>

definition star_hosts :: "string list" where
  "star_hosts = map (\<lambda>i. ''h'' @ nat_str i) [0..<9]"

definition star_switches :: "string list" where
  "star_switches = map (\<lambda>i. ''s'' @ nat_str i) [0..<4]"

definition sw_link :: "nat \<Rightarrow> nat" where
  "sw_link x = 1 + x mod (length star_switches - 1)"

definition star_links :: "(string \<times> string) list" where
  "star_links = map (\<lambda>i. (star_switches ! 0, star_switches ! i)) [1..<length star_switches] @
     map (\<lambda>i. (star_hosts ! i, star_switches ! sw_link i)) [0..<length star_hosts]"

section \<open>Networks of the evaluation\<close>

text \<open>
  The host for snort is added after the others, first linked to every switch; the links of the hosts go over all hosts. The second
  stage leaves out those with \<open>snort\<close> in their name.
\<close>

definition eval_parts :: "nat \<Rightarrow> nat \<Rightarrow> string list \<times> string list" where
  "eval_parts hosts ni =
     (map (\<lambda>h. ''h'' @ nat_str h) [1..<hosts + 1] @ [''snort1''], map (\<lambda>s. ''s'' @ nat_str ni @ nat_str s) [1..<ni + 2])"

definition eval_network :: "(string \<Rightarrow> bool) \<Rightarrow> nat \<Rightarrow> string \<Rightarrow> nat \<Rightarrow> network result" where
  "eval_network linked hosts snort_ip ni =
     (let (hs, ss) = eval_parts hosts ni
      in bindE (chunked (length hs div length ss) hs) (\<lambda>groups.
           Inr \<lparr>net_controller = ''c'' @ nat_str ni @ ''0'', net_hosts = hs,
                host_ips = map (\<lambda>h. ''10.0.0.'' @ nat_str h) [1..<hosts + 1] @ [snort_ip], net_switches = ss,
                switch_links = chain_links ss,
                host_links = map (\<lambda>s. (s, ''snort1'')) ss @ filter (\<lambda>(s, h). linked h) (spread_hosts ss groups)\<rparr>))"

definition stage1_network :: "nat \<Rightarrow> network result" where
  "stage1_network ni = eval_network (\<lambda>h. True) 130 ''10.0.0.10'' ni"

definition stage1_networks :: "network list result" where
  "stage1_networks = mapE stage1_network [0, 1, 2]"

definition stage2_network :: "nat \<Rightarrow> network result" where
  "stage2_network ni = eval_network (\<lambda>h. \<not> is_infix ''snort'' h) 140 ''10.0.0.200'' ni"

definition stage2_networks :: "network list result" where
  "stage2_networks = mapE stage2_network [0]"

text \<open>\<open>selectHosts\<close>: the first host and the last ones, without snort; all of them if there are too few.\<close>

definition select_hosts :: "string list \<Rightarrow> nat \<Rightarrow> string list" where
  "select_hosts hosts flows =
     (let suitable = filter (\<lambda>h. \<not> is_infix ''snort'' h) hosts
      in if int flows > int (length suitable) - 1 then suitable else hd suitable # slice_last flows suitable)"

section \<open>Sessions of the evaluation\<close>

definition MODES :: "string list" where
  "MODES = [''MERVYN'', ''NORMAL'']"

definition FLOWS :: "nat list" where
  "FLOWS = [16, 32, 64, 128]"

definition MIRROR_FLOWS :: "nat list" where
  "MIRROR_FLOWS = [20, 40, 60, 80, 100]"

definition SPEEDS :: "nat list" where
  "SPEEDS = [1000, 10000]"

datatype eval_command =
    SetMode bool | NetStart string | VethReset | SnortCommand string | SnortIntf string | MervynStart | EvalCli
  | WriteThresholds "string list" nat | Monitor string | Iperf "string list" string | MervynKill | SnortKill
  | NetStop string | IntfsDelete string | SnortTerm string "string option"

text \<open>The interfaces of the snort host are joined by a bridge before the pair for the relay is added.\<close>

definition bridge_commands :: "string list \<Rightarrow> eval_command list" where
  "bridge_commands intfs =
     SnortCommand ''brctl addbr snort_bridge'' # map (\<lambda>i. SnortCommand (''brctl addif snort_bridge '' @ i)) intfs @
     [SnortCommand ''ifconfig snort_bridge up'']"

definition eval_start_pig :: "string \<Rightarrow> string list \<Rightarrow> eval_command list" where
  "eval_start_pig pig_cmd intfs =
     VethReset # bridge_commands intfs @
     [SnortIntf ''veth1'', SnortCommand (''ifconfig veth1 192.168.100.2; '' @ pig_cmd @ '' >> /dev/null 2>&1 &'')]"

definition exp_name :: "string \<Rightarrow> string \<Rightarrow> nat \<Rightarrow> nat \<Rightarrow> string" where
  "exp_name mode net flow itr = mode @ ''_'' @ net @ ''_'' @ nat_str flow @ ''_'' @ nat_str itr"

definition stage1_net_session :: "string \<Rightarrow> (string \<Rightarrow> string list) \<Rightarrow> string \<Rightarrow> nat \<Rightarrow> string \<times> network \<Rightarrow> eval_command list" where
  "stage1_net_session pig_cmd intfs mode itr = (\<lambda>(name, net).
     NetStart (net_controller net) #
     (if mode = ''MERVYN'' then eval_start_pig pig_cmd (intfs (net_controller net)) @ [MervynStart] else []) @ [EvalCli] @
     concat (map (\<lambda>flow. let e = exp_name mode name flow itr in
       [Monitor (e @ ''_ONOS.log''), Iperf (select_hosts (net_hosts net) flow) e]) FLOWS) @
     (if mode = ''MERVYN'' then [MervynKill, SnortKill] else []) @ [NetStop (net_controller net)])"

definition stage1_eval :: "string \<Rightarrow> (string \<Rightarrow> string list) \<Rightarrow> network list \<Rightarrow> eval_command list" where
  "stage1_eval pig_cmd intfs nets =
     concat (map (\<lambda>itr. concat (map (\<lambda>mode. SetMode (mode = ''MERVYN'') #
       concat (map (stage1_net_session pig_cmd intfs mode itr) (zip networkNames nets))) MODES)) [0..<20]) @
     concat (map (\<lambda>net. map IntfsDelete (net_hosts net)) nets)"

definition stage2_session :: "string \<Rightarrow> (string \<Rightarrow> string list) \<Rightarrow> network \<Rightarrow> nat \<Rightarrow> nat \<Rightarrow> nat \<Rightarrow> eval_command list" where
  "stage2_session pig_cmd intfs net itr mflows speed =
     (let e = nat_str mflows @ ''_'' @ nat_str speed @ ''_'' @ nat_str itr; chosen = select_hosts (net_hosts net) 128 in
      NetStart (net_controller net) # eval_start_pig pig_cmd (intfs (net_controller net)) @
      [WriteThresholds chosen mflows, MervynStart, EvalCli, Iperf chosen e, MervynKill, SnortKill,
       NetStop (net_controller net)] @ map IntfsDelete (net_hosts net))"

definition stage2_eval :: "string \<Rightarrow> (string \<Rightarrow> string list) \<Rightarrow> network \<Rightarrow> eval_command list" where
  "stage2_eval pig_cmd intfs net =
     SetMode True # concat (map (\<lambda>itr. concat (map (\<lambda>mflows.
       concat (map (stage2_session pig_cmd intfs net itr mflows) SPEEDS)) MIRROR_FLOWS)) [0..<20])"

section \<open>The network of mininetTopo_A.py\<close>

text \<open>
  One switch with three hosts and the host for snort. The interface \<open>veth1\<close> is added before the start, so it is the last of the
  interfaces \<open>intfs\<close> and is left out of the bridge; \<open>argv\<close> are the arguments of the script, of which the first is read for the
  relay's terminal when the network is running.
\<close>

definition topo_a_network :: network where
  "topo_a_network = \<lparr>net_controller = ''c0'', net_hosts = [''h1'', ''h2'', ''h3'', ''snort1''],
     host_ips = [''10.0.0.1'', ''10.0.0.2'', ''10.0.0.3'', ''10.0.0.4''], net_switches = [''s1''], switch_links = [],
     host_links = [(''s1'', ''h1''), (''s1'', ''h2''), (''s1'', ''h3''), (''snort1'', ''s1'')]\<rparr>"

definition topo_a_session :: "string list \<Rightarrow> string list \<Rightarrow> eval_command list \<times> unit result" where
  "topo_a_session argv intfs =
     (let started = [SnortIntf ''veth1'', NetStart (net_controller topo_a_network)] @ bridge_commands (butlast intfs) @
            [SnortTerm ''tmp'' None]
      in (case argv of
            _ # x # _ \<Rightarrow> (started @ [SnortTerm ''Pig Relay'' (Some (''bash startPigrelay.sh '' @ [CHR 0x27] @ x @ [CHR 0x27])), EvalCli] @
              map IntfsDelete (net_hosts topo_a_network) @ [NetStop (net_controller topo_a_network)], Inr ())
          | _ \<Rightarrow> (started, Inl IndexError)))"

text \<open>Without an argument the script fails after the network has been started, and does not stop it.\<close>

lemma topo_a_stops_iff_argument:
  "NetStart ''c0'' \<in> set (fst (topo_a_session argv intfs)) \<and>
    (NetStop ''c0'' \<in> set (fst (topo_a_session argv intfs)) \<longleftrightarrow> 2 \<le> length argv)"
  by (auto simp: topo_a_session_def topo_a_network_def bridge_commands_def Let_def split: list.split)

section \<open>Thresholds of the evaluation\<close>

definition mirror_count :: "nat \<Rightarrow> nat \<Rightarrow> nat" where
  "mirror_count percentage hosts = percentage * (hosts - 1) div 100"

text \<open>\<open>createThresholds\<close> on the addresses of the hosts: the addresses mirrored, the text written, and the document YAML reads in it.\<close>

definition mirrored :: "string list \<Rightarrow> nat \<Rightarrow> string list result" where
  "mirrored ips percentage =
     mapE (\<lambda>i. if i + 1 < length ips then Inr (ips ! (i + 1)) else Inl IndexError) [0..<mirror_count percentage (length ips)]"

definition thresholds_text :: "string list \<Rightarrow> string" where
  "thresholds_text ips =
     ''ipfix:'' @ [CHR 0x0A] @
     concat (map (\<lambda>ip. ''    - {priority: 20, subtype: prefix, treatment: snort_mirror, fields: {sourceIPv4Address: '' @ ip @ ''}}'' @ [CHR 0x0A]) ips) @
     ''snort:'' @ [CHR 0x0A] @ ''    - {rule: '' @ [CHR 0x27] @ ''alert icmp 8.8.8.8/32 any -> 8.8.8.8/32 any'' @ [CHR 0x27] @
     '', priority: 10, treatment: snort_mirror, fields: {sourceIPv4Address: 8.8.8.8}}'' @ [CHR 0x0A]"

definition mirror_threshold :: "string \<Rightarrow> pyval" where
  "mirror_threshold ip = PyDict [(''priority'', PyInt 20), (''subtype'', PyStr ''prefix''), (''treatment'', PyStr ''snort_mirror''),
     (''fields'', PyDict [(''sourceIPv4Address'', PyStr ip)])]"

definition eval_snort_threshold :: pyval where
  "eval_snort_threshold = PyDict [(''rule'', PyStr ''alert icmp 8.8.8.8/32 any -> 8.8.8.8/32 any''), (''priority'', PyInt 10),
     (''treatment'', PyStr ''snort_mirror''), (''fields'', PyDict [(''sourceIPv4Address'', PyStr ''8.8.8.8'')])]"

definition thresholds_doc :: "string list \<Rightarrow> pyval" where
  "thresholds_doc ips = PyDict [(''ipfix'', PyList (map mirror_threshold ips)), (''snort'', PyList [eval_snort_threshold])]"

section \<open>Measurements\<close>

text \<open>
  One call of \<open>net.iperf\<close>: it yields a list of texts or nothing, the timer rings, the user interrupts, or it raises. The timer
  is set for TCP only.
\<close>

datatype measured = Yield "string list" | YieldNone | Alarm | Interrupt | Fails exn

datatype perf = Returned "string list option" | PerfRaised exn | Unfinished

definition lacking :: "nat \<Rightarrow> string list \<Rightarrow> bool result" where
  "lacking pos m =
     (if pos < length m then if m ! pos = [] then Inr True
        else if pos + 1 < length m then Inr (m ! (pos + 1) = []) else Inl IndexError
      else Inl IndexError)"

definition fill_unknown :: "nat \<Rightarrow> string list \<Rightarrow> string list result" where
  "fill_unknown pos m =
     (if pos + 1 < length m then
        (let m1 = (if m ! pos = [] then m[pos := ''Unknown''] else m)
         in Inr (if m1 ! (pos + 1) = [] then m1[pos + 1 := ''Unknown''] else m1))
      else Inl IndexError)"

definition no_result :: "bool \<Rightarrow> string \<Rightarrow> string list" where
  "no_result udp bw = (if udp then [bw, ''Unknown'', ''Unknown''] else [''Unknown'', ''Unknown''])"

text \<open>The result of a UDP measurement begins with the band width.\<close>

definition value_pos :: "bool \<Rightarrow> nat" where
  "value_pos udp = (if udp then 1 else 0)"

definition interrupted :: "bool \<Rightarrow> string \<Rightarrow> string list option \<Rightarrow> perf" where
  "interrupted udp bw m =
     (case m of
        None \<Rightarrow> Returned (Some (no_result udp bw))
      | Some xs \<Rightarrow> (case fill_unknown (value_pos udp) xs of Inl e \<Rightarrow> PerfRaised e | Inr ys \<Rightarrow> Returned (Some ys)))"

text \<open>
  The loop: \<open>m\<close> is the last result, \<open>k\<close> how many more measurements it makes. A result that lacks a value is
  measured again, and filled after the last.
\<close>

fun perf_loop :: "bool \<Rightarrow> string \<Rightarrow> nat \<Rightarrow> string list option \<Rightarrow> measured list \<Rightarrow> perf" where
  "perf_loop udp bw k None as = Returned None"
| "perf_loop udp bw k (Some m) as =
     (case lacking (value_pos udp) m of
        Inl e \<Rightarrow> PerfRaised e
      | Inr False \<Rightarrow> Returned (Some m)
      | Inr True \<Rightarrow>
          (case k of
             0 \<Rightarrow> (case fill_unknown (value_pos udp) m of Inl e \<Rightarrow> PerfRaised e | Inr ys \<Rightarrow> Returned (Some ys))
           | Suc k' \<Rightarrow>
               (case as of
                  [] \<Rightarrow> Unfinished
                | Yield m' # as' \<Rightarrow> perf_loop udp bw k' (Some m') as'
                | YieldNone # _ \<Rightarrow> Returned None
                | Alarm # _ \<Rightarrow> Returned (Some [''Unknown'', ''Unknown''])
                | Interrupt # _ \<Rightarrow> interrupted udp bw (Some m)
                | Fails e # _ \<Rightarrow> PerfRaised e)))"

definition loopperf :: "bool \<Rightarrow> string \<Rightarrow> measured list \<Rightarrow> perf" where
  "loopperf udp bw as =
     (case as of
        [] \<Rightarrow> Unfinished
      | Yield m # as' \<Rightarrow> perf_loop udp bw 3 (Some m) as'
      | YieldNone # _ \<Rightarrow> Returned None
      | Alarm # _ \<Rightarrow> Returned (Some [''Unknown'', ''Unknown''])
      | Interrupt # _ \<Rightarrow> interrupted udp bw None
      | Fails e # _ \<Rightarrow> PerfRaised e)"

text \<open>Which pairs of hosts \<open>run\<close> measures over TCP: those that answered a ping; those that did not are reported as down.\<close>

record ping =
  ping_src :: string
  ping_dst :: string
  ping_received :: nat

definition tcp_results :: "(string \<Rightarrow> string \<Rightarrow> string list) \<Rightarrow> ping list \<Rightarrow> (string \<times> string \<times> string list) list" where
  "tcp_results measure_pair pings = concat (map (\<lambda>p.
     if ping_src p \<noteq> ping_dst p \<and> ping_received p = 1
     then [(ping_src p, ping_dst p, measure_pair (ping_src p) (ping_dst p))]
     else if ping_received p = 0 then [(ping_src p, ping_dst p, [''Link'', ''Down''])] else []) pings)"

definition udp_results :: "(string \<Rightarrow> string \<Rightarrow> string list) \<Rightarrow> ping list \<Rightarrow> (string \<times> string \<times> string list) list" where
  "udp_results measure_pair pings = concat (map (\<lambda>p. if ping_src p \<noteq> ping_dst p
     then [(ping_src p, ping_dst p, tl (measure_pair (ping_src p) (ping_dst p)))] else []) pings)"

section \<open>What the scripts do\<close>

text \<open>Three hosts at each outer switch of the star, none at the middle.\<close>

lemma star_is_even:
  "map (\<lambda>s. length (filter (\<lambda>l. snd l = s) (drop 3 star_links))) star_switches = [0, 3, 3, 3]"
  by code_simp

text \<open>
  The first stage links the snort host twice to the last switch, because the loop over the hosts includes it, and gives
  it the address of the tenth host. The second stage does neither.
\<close>

lemma eval_network_links:
  assumes "ni \<le> hosts"
  defines "hs \<equiv> fst (eval_parts hosts ni)" and "ss \<equiv> snd (eval_parts hosts ni)"
  shows "\<exists>net. eval_network linked hosts ip ni = Inr net \<and> net_hosts net = hs \<and> net_switches net = ss \<and>
    host_ips net = map (\<lambda>h. ''10.0.0.'' @ nat_str h) [1..<hosts + 1] @ [ip] \<and>
    host_links net = map (\<lambda>s. (s, ''snort1'')) ss @
      filter (\<lambda>(s, h). linked h) (map (\<lambda>(j, h). (ss ! min (j div (length hs div length ss)) (length ss - 1), h)) (enumerate 0 hs))"
proof -
  have len: "length hs = hosts + 1" "length ss = ni + 1" by (simp_all add: hs_def ss_def eval_parts_def)
  then have ss: "ss \<noteq> []" by auto
  have pos: "0 < length hs div length ss" using assms(1) by (simp add: len div_greater_zero_iff)
  show ?thesis
    unfolding eval_network_def using links_of_hosts[OF pos ss, of hs] pos
    by (simp add: hs_def[symmetric] ss_def[symmetric] chunked_def case_prod_unfold Let_def)
qed

theorem stage1_snort_linked_twice:
  assumes "ni \<le> 2"
  shows "\<exists>net xs ys. stage1_network ni = Inr net \<and> host_links net = xs @ ys \<and>
    (last (net_switches net), ''snort1'') \<in> set xs \<and> (last (net_switches net), ''snort1'') \<in> set ys \<and>
    net_hosts net ! 9 = ''h10'' \<and> last (net_hosts net) = ''snort1'' \<and> host_ips net ! 9 = last (host_ips net)"
proof -
  define hs where "hs = fst (eval_parts 130 ni)"
  define ss where "ss = snd (eval_parts 130 ni)"
  let ?p = "length hs div length ss"
  have "ni \<le> 130" using assms by simp
  from eval_network_links[OF this, of "\<lambda>h. True" "''10.0.0.10''"] obtain net where net: "stage1_network ni = Inr net"
      "net_hosts net = hs" "net_switches net = ss" "host_ips net = map (\<lambda>h. ''10.0.0.'' @ nat_str h) [1..<130 + 1] @ [''10.0.0.10'']"
      "host_links net = map (\<lambda>s. (s, ''snort1'')) ss @ map (\<lambda>(j, h). (ss ! min (j div ?p) (length ss - 1), h)) (enumerate 0 hs)"
    unfolding hs_def ss_def stage1_network_def by auto
  have hs: "length hs = 131" "hs ! 130 = ''snort1''" "last hs = ''snort1''" "hs ! 9 = ''h10''"
    by (simp_all add: hs_def eval_parts_def nth_append nat_str.simps digit_char_def del: upt_Suc)
  have ss: "length ss = ni + 1" "ss \<noteq> []" by (auto simp: ss_def eval_parts_def)
  have "ni = 0 \<or> ni = 1 \<or> ni = 2" using assms by auto
  then have "ni \<le> 130 div (131 div (ni + 1))"
  proof (elim disjE)
    have "(1::nat) \<le> 130 div (131 div 2)" by simp
    moreover assume "ni = 1"
    ultimately show ?thesis by (simp only: one_add_one)
  qed simp_all
  then have "min (130 div ?p) (length ss - 1) = length ss - 1" by (simp add: hs ss)
  then have eq: "(last ss, ''snort1'') = (\<lambda>(j, h). (ss ! min (j div ?p) (length ss - 1), h)) (130, hs ! 130)"
    using ss hs(2) by (simp add: last_conv_nth)
  have "(130, hs ! 130) \<in> set (enumerate 0 hs)" using hs(1) by (simp add: in_set_enumerate_eq)
  then have second: "(last ss, ''snort1'') \<in> set (map (\<lambda>(j, h). (ss ! min (j div ?p) (length ss - 1), h)) (enumerate 0 hs))"
    unfolding set_map eq by (rule imageI)
  have first: "(last ss, ''snort1'') \<in> set (map (\<lambda>s. (s, ''snort1'')) ss)" using ss(2) by simp
  have "host_ips net ! 9 = ''10.0.0.10''" by (simp add: net nth_append nat_str.simps digit_char_def del: upt_Suc)
  moreover have "last (host_ips net) = ''10.0.0.10''" by (simp add: net(4))
  ultimately have rest: "net_hosts net ! 9 = ''h10'' \<and> last (net_hosts net) = ''snort1'' \<and> host_ips net ! 9 = last (host_ips net)"
    by (simp only: net(2) hs simp_thms)
  have "\<exists>xs ys. host_links net = xs @ ys \<and> (last ss, ''snort1'') \<in> set xs \<and> (last ss, ''snort1'') \<in> set ys"
    by (rule exI, rule exI, intro conjI, rule net(5), rule first, rule second)
  then obtain xs ys where "host_links net = xs @ ys" "(last ss, ''snort1'') \<in> set xs" "(last ss, ''snort1'') \<in> set ys"
    by (elim exE conjE)
  then show ?thesis by (intro exI[of _ net] exI[of _ xs] exI[of _ ys]) (simp only: net(1,3) rest simp_thms)
qed

lemma is_prefix_subset: "is_prefix xs ys \<Longrightarrow> set xs \<subseteq> set ys"
  by (induction xs ys rule: is_prefix.induct) auto

lemma is_infix_subset: "is_infix xs ys \<Longrightarrow> set xs \<subseteq> set ys"
  by (induction xs ys rule: is_infix.induct) (force dest: is_prefix_subset)+

lemma host_names_no_snort: "filter (\<lambda>h. \<not> is_infix ''snort'' h) (fst (eval_parts hosts ni)) = map (\<lambda>h. ''h'' @ nat_str h) [1..<hosts + 1]"
proof -
  have "\<not> is_infix ''snort'' (''h'' @ nat_str h)" for h
    using is_infix_subset[of "''snort''" "''h'' @ nat_str h"] nat_str_digits[of h] by auto
  then show ?thesis by (simp add: eval_parts_def comp_def del: upt_Suc append.simps)
qed

lemma filter_snd: "map snd (filter (\<lambda>(s, h). P h) xs) = filter P (map snd xs)"
  by (induction xs) auto

lemma eval_network_once:
  assumes "hosts < k"
  shows "\<exists>net. eval_network (\<lambda>h. \<not> is_infix ''snort'' h) hosts (''10.0.0.'' @ nat_str k) 0 = Inr net \<and>
    distinct (map snd (host_links net)) \<and> set (map snd (host_links net)) = set (net_hosts net) \<and> distinct (host_ips net)"
proof -
  define hs where "hs = fst (eval_parts hosts 0)"
  define ss where "ss = snd (eval_parts hosts 0)"
  define names where "names = map (\<lambda>h. ''h'' @ nat_str h) [1..<hosts + 1]"
  define ips where "ips = map (\<lambda>h. ''10.0.0.'' @ nat_str h) [1..<hosts + 1]"
  have ss: "map (\<lambda>s. ''snort1'') ss = [''snort1'']" by (simp add: ss_def eval_parts_def)
  have hs: "hs = names @ [''snort1'']" by (simp add: hs_def eval_parts_def names_def)
  from eval_network_links[of 0 hosts "\<lambda>h. \<not> is_infix ''snort'' h" "''10.0.0.'' @ nat_str k"] obtain net
    where net: "eval_network (\<lambda>h. \<not> is_infix ''snort'' h) hosts (''10.0.0.'' @ nat_str k) 0 = Inr net"
      "net_hosts net = hs" "host_ips net = ips @ [''10.0.0.'' @ nat_str k]"
      "host_links net = map (\<lambda>s. (s, ''snort1'')) ss @ filter (\<lambda>(s, h). \<not> is_infix ''snort'' h)
         (map (\<lambda>(j, h). (ss ! min (j div (length hs div length ss)) (length ss - 1), h)) (enumerate 0 hs))"
    unfolding hs_def ss_def ips_def by (auto simp del: append.simps)
  have "map snd (map (\<lambda>(j, h). (f j, h)) (enumerate 0 hs)) = hs" for f :: "nat \<Rightarrow> string"
    by (simp add: comp_def case_prod_unfold enumerate_eq_zip)
  moreover have "filter (\<lambda>h. \<not> is_infix ''snort'' h) hs = names"
    using host_names_no_snort[of hosts 0] by (simp only: hs_def names_def)
  moreover have "map snd (map (\<lambda>s. (s, ''snort1'')) ss) = [''snort1'']" using ss by (simp add: comp_def)
  ultimately have links: "map snd (host_links net) = ''snort1'' # names"
    unfolding net(4) map_append filter_snd by simp
  have "distinct names" "distinct ips" by (simp_all add: names_def ips_def distinct_map inj_on_def nat_str_inj del: upt_Suc)
  moreover have "''snort1'' \<notin> set names" by (auto simp: names_def)
  moreover have "''10.0.0.'' @ nat_str k \<notin> set ips" using assms by (auto simp: ips_def nat_str_inj)
  moreover have "set (''snort1'' # names) = set hs" by (simp add: hs)
  ultimately show ?thesis unfolding net(1) using links net(2,3)
    by (intro exI[of _ net]) (simp del: append.simps)
qed

theorem stage2_hosts_linked_once:
  "\<exists>net. stage2_networks = Inr [net] \<and> distinct (map snd (host_links net)) \<and> set (map snd (host_links net)) = set (net_hosts net) \<and>
    distinct (host_ips net)"
proof -
  have "nat_str 200 = ''200''" by (simp add: nat_str.simps digit_char_def)
  then show ?thesis using eval_network_once[of 140 200] by (auto simp: stage2_networks_def stage2_network_def)
qed

text \<open>With enough hosts the selection has one host more than flows; the same host is never taken twice, and never the snort host.\<close>

theorem selected_hosts:
  assumes "distinct hosts" "0 < flows" "flows < length (filter (\<lambda>h. \<not> is_infix ''snort'' h) hosts)"
  shows "distinct (select_hosts hosts flows) \<and> length (select_hosts hosts flows) = flows + 1 \<and>
    set (select_hosts hosts flows) \<subseteq> {h \<in> set hosts. \<not> is_infix ''snort'' h}"
proof -
  define fs where "fs = filter (\<lambda>h. \<not> is_infix ''snort'' h) hosts"
  obtain x xs where fs: "fs = x # xs" using assms(3) by (cases fs) (auto simp: fs_def)
  have d: "distinct (x # xs)" using assms(1) fs by (metis distinct_filter fs_def)
  have sel: "select_hosts hosts flows = x # drop (length xs - flows) xs"
    using assms(2,3) unfolding select_hosts_def fs_def[symmetric] by (simp add: fs slice_last_def Suc_diff_le)
  have "set fs \<subseteq> {h \<in> set hosts. \<not> is_infix ''snort'' h}" by (auto simp: fs_def)
  moreover have "set (drop (length xs - flows) xs) \<subseteq> set xs" by (rule set_drop_subset)
  ultimately show ?thesis using d assms(3) fs unfolding sel fs_def[symmetric] by auto
qed

text \<open>Every measurement of the first stage has a file of its own.\<close>

lemma nat_str_no_mark: "CHR ''_'' \<notin> set (nat_str n)"
  using nat_str_digits[of n] by auto

lemma split_mark: "c \<notin> set x \<Longrightarrow> split_on c (x @ c # y) = x # split_on c y"
  by (induction x) auto

theorem experiment_names_differ:
  assumes "exp_name mode net flow itr = exp_name mode' net' flow' itr'" "mode \<in> set MODES" "mode' \<in> set MODES"
    "net \<in> set networkNames" "net' \<in> set networkNames"
  shows "mode = mode' \<and> net = net' \<and> flow = flow' \<and> itr = itr'"
proof -
  have names: "CHR ''_'' \<notin> set m" if "m \<in> set MODES \<union> set networkNames" for m
    using that by (auto simp: MODES_def networkNames_def)
  have "split_on CHR ''_'' (exp_name m n f i) = [m, n, nat_str f, nat_str i]" if "m \<in> set MODES" "n \<in> set networkNames" for m n f i
    using that names by (simp add: exp_name_def split_mark nat_str_no_mark split_on_notin)
  then show ?thesis using assms by (metis list.inject nat_str_inj)
qed

text \<open>
  The file the second stage writes: no host is missing for a share of at most a hundred, the coordinator loads it with a
  threshold for each mirrored host, and the first snort alert that arrives then ends the coordinator, because the snort threshold has a rule but
  no alert message.
\<close>

lemma mirror_count_less: "percentage \<le> 100 \<Longrightarrow> 0 < n \<Longrightarrow> mirror_count percentage n < n"
proof -
  assume a: "percentage \<le> 100" "0 < n"
  have "percentage * (n - 1) div 100 \<le> 100 * (n - 1) div 100" by (rule div_le_mono) (use a in simp)
  then show ?thesis using a(2) by (simp add: mirror_count_def)
qed

lemma extract_without_id:
  "\<forall>v \<in> set vs. \<exists>d. v = PyDict d \<and> \<not> has_key d ''id'' \<Longrightarrow> \<exists>s' t'. extract_loop prefix ti vs s t = Inr (s', t')"
  by (induction vs arbitrary: ti s t) (auto split: prod.splits)

theorem written_thresholds_stop_on_alert:
  assumes "ips \<noteq> []" "percentage \<le> 100"
  shows "\<exists>chosen s. mirrored ips percentage = Inr chosen \<and> length chosen = mirror_count percentage (length ips) \<and>
    set chosen \<subseteq> set (tl ips) \<and> setup_thresholds (thresholds_doc chosen) = Inr s \<and>
    (\<forall>w msg. snort_handle w s msg = (s, [], Inl KeyError))"
proof -
  let ?n = "mirror_count percentage (length ips)"
  define chosen where "chosen = map (\<lambda>i. ips ! (i + 1)) [0..<?n]"
  have n: "?n < length ips" using mirror_count_less[OF assms(2), of "length ips"] assms(1) by simp
  have "mirrored ips percentage = Inr chosen" unfolding mirrored_def chosen_def by (rule mapE_Inr) (use n in auto)
  moreover have "set chosen \<subseteq> set (tl ips)"
  proof -
    have "ips ! (i + 1) \<in> set (tl ips)" if "i < ?n" for i
    proof -
      have i: "i < length (tl ips)" using that n by simp
      then show ?thesis using nth_mem[OF i] by (simp add: nth_tl)
    qed
    then show ?thesis by (auto simp: chosen_def)
  qed
  moreover obtain s1 t where s1: "extract_loop ''default_ipfix_'' 0 (map mirror_threshold chosen) empty_store [] = Inr (s1, t)"
    using extract_without_id[of "map mirror_threshold chosen" "''default_ipfix_''" 0 empty_store "[]"] by (auto simp: mirror_threshold_def)
  define s where "s = snd (alloc eval_snort_threshold s1)\<lparr>ipfix_thr := t, snort_thr := [(PyStr ''default_snort_0'', next_addr s1)]\<rparr>"
  have "setup_thresholds (thresholds_doc chosen) = Inr s"
    by (simp add: setup_thresholds_def thresholds_doc_def extract_ipfix_thresholds_def extract_snort_thresholds_def s1 s_def
        alloc_def eval_snort_threshold_def nat_str.simps digit_char_def)
  moreover have "snort_handle w s msg = (s, [], Inl KeyError)" for w msg
    by (simp add: snort_handle_def snort_find_match_def s_def alloc_def eval_snort_threshold_def)
  ultimately show ?thesis by (auto simp: chosen_def)
qed

theorem written_thresholds_stop_on_alert_witness:
  "\<exists>chosen s. mirrored [''10.0.0.1'', ''10.0.0.9'', ''10.0.0.10''] 50 = Inr chosen \<and>
    setup_thresholds (thresholds_doc chosen) = Inr s \<and> (\<forall>w msg. snort_handle w s msg = (s, [], Inl KeyError))"
  using written_thresholds_stop_on_alert[of "[''10.0.0.1'', ''10.0.0.9'', ''10.0.0.10'']" 50] by auto

text \<open>
  A measurement is made at most four times. If every result is long enough and nothing but the timer and the user interferes, it
  returns, and no value of a result returned is empty.
\<close>

lemma fill_complete: "pos + 1 < length m \<Longrightarrow> \<exists>ys. fill_unknown pos m = Inr ys \<and> ys ! pos \<noteq> [] \<and> ys ! (pos + 1) \<noteq> [] \<and> length ys = length m"
  by (auto simp: fill_unknown_def Let_def nth_list_update)

definition perf_complete :: "nat \<Rightarrow> perf \<Rightarrow> bool" where
  "perf_complete pos r \<longleftrightarrow> (\<exists>m. r = Returned m \<and> (\<forall>xs. m = Some xs \<longrightarrow> pos + 1 < length xs \<longrightarrow> xs ! pos \<noteq> [] \<and> xs ! (pos + 1) \<noteq> []))"

definition usable :: "nat \<Rightarrow> measured \<Rightarrow> bool" where
  "usable pos a = (case a of Yield m \<Rightarrow> pos + 1 < length m | Fails e \<Rightarrow> False | _ \<Rightarrow> True)"

lemma interrupted_complete:
  "(\<forall>xs. m = Some xs \<longrightarrow> (value_pos udp) + 1 < length xs) \<Longrightarrow> bw \<noteq> [] \<Longrightarrow> perf_complete (value_pos udp) (interrupted udp bw m)"
  using fill_complete[of "value_pos udp"] 
  by (cases m) (fastforce simp: interrupted_def perf_complete_def no_result_def value_pos_def)+

declare perf_loop.simps(2) [simp del]

lemmas perf_step = perf_loop.simps(2)[of _ _ "Suc k" for k] perf_loop.simps(2)[of _ _ 0]

lemma perf_loop_complete:
  assumes "\<forall>a \<in> set as. usable (value_pos udp) a" "k \<le> length as" "(value_pos udp) + 1 < length m" "bw \<noteq> []"
  shows "perf_complete (value_pos udp) (perf_loop udp bw k (Some m) as)"
  using assms
proof (induction k arbitrary: m as)
  case 0
  then show ?case using fill_complete[OF 0(3)]
    by (auto simp: perf_step lacking_def perf_complete_def split: sum.splits bool.splits)
next
  case (Suc k)
  then obtain a as' where as: "as = a # as'" by (cases as) auto
  have "lacking (value_pos udp) m = Inr False \<Longrightarrow> perf_complete (value_pos udp) (Returned (Some m))"
    using Suc.prems(3) by (auto simp: lacking_def perf_complete_def split: if_splits)
  moreover have "perf_complete (value_pos udp) (perf_loop udp bw k (Some m') as')" if "a = Yield m'" for m'
    using Suc that by (intro Suc.IH) (auto simp: as usable_def)
  moreover have "\<exists>b. lacking (value_pos udp) m = Inr b" using Suc.prems(3) by (auto simp: lacking_def)
  moreover have "perf_complete (value_pos udp) (interrupted udp bw (Some m))"
    using Suc.prems(3,4) by (intro interrupted_complete) auto
  moreover have "perf_complete (value_pos udp) (Returned (Some [''Unknown'', ''Unknown'']))"
    by (auto simp: perf_complete_def value_pos_def)
  ultimately show ?case using Suc.prems(1)
    by (auto simp: perf_step as usable_def perf_complete_def[of _ "Returned None"]
        split: measured.splits bool.splits)
qed

lemma perf_loop_take: "perf_loop udp bw k m (take k as) = perf_loop udp bw k m as"
proof (induction k arbitrary: m as)
  case 0
  show ?case by (cases m) (simp_all add: perf_step split: sum.split bool.split)
next
  case (Suc k)
  show ?case by (cases m; cases as) (simp_all add: perf_step Suc split: sum.split bool.split measured.split)
qed

theorem measurement_completes:
  assumes "\<forall>a \<in> set (take 4 as). usable (value_pos udp) a" "4 \<le> length as" "bw \<noteq> []"
  shows "loopperf udp bw as = loopperf udp bw (take 4 as) \<and> perf_complete (value_pos udp) (loopperf udp bw as)"
proof -
  obtain a as' where as: "as = a # as'" using assms(2) by (cases as) auto
  have same: "loopperf udp bw as = loopperf udp bw (take 4 as)"
    by (simp add: as loopperf_def perf_loop_take split: measured.split)
  have "perf_complete (value_pos udp) (loopperf udp bw (take 4 as))"
  proof (cases a)
    case (Yield m)
    have "perf_complete (value_pos udp) (perf_loop udp bw 3 (Some m) (take 3 as'))"
      using assms by (intro perf_loop_complete) (auto simp: as Yield usable_def numeral_eq_Suc)
    then show ?thesis by (simp add: as loopperf_def Yield numeral_eq_Suc)
  next
    case Interrupt
    then show ?thesis using interrupted_complete[of None udp bw] assms(3) by (simp add: as loopperf_def numeral_eq_Suc)
  qed (use assms in \<open>auto simp: as loopperf_def perf_complete_def usable_def value_pos_def numeral_eq_Suc\<close>)
  then show ?thesis using same by simp
qed

end
