(* ===== verification/Onos_Cluster.thy ===== *)
theory Onos_Cluster
  imports Py_Base "HOL-Library.Sublist" "HOL-Library.Multiset"
begin

text \<open>
  The ONOS nodes and clusters of the test bench: \<open>onos.py\<close> of
  \<open>tools/dev/tennison-experimenter/experimenter\<close>.

  Mininet, the shell and the files are outside: an operation is the list of its commands in their order, and what a command
  prints or a file holds is an argument. The process environment \<open>environ\<close> is a dictionary that is passed on. A loop that
  polls until something has happened is recursion over the list of polls, each with what the polled command prints
  and what the check after an unsuccessful poll finds. Messages to the user and pauses are left out.
\<close>

section \<open>Text\<close>

datatype bench_cmd = NodeCmd string string | RootCmd string

text \<open>\<open>s.split()\<close>: the words between white space.\<close>

fun words_from :: "string \<Rightarrow> string \<Rightarrow> string list" where
  "words_from acc [] = (if acc = [] then [] else [rev acc])"
| "words_from acc (c # cs) =
     (if is_space c then (if acc = [] then words_from [] cs else rev acc # words_from [] cs)
      else words_from (c # acc) cs)"

definition words :: "string \<Rightarrow> string list" where
  "words s = words_from [] s"

text \<open>\<open>os.path.join\<close> of two parts, and \<open>os.path.dirname\<close>.\<close>

definition path_join :: "string \<Rightarrow> string \<Rightarrow> string" where
  "path_join a b =
     (if is_prefix ''/'' b then b else if a = [] \<or> last a = CHR ''/'' then a @ b else a @ ''/'' @ b)"

definition dirname :: "string \<Rightarrow> string" where
  "dirname p =
     (let head = rev (dropWhile (\<lambda>c. c \<noteq> CHR ''/'') (rev p))
      in if \<exists>c \<in> set head. c \<noteq> CHR ''/'' then rev (dropWhile (\<lambda>c. c = CHR ''/'') (rev head)) else head)"

definition quote :: "string \<Rightarrow> string" where
  "quote s = [CHR 0x22] @ s @ [CHR 0x22]"

definition newline :: string where
  "newline = [CHR 0x0A]"

section \<open>Environment\<close>

record onos_node =
  onos_name :: string
  onos_class :: string
  onos_ip :: string
  alert_action :: string
  onos_home :: string

text \<open>
  The world: the output of \<open>who am i\<close> (None if running it raises), the test for the archive, the outputs of unpacking it into a
  directory and of listing it, what the pattern for the program directory finds on a node and what the pid file holds.
\<close>

record bench_world =
  who_output :: "string option"
  tar_there :: "string \<Rightarrow> bool"
  unpack_output :: "string \<Rightarrow> string"
  tar_listing :: string
  karaf_bins :: "onos_node \<Rightarrow> string list"
  pid_text :: "onos_node \<Rightarrow> string"

type_synonym env = "(string \<times> string) list"

definition karaf_port :: int where "karaf_port = 8101"
definition gui_port :: int where "gui_port = 8181"
definition openflow_port :: int where "openflow_port = 6653"
definition copycat_port :: int where "copycat_port = 9876"

definition default_user :: "string option \<Rightarrow> env \<Rightarrow> string" where
  "default_user who environ =
     (case map_of environ ''SUDO_USER'' of
        Some u \<Rightarrow> u
      | None \<Rightarrow> (case who of None \<Rightarrow> ''nobody'' | Some out \<Rightarrow> (case words out of [] \<Rightarrow> ''nobody'' | w # _ \<Rightarrow> w)))"

definition set_default :: "string \<Rightarrow> string \<Rightarrow> env \<Rightarrow> env" where
  "set_default k v d = (if has_key d k then d else dict_put k v d)"

text \<open>The pair is \<open>environ\<close> and the dictionary \<open>env\<close> that is returned.\<close>

definition sd :: "string \<Rightarrow> string \<Rightarrow> env \<times> env \<Rightarrow> env \<times> env" where
  "sd var val s = (let d = set_default var val (fst s) in (d, dict_put var (the (map_of d var)) (snd s)))"

definition assertion_error :: exn where
  "assertion_error = ExnOther ''AssertionError''"

definition init_onos_env :: "string option \<Rightarrow> env \<Rightarrow> (env \<times> env) result" where
  "init_onos_env who environ =
     (case map_of environ ''HOME'' of
        None \<Rightarrow> Inl KeyError
      | Some home \<Rightarrow>
          if home = [] then Inl assertion_error
          else (let s1 = sd ''ONOS_ROOT'' (path_join home ''onos'') (sd ''HOME'' home (environ, []));
                    user = default_user who (fst s1);
                    s2 = sd ''ONOS_USER'' user (dict_put ''ONOS_USER'' user (fst s1), snd s1);
                    s3 = sd ''ONOS_APPS'' ''drivers,openflow,fwd,proxyarp,mobility'' s2;
                    d = dict_put ''ONOS_WEB_PASS'' ''karaf'' (dict_put ''ONOS_WEB_USER'' ''karaf'' (fst s3))
                in Inr (sd ''ONOS_WEB_PASS'' ''karaf'' (sd ''ONOS_WEB_USER'' ''karaf'' (d, snd s3)))))"

definition clear_vars :: "string list \<Rightarrow> env \<Rightarrow> env" where
  "clear_vars vars env = foldl (\<lambda>e var. dict_put var [] e) env vars"

fun put_ips :: "nat \<Rightarrow> string list \<Rightarrow> env \<Rightarrow> env" where
  "put_ips i [] env = env"
| "put_ips i (ip # ips) env = put_ips (Suc i) ips (dict_put (''OC'' @ nat_str i) ip env)"

definition dict_merge :: "env \<Rightarrow> env \<Rightarrow> env" where
  "dict_merge d u = foldl (\<lambda>d (k, v). dict_put k v d) d u"

definition update_node_ips :: "string list \<Rightarrow> env \<times> env \<Rightarrow> env \<times> env" where
  "update_node_ips ips s =
     (let (environ, env) = s;
          e1 = clear_vars [''ONOS_NIC'', ''ONOS_CELL'', ''ONOS_INSTANCES''] env;
          e2 = clear_vars (filter (is_prefix ''OC'') (map fst environ)) e1;
          e3 = put_ips 1 ips e2;
          e4 = (if ips \<noteq> [] then (let oc1 = the (map_of e3 ''OC1'') in dict_put ''OCN'' oc1 (dict_put ''OCI'' oc1 e3)) else e3);
          e5 = dict_put ''ONOS_INSTANCES'' (join newline ips) e4
      in (dict_merge environ e5, e5))"

section \<open>Nodes\<close>

text \<open>A host of the network is known by the name of its class.\<close>

definition is_onos_node :: "onos_node \<Rightarrow> bool" where
  "is_onos_node h = is_infix ''ONOSNode'' (onos_class h)"

definition onos_dir :: "onos_node \<Rightarrow> string" where
  "onos_dir n = ''/tmp/'' @ onos_name n"

definition onos_client :: "onos_node \<Rightarrow> string" where
  "onos_client n = onos_dir n @ ''/karaf/bin/client''"

definition ucmd :: "string \<Rightarrow> string list \<Rightarrow> string" where
  "ucmd user args =
     (if user \<noteq> ''root'' then ''sudo -E -u $ONOS_USER PATH=$PATH bash -c '' @ [CHR 0x27] @ join '' '' args @ [CHR 0x27]
      else join '' '' args)"

definition update_env :: "env \<Rightarrow> string" where
  "update_env env =
     join '';'' (map (\<lambda>(var, val). if val \<noteq> [] then ''export '' @ var @ ''='' @ quote val else ''unset '' @ var) env)"

definition tar_default_path :: string where
  "tar_default_path = ''bazel-bin/onos.tar.gz''"

text \<open>Unpacking the archive: the commands given to \<open>run\<close> and the place, or the exception.\<close>

definition unpack_onos :: "bench_world \<Rightarrow> string \<Rightarrow> string \<Rightarrow> env \<Rightarrow> env \<times> string list \<times> string result" where
  "unpack_onos w onos_root dest environ =
     (let d = set_default ''ONOS_TAR'' (path_join onos_root tar_default_path) environ;
          tar = the (map_of d ''ONOS_TAR'');
          success = ''*** SUCCESS ***''; out = unpack_output w dest;
          unpack = ''mkdir -p '' @ quote dest @ '' && cd '' @ quote dest @ '' && tar xzf '' @ quote tar @ '' && echo '' @ quote success;
          link = ''cd '' @ dest @ ''; ln -s onos*/apache* karaf;ln -s karaf/data/log/karaf.log log''
      in if \<not> tar_there w tar then
           (d, [], Inl (ExnOther (''Missing ONOS tarball '' @ tar @ '' - run buck build onos?'')))
         else if \<not> is_infix success out then
           (d, [unpack], Inl (ExnOther (''Failed to unpack ONOS archive '' @ tar @ '' in '' @ dest @ '':'' @ newline @ out @ newline)))
         else (case words (tar_listing w) of
             [] \<Rightarrow> (d, [unpack], Inl IndexError)
           | t # _ \<Rightarrow> (if CHR ''/'' \<notin> set t then (d, [unpack], Inl assertion_error)
                      else (d, [unpack, link], Inr (path_join dest (dirname t))))))"

text \<open>Creating a node, and all nodes of a network; another host needs nothing.\<close>

definition node_new :: "bench_world \<Rightarrow> string \<Rightarrow> string \<Rightarrow> onos_node \<Rightarrow> env \<Rightarrow> env \<times> bench_cmd list \<times> onos_node result" where
  "node_new w user onos_root n environ =
     (let (d, cmds, r) = unpack_onos w onos_root (onos_dir n) environ
      in (d, map (NodeCmd (onos_name n)) ((''rm -rf '' @ onos_dir n) # map (\<lambda>c. ucmd user [c]) cmds),
          bindE r (\<lambda>home. Inr (n\<lparr>onos_home := home\<rparr>))))"

fun nodes_new ::
  "bench_world \<Rightarrow> string \<Rightarrow> string \<Rightarrow> onos_node list \<Rightarrow> env \<Rightarrow> env \<times> bench_cmd list \<times> onos_node list result"
where
  "nodes_new w user onos_root [] d = (d, [], Inr [])"
| "nodes_new w user onos_root (n # ns) d =
     (let (d1, cmds, r) = (if is_onos_node n then node_new w user onos_root n d else (d, [], Inr n)) in
      case r of
        Inl e \<Rightarrow> (d1, cmds, Inl e)
      | Inr n' \<Rightarrow> (let (d2, cmds2, r2) = nodes_new w user onos_root ns d1
                  in (d2, cmds @ cmds2, bindE r2 (\<lambda>ns'. Inr (n' # ns')))))"

text \<open>\<open>ONOSNode.start\<close>: the commands, and the pid.\<close>

definition node_start ::
  "bench_world \<Rightarrow> string \<Rightarrow> string \<Rightarrow> onos_node \<Rightarrow> env \<Rightarrow> string list \<Rightarrow> bench_cmd list \<times> int result"
where
  "node_start w user onos_root n env ips =
     (let env1 = dict_put ''ONOS_HOME'' (onos_home n) env; c = NodeCmd (onos_name n) in
      case karaf_bins w n of
        [] \<Rightarrow> ([c (update_env env1)], Inl IndexError)
      | karafbin # _ \<Rightarrow>
          ([c (update_env env1),
            c (''export PATH='' @ path_join onos_root ''tools/test/bin'' @ '':'' @ karafbin @ '':$PATH''),
            c (''cd '' @ onos_home n),
            c (ucmd user [''mkdir -p config && onos-gen-partitions config/cluster.json'', join '' '' ips]),
            c (ucmd user [path_join (onos_home n) ''bin/onos-service'',
                 ''server 1>../onos.log 2>../onos.log & echo $! > onos.pid; ln -s `pwd`/onos.pid ..'']),
            c ''cat onos.pid''],
           int_of_string (strip (pid_text w n))))"

definition node_stop :: "onos_node \<Rightarrow> bench_cmd list" where
  "node_stop n = map (NodeCmd (onos_name n)) [''pkill -HUP -f karaf.jar && wait'', ''rm -rf '' @ onos_dir n]"

text \<open>Setting the interfaces of a node: the errors reported, given the outputs of the commands.\<close>

definition intf_errors :: "string \<Rightarrow> (string \<times> string) list \<Rightarrow> string list" where
  "intf_errors state outputs = map (\<lambda>(intf, out). ''Error setting '' @ intf @ '' '' @ state @ '': '' @ out @ '' '')
     (filter (\<lambda>(intf, out). out \<noteq> []) outputs)"

section \<open>Watching a node\<close>

text \<open>What a poll sees: the output of the polled command, and for the check the output of \<open>ps\<close>, the log and the memory file.\<close>

record node_poll =
  polled :: string
  ps_output :: string
  log_text :: "string option"
  meminfo :: string

definition sanity_alert :: "onos_node \<Rightarrow> string \<Rightarrow> unit result" where
  "sanity_alert n msg =
     (if alert_action n = ''exception'' then Inl (ExnOther msg)
      else if alert_action n = ''warn'' then Inr ()
      else if alert_action n = ''exit'' then Inl SystemExit
      else Inr ())"

definition is_running :: "node_poll \<Rightarrow> bool" where
  "is_running p \<longleftrightarrow> strip (ps_output p) = ''running''"

definition check_log :: "node_poll \<Rightarrow> string list \<times> string list" where
  "check_log p =
     (case log_text p of
        None \<Rightarrow> ([], [])
      | Some t \<Rightarrow> (let lines = split_on CHR 0x0A t
                  in (filter (is_infix ''ERROR'') lines, filter (is_infix ''WARN'') lines)))"

definition mem_available :: "string \<Rightarrow> int result" where
  "mem_available text =
     bindE (mapE (\<lambda>l. case words l of [] \<Rightarrow> Inl IndexError | w # ws \<Rightarrow> Inr (w, w # ws)) (split_on CHR 0x0A (strip text))) (\<lambda>index.
       case map_of (rev index) ''MemAvailable:'' of
         None \<Rightarrow> Inr (- 1)
       | Some [nm, amount, u] \<Rightarrow> (if str_lower u = ''kb'' then int_of_string amount else Inr (- 1))
       | Some _ \<Rightarrow> Inl ValueError)"

text \<open>The check returns the number of warnings seen so far, and the alert raised, if any.\<close>

definition sanity_check :: "onos_node \<Rightarrow> nat \<Rightarrow> node_poll \<Rightarrow> nat \<times> unit result" where
  "sanity_check n seen p =
     (let (errors, warnings) = check_log p;
          seen' = (if warnings \<noteq> [] \<and> length warnings > seen then length warnings else seen)
      in case (if is_running p then Inr () else sanity_alert n (''ONOS node '' @ onos_name n @ '' has died'')) of
           Inl e \<Rightarrow> (seen, Inl e)
         | Inr _ \<Rightarrow>
             (case (if errors \<noteq> [] then sanity_alert n (''ONOS startup errors:'' @ newline @ ''<<'' @ join newline errors @ ''>>'') else Inr ()) of
                Inl e \<Rightarrow> (seen, Inl e)
              | Inr _ \<Rightarrow> (seen', bindE (mem_available (meminfo p)) (\<lambda>mem.
                  if mem > 0 \<and> mem < 100000
                  then sanity_alert n (''Running out of memory (only '' @ int_str mem @ '' KB available)'') else Inr ()))))"

text \<open>What each of the five loops of \<open>waitStarted\<close> waits for.\<close>

definition karaf_up :: "string \<Rightarrow> bool" where
  "karaf_up out = (let s = str_lower out in is_infix ''running'' s \<and> \<not> is_infix ''not running'' s)"

definition listening :: "int \<Rightarrow> string \<Rightarrow> string \<Rightarrow> bool" where
  "listening port proc out =
     (\<exists>line \<in> set (split_on CHR 0x0A (strip out)). let e = words line in
        length e > 6 \<and> is_infix ('':'' @ int_str port) (e ! 3) \<and> is_infix proc (e ! 6))"

definition node_ready :: "onos_node \<Rightarrow> string \<Rightarrow> bool" where
  "node_ready n out =
     is_infix (''id='' @ onos_ip n @ '', address='' @ onos_ip n @ '':'' @ int_str copycat_port @ '', state=READY, updated'') out"

definition start_phases :: "onos_node \<Rightarrow> (string \<Rightarrow> bool) list" where
  "start_phases n =
     [karaf_up, listening karaf_port ''java'', listening openflow_port ''java'', is_infix ''openflow'', node_ready n]"

datatype wait_result = Waiting | Ready | Raised exn

text \<open>The loops, one after the other: the first list is what is still waited for, a poll that succeeds ends its loop.\<close>

fun wait_phases ::
  "onos_node \<Rightarrow> (string \<Rightarrow> bool) list \<Rightarrow> nat \<Rightarrow> node_poll list \<Rightarrow> nat \<times> node_poll list \<times> wait_result"
where
  "wait_phases n [] seen ps = (seen, ps, Ready)"
| "wait_phases n (ok # oks) seen [] = (seen, [], Waiting)"
| "wait_phases n (ok # oks) seen (p # ps) =
     (if ok (polled p) then wait_phases n oks seen ps
      else (case sanity_check n seen p of
              (seen', Inl e) \<Rightarrow> (seen', ps, Raised e)
            | (seen', Inr _) \<Rightarrow> wait_phases n (ok # oks) seen' ps))"

definition wait_started :: "onos_node \<Rightarrow> nat \<Rightarrow> node_poll list \<Rightarrow> nat \<times> node_poll list \<times> wait_result" where
  "wait_started n seen ps = wait_phases n (start_phases n) seen ps"

section \<open>Clusters\<close>

text \<open>Renaming of the nodes of a topology; the switch prefix is tested first.\<close>

definition renamed :: "string \<Rightarrow> string \<Rightarrow> string \<Rightarrow> string \<Rightarrow> string \<Rightarrow> string" where
  "renamed sold snew hold hnew name =
     (if is_prefix sold name then snew @ drop (length sold) name
      else if is_prefix hold name then hnew @ drop (length hold) name else name)"

record onos_cluster =
  cluster_name :: string
  port_offset :: nat
  ip_base :: string
  forward :: "int list"
  cluster_env :: env
  cluster_hosts :: "onos_node list"
  cluster_switches :: "string list"

definition cluster_nodes :: "onos_cluster \<Rightarrow> onos_node list" where
  "cluster_nodes c = filter is_onos_node (cluster_hosts c)"

definition or_default :: "'a option \<Rightarrow> 'a \<Rightarrow> 'a" where
  "or_default x d = (case x of None \<Rightarrow> d | Some v \<Rightarrow> v)"

definition fix_ip_tables :: "bench_cmd list" where
  "fix_ip_tables = map (\<lambda>s. RootCmd (''sysctl net.bridge.bridge-nf-call-'' @ s @ ''tables=0'')) [''arp'', ''ip'', ''ip6'']"

text \<open>
  Creating a cluster on a network with the given hosts and switches. The default of the offset is an attribute of the class,
  which grows by the number of nodes of every cluster.
\<close>

definition cluster_new ::
  "bench_world \<Rightarrow> string \<Rightarrow> nat option \<Rightarrow> string option \<Rightarrow> int list option \<Rightarrow> onos_node list \<Rightarrow> string list \<Rightarrow>
    nat \<times> env \<Rightarrow> env \<times> bench_cmd list \<times> (onos_cluster \<times> nat) result"
where
  "cluster_new w name offset base ports hosts switches s =
     (case init_onos_env (who_output w) (snd s) of
        Inl e \<Rightarrow> (snd s, fix_ip_tables, Inl e)
      | Inr (d1, env1) \<Rightarrow>
          (let (d2, cmds, r) = nodes_new w (the (map_of env1 ''ONOS_USER'')) (the (map_of env1 ''ONOS_ROOT'')) hosts d1
           in case r of
                Inl e \<Rightarrow> (d2, fix_ip_tables @ cmds, Inl e)
              | Inr hosts' \<Rightarrow>
                  (let nodes = filter is_onos_node hosts';
                       (d3, env) = update_node_ips (map onos_ip nodes) (d2, env1);
                       c = \<lparr>cluster_name = name, port_offset = or_default offset (fst s),
                            ip_base = or_default base ''192.168.123.0/24'',
                            forward = or_default ports [karaf_port, gui_port, openflow_port],
                            cluster_env = env, cluster_hosts = hosts', cluster_switches = switches\<rparr>
                   in (d3, fix_ip_tables @ cmds, Inr (c, fst s + length nodes)))))"

definition inport :: "int \<Rightarrow> nat \<Rightarrow> nat \<Rightarrow> int" where
  "inport port offset index = port + int offset + int index"

text \<open>The rules of a cluster: the table as an option of the command, and the rule.\<close>

definition forward_rules :: "onos_cluster \<Rightarrow> int list \<Rightarrow> (string \<times> string) list" where
  "forward_rules c ports =
     ([], ''FORWARD -d '' @ ip_base c @ '' -j ACCEPT'') #
     concat (map (\<lambda>port. map (\<lambda>(index, node). (''-t nat '', ''PREROUTING -t nat -p tcp --dport '' @
         int_str (inport port (port_offset c) index) @ '' -j DNAT --to-destination '' @ onos_ip node @ '':'' @ int_str port))
       (enumerate 0 (cluster_nodes c))) ports)"

definition rule_cmd :: "char \<Rightarrow> string \<times> string \<Rightarrow> string" where
  "rule_cmd action r = ''iptables '' @ fst r @ ''-'' @ [action] @ '' '' @ snd r"

definition cluster_forwarding :: "onos_cluster \<Rightarrow> int list \<Rightarrow> char \<Rightarrow> bench_cmd list" where
  "cluster_forwarding c ports action =
     map (\<lambda>r. NodeCmd (cluster_name c) (rule_cmd action r)) (forward_rules c ports)"

text \<open>What starting a cluster runs, node after node; then it waits for each node in turn.\<close>

definition cluster_start_cmds ::
  "bench_world \<Rightarrow> string \<Rightarrow> string \<Rightarrow> onos_cluster \<Rightarrow> bench_cmd list \<times> unit result"
where
  "cluster_start_cmds w user onos_root c =
     (let ips = map onos_ip (cluster_nodes c);
          start = (\<lambda>n. node_start w user onos_root n (cluster_env c) ips);
          (started, r) = foldl (\<lambda>(cmds, r) n. case r of
              Inl e \<Rightarrow> (cmds, Inl e)
            | Inr _ \<Rightarrow> (cmds @ fst (start n), bindE (snd (start n)) (\<lambda>_. Inr ()))) ([], Inr ()) (cluster_nodes c)
      in case r of
           Inl e \<Rightarrow> (started, Inl e)
         | Inr _ \<Rightarrow> (started @ cluster_forwarding c (forward c) (CHR ''D'') @
                      cluster_forwarding c (forward c) (CHR ''A''), Inr ()))"

fun cluster_wait :: "onos_node list \<Rightarrow> node_poll list \<Rightarrow> node_poll list \<times> wait_result" where
  "cluster_wait [] ps = (ps, Ready)"
| "cluster_wait (n # ns) ps =
     (case wait_started n 0 ps of (_, ps', r) \<Rightarrow> (if r = Ready then cluster_wait ns ps' else (ps', r)))"

definition cluster_stop :: "onos_cluster \<Rightarrow> bench_cmd list" where
  "cluster_stop c = cluster_forwarding c (forward c) (CHR ''D'') @ concat (map node_stop (cluster_nodes c))"

text \<open>A switch connects to the nodes of the one controller it is given, which has to be a cluster.\<close>

definition switch_controllers :: "(string \<times> onos_cluster) list \<Rightarrow> onos_node list result" where
  "switch_controllers controllers =
     (case controllers of
        [(cls, c)] \<Rightarrow> (if is_infix ''ONOSCluster'' cls then Inr (cluster_nodes c) else Inl assertion_error)
      | _ \<Rightarrow> Inl assertion_error)"

section \<open>Commands of the shell\<close>

definition cli_line :: "string \<Rightarrow> string" where
  "cli_line line =
     (let l = (if is_prefix '':'' line then ''onos'' @ line else line) in if l \<noteq> [] then quote l else l)"

text \<open>The command \<open>do_onos\<close> hands to the shell; \<open>None\<close> if the first controller is no cluster.\<close>

definition do_onos :: "(string \<times> onos_cluster) list \<Rightarrow> string \<Rightarrow> string option result" where
  "do_onos controllers line =
     (case controllers of
        [] \<Rightarrow> Inl IndexError
      | (cls, c) # _ \<Rightarrow>
          (if \<not> is_infix ''ONOSCluster'' cls then Inr None
           else (case cluster_hosts c of
               [] \<Rightarrow> Inl IndexError
             | n # _ \<Rightarrow> Inr (Some (onos_name n @ '' client -h '' @ onos_name n @ '' '' @ cli_line line)))))"

definition status_text :: "node_poll \<Rightarrow> string" where
  "status_text p =
     (let (errors, warnings) = check_log p;
          s = (if errors \<noteq> [] then nat_str (length errors) @ '' ERRORS '' else []) @
              (if warnings \<noteq> [] then nat_str (length warnings) @ '' warnings'' else [])
      in if s \<noteq> [] then s else ''OK'')"

definition do_status :: "(string \<times> onos_cluster) list \<Rightarrow> (onos_node \<Rightarrow> node_poll) \<Rightarrow> (string \<times> string \<times> string) list" where
  "do_status controllers look =
     concat (map (\<lambda>(cls, c). if is_infix ''ONOSCluster'' cls
       then map (\<lambda>n. (onos_name n, if is_running (look n) then ''Running'' else ''Exited'', status_text (look n)))
         (filter is_onos_node (cluster_hosts c)) else []) controllers)"

definition do_arp :: "string \<Rightarrow> string \<Rightarrow> (string \<times> string \<times> string) list \<Rightarrow> bench_cmd list" where
  "do_arp line help hosts =
     (let count = (case int_of_string line of Inl _ \<Rightarrow> 1 | Inr n \<Rightarrow> n)
      in if \<not> is_infix ''-U'' help then []
         else map (\<lambda>(host, intf, ip). NodeCmd host (''arping -bf -c '' @ int_str count @ '' -U -I '' @ intf @ '' '' @ ip)) hosts)"

datatype updown = NoName | NoCluster | NoInstance string | NotANode | Bringing string string

definition onos_up_down :: "string \<Rightarrow> string \<Rightarrow> (string \<times> onos_cluster) list \<Rightarrow> updown result" where
  "onos_up_down cmd inst controllers =
     (if inst = [] then Inr NoName
      else (case controllers of
        [] \<Rightarrow> Inl IndexError
      | (cls, c) # _ \<Rightarrow>
          (if \<not> is_infix ''ONOSCluster'' cls then Inr NoCluster
           else (case filter (\<lambda>n. onos_name n = inst) (cluster_hosts c) of
               [] \<Rightarrow> Inr (if inst \<in> set (cluster_switches c) then NotANode else NoInstance inst)
             | n # _ \<Rightarrow> Inr (if is_onos_node n then Bringing inst cmd else NotANode)))))"

section \<open>The environment names the nodes\<close>

lemma nat_str_not_letter: "nat_str i \<noteq> ''I''" "nat_str i \<noteq> ''N''"
proof -
  have "digits_val 0 ''I'' = None" "digits_val 0 ''N'' = None" by (simp_all add: digit_of_def upt_rec)
  then show "nat_str i \<noteq> ''I''" "nat_str i \<noteq> ''N''" using digits_val_nat_str[of i] by auto
qed

lemma put_ips_other: "\<forall>j \<ge> i. k \<noteq> ''OC'' @ nat_str j \<Longrightarrow> map_of (put_ips i ips env) k = map_of env k"
  by (induction ips arbitrary: i env) simp_all

lemma put_ips_earlier: "j < i \<Longrightarrow> map_of (put_ips i ips env) (''OC'' @ nat_str j) = map_of env (''OC'' @ nat_str j)"
  by (induction ips arbitrary: i env) (auto simp: nat_str_inj)

lemma put_ips_found: "j < length ips \<Longrightarrow> map_of (put_ips i ips env) (''OC'' @ nat_str (i + j)) = Some (ips ! j)"
proof (induction ips arbitrary: i j env)
  case (Cons ip ips)
  then show ?case
  proof (cases j)
    case 0
    then show ?thesis using put_ips_earlier[of i "Suc i" ips "dict_put (''OC'' @ nat_str i) ip env"] by simp
  next
    case (Suc m)
    then show ?thesis using Cons.IH[of m "Suc i" "dict_put (''OC'' @ nat_str i) ip env"] Cons.prems by simp
  qed
qed simp

lemma put_ips_past:
  "length ips \<le> j \<Longrightarrow> map_of (put_ips i ips env) (''OC'' @ nat_str (i + j)) = map_of env (''OC'' @ nat_str (i + j))"
proof (induction ips arbitrary: i j env)
  case (Cons ip ips)
  then show ?case using Cons.IH[of "j - 1" "Suc i" "dict_put (''OC'' @ nat_str i) ip env"]
    by (cases j) (auto simp: nat_str_inj)
qed simp

lemma map_of_clear_vars: "map_of (clear_vars vars env) k = (if k \<in> set vars then Some [] else map_of env k)"
  by (induction vars arbitrary: env) (auto simp: clear_vars_def)

text \<open>
  The environment of a cluster names its nodes in order, and every variable for a node that a larger cluster has left in the
  environment is emptied, so that the shell of a node unsets it.
\<close>

theorem env_names_nodes:
  assumes "update_node_ips ips (environ, env) = (environ', env')"
  shows "(\<forall>j < length ips. map_of env' (''OC'' @ nat_str (Suc j)) = Some (ips ! j)) \<and>
    (\<forall>j \<ge> length ips. has_key environ (''OC'' @ nat_str (Suc j)) \<longrightarrow> map_of env' (''OC'' @ nat_str (Suc j)) = Some []) \<and>
    (ips \<noteq> [] \<longrightarrow> map_of env' ''OCI'' = Some (hd ips) \<and> map_of env' ''OCN'' = Some (hd ips)) \<and>
    map_of env' ''ONOS_INSTANCES'' = Some (join newline ips)"
proof -
  define e2 where "e2 = clear_vars (filter (is_prefix ''OC'') (map fst environ)) (clear_vars [''ONOS_NIC'', ''ONOS_CELL'', ''ONOS_INSTANCES''] env)"
  define e3 where "e3 = put_ips 1 ips e2"
  have look: "map_of env' k = map_of e3 k" if "k \<noteq> ''ONOS_INSTANCES''" "k \<noteq> ''OCI''" "k \<noteq> ''OCN''" for k
    using assms that by (auto simp: update_node_ips_def Let_def e2_def e3_def split: if_splits)
  have index: "''OC'' @ nat_str j \<noteq> ''ONOS_INSTANCES''" "''OC'' @ nat_str j \<noteq> ''OCI''" "''OC'' @ nat_str j \<noteq> ''OCN''" for j
    using nat_str_not_letter[of j] by simp_all
  have "map_of env' (''OC'' @ nat_str (Suc j)) = Some (ips ! j)" if "j < length ips" for j
    using put_ips_found[OF that, of 1 e2] unfolding look[OF index] e3_def by simp
  moreover have "map_of env' (''OC'' @ nat_str (Suc j)) = Some []"
    if "length ips \<le> j" "has_key environ (''OC'' @ nat_str (Suc j))" for j
  proof -
    have "map_of e2 (''OC'' @ nat_str (Suc j)) = Some []"
      using that(2) by (simp add: e2_def map_of_clear_vars has_key_iff)
    then show ?thesis using put_ips_past[OF that(1), of 1 e2] unfolding look[OF index] e3_def by simp
  qed
  moreover have "ips \<noteq> [] \<Longrightarrow> map_of e3 ''OC1'' = Some (hd ips)"
    using put_ips_found[of 0 ips 1 e2] by (simp add: e3_def hd_conv_nth nat_str.simps[of "Suc 0"] digit_char_def)
  then have "ips \<noteq> [] \<Longrightarrow> map_of env' ''OCI'' = Some (hd ips) \<and> map_of env' ''OCN'' = Some (hd ips)"
    using assms by (auto simp: update_node_ips_def Let_def e2_def e3_def)
  moreover have "map_of env' ''ONOS_INSTANCES'' = Some (join newline ips)"
    using assms by (auto simp: update_node_ips_def Let_def)
  ultimately show ?thesis by blast
qed

theorem env_names_nodes_witness:
  "map_of (snd (update_node_ips [''10.0.0.1''] ([(''OC2'', ''10.0.0.9'')], []))) ''OCI'' = Some ''10.0.0.1''"
proof -
  obtain a b where ab: "update_node_ips [''10.0.0.1''] ([(''OC2'', ''10.0.0.9'')], []) = (a, b)"
    by (cases "update_node_ips [''10.0.0.1''] ([(''OC2'', ''10.0.0.9'')], [])")
  show ?thesis using env_names_nodes[OF ab] by (simp add: ab)
qed

section \<open>Ports of several clusters\<close>

text \<open>Clusters created one after the other without an offset of their own, and the ports that are forwarded to their nodes.\<close>

fun clusters_new :: "bench_world \<Rightarrow> (string \<times> onos_node list \<times> string list) list \<Rightarrow> nat \<times> env \<Rightarrow> onos_cluster list result" where
  "clusters_new w [] s = Inr []"
| "clusters_new w ((name, hosts, switches) # specs) s =
     (case cluster_new w name None None None hosts switches s of
        (d, _, Inl e) \<Rightarrow> Inl e
      | (d, _, Inr (c, k)) \<Rightarrow> bindE (clusters_new w specs (k, d)) (\<lambda>cs. Inr (c # cs)))"

definition inports :: "onos_cluster \<Rightarrow> int list" where
  "inports c = concat (map (\<lambda>port. map (inport port (port_offset c)) [0..<length (cluster_nodes c)]) (forward c))"

definition port_block :: "nat \<Rightarrow> nat \<Rightarrow> int list" where
  "port_block k n = concat (map (\<lambda>port. map (inport port k) [0..<n]) [karaf_port, gui_port, openflow_port])"

lemma port_block_add: "mset (port_block k (m + n)) = mset (port_block k m) + mset (port_block (k + m) n)"
proof -
  have "map (inport port k) [0..<m + n] = map (inport port k) [0..<m] @ map (inport port (k + m)) [0..<n]" for port
    by (rule nth_equalityI) (auto simp: nth_append inport_def)
  then show ?thesis by (simp add: port_block_def)
qed

lemma port_block_distinct: "distinct (port_block k n) \<longleftrightarrow> n \<le> 80"
proof -
  have each: "distinct (map (inport port k) [0..<n])" for port
    by (simp add: distinct_map inj_on_def inport_def)
  have range: "set (map (inport port k) [0..<n]) = {port + int k ..< port + int k + int n}" for port
  proof -
    have "x \<in> inport port k ` {0..<n}" if "port + int k \<le> x" "x < port + int k + int n" for x
      by (rule image_eqI[of _ _ "nat (x - port - int k)"]) (use that in \<open>auto simp: inport_def\<close>)
    then show ?thesis by (auto simp: inport_def)
  qed
  have meet: "{a ..< a + int n} \<inter> {b ..< b + int n} = {} \<longleftrightarrow> n = 0 \<or> int n \<le> \<bar>a - b\<bar>" for a b :: int
  proof -
    have "max a b \<in> {a ..< a + int n} \<inter> {b ..< b + int n} \<longleftrightarrow> \<not> int n \<le> \<bar>a - b\<bar>" by auto
    then show ?thesis by auto
  qed
  show ?thesis
    unfolding port_block_def karaf_port_def gui_port_def openflow_port_def
    by (simp add: each range meet Int_Un_distrib del: set_map set_upt) auto
qed

lemma cluster_new_ok:
  assumes "cluster_new w name None base None hosts switches s = (d, cmds, Inr (c, k))"
  shows "port_offset c = fst s \<and> forward c = [karaf_port, gui_port, openflow_port] \<and>
    k = fst s + length (cluster_nodes c)"
  using assms by (auto simp: cluster_new_def or_default_def cluster_nodes_def Let_def split: sum.splits prod.splits)

lemma clusters_new_block:
  "clusters_new w specs s = Inr cs \<Longrightarrow>
    mset (concat (map inports cs)) = mset (port_block (fst s) (sum_list (map (\<lambda>c. length (cluster_nodes c)) cs)))"
proof (induction w specs s arbitrary: cs rule: clusters_new.induct)
  case (1 w s)
  then show ?case by (simp add: port_block_def)
next
  case (2 w name hosts switches specs s)
  then obtain d cmds c k cs' where c: "cluster_new w name None None None hosts switches s = (d, cmds, Inr (c, k))"
    and rest: "clusters_new w specs (k, d) = Inr cs'" and cs: "cs = c # cs'"
    by (auto simp: res_simps split: prod.splits sum.splits)
  note ok = cluster_new_ok[OF c]
  have "inports c = port_block (fst s) (length (cluster_nodes c))" using ok by (simp add: inports_def port_block_def)
  moreover have "mset (concat (map inports cs')) = mset (port_block k (sum_list (map (\<lambda>c. length (cluster_nodes c)) cs')))"
    using 2(1)[OF c[symmetric] refl refl refl rest] by simp
  ultimately show ?case using ok by (simp add: cs port_block_add)
qed

text \<open>
  The ports forwarded to the nodes of several clusters are all different as long as there are at most eighty nodes;
  with more the port of the karaf shell of one node is the one of the web interface of another.
\<close>

theorem clusters_share_no_port:
  assumes "clusters_new w specs s = Inr cs"
  shows "distinct (concat (map inports cs)) \<longleftrightarrow> sum_list (map (\<lambda>c. length (cluster_nodes c)) cs) \<le> 80"
  using mset_eq_imp_distinct_iff[OF clusters_new_block[OF assms]] by (simp add: port_block_distinct)

section \<open>Rules come and go with the cluster\<close>

text \<open>What \<open>iptables\<close> makes of its rules: \<open>-A\<close> appends one, \<open>-D\<close> removes the first that is equal, if there is one.\<close>

definition table_step :: "(string \<times> string) list \<Rightarrow> char \<times> string \<times> string \<Rightarrow> (string \<times> string) list" where
  "table_step rules ar = (if fst ar = CHR ''A'' then rules @ [snd ar] else remove1 (snd ar) rules)"

definition table_run :: "char \<Rightarrow> (string \<times> string) list \<Rightarrow> (string \<times> string) list \<Rightarrow> (string \<times> string) list" where
  "table_run action rs rules = foldl table_step rules (map (\<lambda>r. (action, r)) rs)"

lemma table_append: "table_run (CHR ''A'') rs rules = rules @ rs"
  by (induction rs arbitrary: rules) (simp_all add: table_run_def table_step_def)

lemma table_remove: "set rules \<inter> set rs = {} \<Longrightarrow> table_run (CHR ''D'') rs (rules @ rs) = rules"
proof (induction rs arbitrary: rules)
  case (Cons r rs)
  then have "remove1 r (rules @ r # rs) = rules @ rs" by (simp add: remove1_append)
  then show ?case using Cons by (simp add: table_run_def table_step_def)
qed (simp add: table_run_def)

lemma table_remove_none: "set rules \<inter> set rs = {} \<Longrightarrow> table_run (CHR ''D'') rs rules = rules"
  by (induction rs) (simp_all add: table_run_def table_step_def remove1_idem)

text \<open>
  The rules of a cluster are there once after any number of starts without a stop between them, and stopping the
  cluster leaves the rules as they were before.
\<close>

definition rules_started :: "onos_cluster \<Rightarrow> (string \<times> string) list \<Rightarrow> (string \<times> string) list" where
  "rules_started c rules =
     table_run (CHR ''A'') (forward_rules c (forward c)) (table_run (CHR ''D'') (forward_rules c (forward c)) rules)"

definition rules_stopped :: "onos_cluster \<Rightarrow> (string \<times> string) list \<Rightarrow> (string \<times> string) list" where
  "rules_stopped c rules = table_run (CHR ''D'') (forward_rules c (forward c)) rules"

theorem forwarding_comes_and_goes:
  assumes "set rules \<inter> set (forward_rules c (forward c)) = {}"
  shows "(rules_started c ^^ Suc k) rules = rules @ forward_rules c (forward c) \<and>
    rules_stopped c ((rules_started c ^^ Suc k) rules) = rules"
proof -
  have "(rules_started c ^^ Suc k) rules = rules @ forward_rules c (forward c)"
  proof (induction k)
    case 0
    show ?case by (simp add: rules_started_def table_append table_remove_none[OF assms])
  next
    case (Suc k)
    then show ?case by (simp add: rules_started_def table_append table_remove[OF assms])
  qed
  then show ?thesis by (simp add: rules_stopped_def table_remove[OF assms])
qed

section \<open>Waiting for a node\<close>

lemma sanity_quiet: "alert_action n \<notin> {''exception'', ''exit''} \<Longrightarrow> \<exists>e. mem_available (meminfo p) = Inr e \<Longrightarrow>
    snd (sanity_check n seen p) = Inr ()"
  by (auto simp: sanity_check_def sanity_alert_def Let_def split: prod.splits)

text \<open>
  As long as no check raises, waiting for a node ends exactly if the five events it waits for are seen in their order, at
  whatever distance; otherwise it goes on, also when the node has died.
\<close>

theorem wait_started_iff:
  assumes "\<forall>p \<in> set ps. \<forall>seen. snd (sanity_check n seen p) = Inr ()"
  shows "snd (snd (wait_started n seen ps)) =
    (if \<exists>qs. subseq qs ps \<and> list_all2 (\<lambda>ok q. ok (polled q)) (start_phases n) qs then Ready else Waiting)"
proof -
  have "snd (snd (wait_phases n oks seen ps)) =
      (if \<exists>qs. subseq qs ps \<and> list_all2 (\<lambda>ok q. ok (polled q)) oks qs then Ready else Waiting)" for oks
    using assms
  proof (induction n oks seen ps rule: wait_phases.induct)
    case (1 n seen ps)
    then show ?case by auto
  next
    case (2 n ok oks seen)
    then show ?case by (auto dest: list_emb_Nil2)
  next
    case (3 n ok oks seen p ps)
    let ?all = "\<lambda>oks qs. list_all2 (\<lambda>ok q. ok (polled q)) oks qs"
    show ?case
    proof (cases "ok (polled p)")
      case True
      have "(\<exists>qs. subseq qs (p # ps) \<and> ?all (ok # oks) qs) \<longleftrightarrow> (\<exists>qs. subseq qs ps \<and> ?all oks qs)" (is "?L \<longleftrightarrow> ?R")
      proof
        assume ?L
        then obtain q qs where "subseq (q # qs) (p # ps)" "?all oks qs" by (auto simp: list_all2_Cons1)
        moreover from this(1) have "subseq qs ps" by (metis subseq_Cons' subseq_Cons2_iff)
        ultimately show ?R by blast
      next
        assume ?R
        then show ?L using True by (metis list_all2_Cons subseq_Cons2)
      qed
      then show ?thesis using 3(1)[OF True] 3(3) True by simp
    next
      case False
      obtain seen' where check: "sanity_check n seen p = (seen', Inr ())"
        using 3(3) by (metis list.set_intros(1) prod.collapse)
      have "subseq qs (p # ps) \<and> ?all (ok # oks) qs \<longleftrightarrow> subseq qs ps \<and> ?all (ok # oks) qs" for qs
        using False by (cases qs) (auto simp: subseq_Cons2_iff)
      then show ?thesis using 3(2)[OF False check[symmetric] refl] 3(3) False check by simp
    qed
  qed
  then show ?thesis by (simp add: wait_started_def)
qed

definition example_poll :: "string \<Rightarrow> node_poll" where
  "example_poll out = \<lparr>polled = out, ps_output = ''running'', log_text = None, meminfo = ''MemAvailable: 200000 kB''\<rparr>"

definition example_node :: onos_node where
  "example_node = \<lparr>onos_name = ''onos1'', onos_class = ''ONOSNode'', onos_ip = ''10.0.0.1'', alert_action = ''warn'', onos_home = ''/tmp''\<rparr>"

definition example_polls :: "node_poll list" where
  "example_polls = map example_poll
     [''Not running ...'', ''Running ...'', ''tcp 0 0 :::8101 :::* LISTEN 77/java'', ''tcp 0 0 :::6653 :::* LISTEN 77/java'',
      ''* 12 org.onosproject.openflow'', ''id=10.0.0.1, address=10.0.0.1:9876, state=READY, updated 1s ago'']"

theorem wait_started_iff_witness:
  "snd (snd (wait_started example_node 0 example_polls)) = Ready"
proof -
  have "strip ''MemAvailable: 200000 kB'' = ''MemAvailable: 200000 kB''" by (simp add: strip_def is_space_def)
  moreover have "words ''MemAvailable: 200000 kB'' = [''MemAvailable:'', ''200000'', ''kB'']"
    by (simp add: words_def is_space_def)
  moreover have "str_lower ''kB'' = ''kb''" by code_simp
  moreover have "int_of_string ''200000'' = Inr 200000"
    by (simp add: int_of_string_def nat_of_string_def strip_def is_space_def digit_of_def upt_rec)
  ultimately have mem: "mem_available ''MemAvailable: 200000 kB'' = Inr 200000" by (simp add: mem_available_def)
  have "mem_available (meminfo p) = Inr 200000" if p: "p \<in> set example_polls" for p
  proof -
    obtain out where "p = example_poll out" using p unfolding example_polls_def set_map by (rule imageE)
    then show ?thesis by (simp only: example_poll_def node_poll.simps mem)
  qed
  then have quiet: "\<forall>p \<in> set example_polls. \<forall>seen. snd (sanity_check example_node seen p) = Inr ()"
    by (auto intro!: sanity_quiet simp: example_node_def)
  have "subseq (tl example_polls) example_polls" by (simp add: example_polls_def)
  moreover have "list_all2 (\<lambda>ok q. ok (polled q)) (start_phases example_node) (tl example_polls)"
  proof -
    have port: "int_str 8101 = ''8101''" "int_str 6653 = ''6653''" "int_str 9876 = ''9876''"
      by (simp_all add: int_str_def nat_str.simps digit_char_def)
    have "karaf_up ''Running ...''" by code_simp
    moreover have "listening karaf_port ''java'' ''tcp 0 0 :::8101 :::* LISTEN 77/java''"
      by (simp add: listening_def karaf_port_def port strip_def words_def is_space_def Let_def)
    moreover have "listening openflow_port ''java'' ''tcp 0 0 :::6653 :::* LISTEN 77/java''"
      by (simp add: listening_def openflow_port_def port strip_def words_def is_space_def Let_def)
    moreover have "node_ready example_node ''id=10.0.0.1, address=10.0.0.1:9876, state=READY, updated 1s ago''"
      by (simp add: node_ready_def copycat_port_def port example_node_def)
    ultimately show ?thesis by (simp add: start_phases_def example_polls_def example_poll_def)
  qed
  ultimately show ?thesis unfolding wait_started_iff[OF quiet] by auto
qed

lemma strict_check: "alert_action n = ''exception'' \<Longrightarrow> sanity_check n seen p = (seen', Inr ()) \<Longrightarrow>
    is_running p \<and> fst (check_log p) = []"
  by (auto simp: sanity_check_def sanity_alert_def Let_def split: prod.splits if_splits)

text \<open>With the default action a node that has died ends the wait: a wait that succeeds has only seen a running node without errors.\<close>

theorem strict_wait_is_healthy:
  assumes "alert_action n = ''exception''" "wait_started n seen ps = (seen', rest, Ready)"
  shows "\<exists>used. ps = used @ rest \<and>
    (\<forall>p \<in> set used. (\<exists>ok \<in> set (start_phases n). ok (polled p)) \<or> is_running p \<and> fst (check_log p) = [])"
proof -
  have "\<exists>used. ps = used @ rest \<and> (\<forall>p \<in> set used. (\<exists>ok \<in> set oks. ok (polled p)) \<or> is_running p \<and> fst (check_log p) = [])"
    if "wait_phases n oks seen ps = (seen', rest, Ready)" for oks
    using that assms(1)
  proof (induction n oks seen ps rule: wait_phases.induct)
    case (3 n ok oks seen p ps)
    show ?case
    proof (cases "ok (polled p)")
      case True
      then obtain used where "ps = used @ rest"
        "\<forall>p \<in> set used. (\<exists>ok \<in> set oks. ok (polled p)) \<or> is_running p \<and> fst (check_log p) = []"
        using 3(1) 3(3,4) by auto
      then show ?thesis using True by (intro exI[of _ "p # used"]) auto
    next
      case False
      then obtain seen1 where c: "sanity_check n seen p = (seen1, Inr ())"
        and rest: "wait_phases n (ok # oks) seen1 ps = (seen', rest, Ready)"
        using 3(3) by (auto split: prod.splits sum.splits)
      obtain used where "ps = used @ rest"
        "\<forall>p \<in> set used. (\<exists>ok \<in> set (ok # oks). ok (polled p)) \<or> is_running p \<and> fst (check_log p) = []"
        using 3(2)[OF False c[symmetric] refl rest 3(4)] by auto
      then have "p # ps = (p # used) @ rest \<and> (\<forall>p \<in> set (p # used). (\<exists>ok \<in> set (ok # oks). ok (polled p)) \<or>
          is_running p \<and> fst (check_log p) = [])" using strict_check[OF 3(4) c] by simp
      then show ?thesis by blast
    qed
  qed auto
  then show ?thesis using assms(2) by (simp add: wait_started_def)
qed

end
