(* ===== verification/Cluster_Bench.thy ===== *)
theory Cluster_Bench
  imports Onos_Cluster "HOL-Library.Char_ord" "HOL-Library.List_Lexorder"
begin

text \<open>
  The test bench for clusters of controllers under \<open>tools/dev/tennison-experimenter/experimenter\<close>: the TENNISON
  node (\<open>tennison.py\<close>), the network of two clusters (\<open>multicluster.py\<close>) and the high availability tests
  (\<open>old/ha.py\<close>).

  Mininet and the commands it runs are outside: an operation is the list of its commands in their order, a topology is the
  list of its nodes and links. Messages to the user and pauses are left out.
\<close>

section \<open>The TENNISON node\<close>

record tennison_node =
  node_name :: string
  node_offset :: int
  node_base :: string
  node_ip :: string
  node_gw :: string
  node_dir :: string
  node_install :: string

definition tennison_static_dir :: string where
  "tennison_static_dir = ''/home/ubuntu/TENNISON/coordinator''"

definition mongo_static_dir :: string where
  "mongo_static_dir = ''/opt/mongodb''"

definition tennison_run_cmd :: string where
  "tennison_run_cmd = ''tennison.py -c coordinator/examples/config_cluster.yaml -t coordinator/examples/thresholds.yaml''"

definition mongodb_run_cmd :: string where
  "mongodb_run_cmd = ''mongodb/bin/mongod --dbpath db''"

definition unpack_tennison :: "string \<Rightarrow> string \<Rightarrow> string \<times> bench_cmd list" where
  "unpack_tennison name dest =
     (dest @ ''/coordinator'',
      [NodeCmd name (''mkdir -p '' @ [CHR 0x22] @ dest @ [CHR 0x22] @ '' && cd '' @ [CHR 0x22] @ dest @ [CHR 0x22]),
       NodeCmd name (''cp -r '' @ tennison_static_dir @ '' '' @ dest),
       NodeCmd name (''cp -r '' @ mongo_static_dir @ '' '' @ dest),
       NodeCmd name (''mkdir -p '' @ dest @ ''/db'')])"

definition tennison_node_new ::
  "string \<Rightarrow> int option \<Rightarrow> string option \<Rightarrow> string option \<Rightarrow> string option \<Rightarrow> tennison_node \<times> bench_cmd list"
where
  "tennison_node_new name offset base ip gw =
     (let dir = ''/tmp/'' @ name; (install, cmds) = unpack_tennison name dir
      in (\<lparr>node_name = name, node_offset = or_default offset 0, node_base = or_default base ''192.168.123.0/24'',
           node_ip = or_default ip ''192.168.123.100'', node_gw = or_default gw ''192.168.123.2'',
           node_dir = dir, node_install = install\<rparr>,
          NodeCmd name (''rm -rf '' @ dir) # cmds))"

definition forward_rule :: "tennison_node \<Rightarrow> int \<Rightarrow> string" where
  "forward_rule n port = ''PREROUTING -t nat -p tcp --dport '' @ int_str (port + node_offset n) @
     '' -j DNAT --to-destination '' @ node_ip n @ '':'' @ int_str port"

definition config_port_forwarding :: "tennison_node \<Rightarrow> int list \<Rightarrow> char \<Rightarrow> bench_cmd list" where
  "config_port_forwarding n ports action =
     NodeCmd (node_name n) (''iptables -'' @ [action] @ '' FORWARD -d '' @ node_base n @ '' -j ACCEPT'') #
     map (\<lambda>port. RootCmd (''iptables -t nat -'' @ [action] @ '' '' @ forward_rule n port)) ports"

definition tennison_node_start :: "tennison_node \<Rightarrow> bench_cmd list" where
  "tennison_node_start n =
     [NodeCmd (node_name n) (mongodb_run_cmd @ '' > '' @ node_dir n @ ''/mongod.out 2>&1 &''),
      NodeCmd (node_name n) (''python3 '' @ node_install n @ ''/'' @ tennison_run_cmd @ '' > coordinator.out 2>&1 &'')] @
     config_port_forwarding n [5000] (CHR ''D'') @ config_port_forwarding n [5000] (CHR ''A'')"

definition tennison_node_stop :: "tennison_node \<Rightarrow> bench_cmd list" where
  "tennison_node_stop n = map (NodeCmd (node_name n)) [''rm -rf '' @ node_dir n, ''pkill -9 python'', ''pkill -9 mongod'']"

text \<open>Setting the interfaces down or up: the errors reported, given the outputs of the commands; the methods are those of an ONOS node.\<close>

definition set_intfs :: "string \<Rightarrow> (string \<times> string) list \<Rightarrow> string list" where
  "set_intfs state outputs = intf_errors state outputs"

section \<open>Two clusters\<close>

text \<open>The first half of the switches is controlled by one cluster, the rest by the other; the division rounds down.\<close>

definition assign_controllers :: "string list \<Rightarrow> (string \<times> string) list" where
  "assign_controllers switches =
     map (\<lambda>(i, s). (s, if i < length switches div 2 then ''alpha'' else ''beta'')) (enumerate 0 switches)"

definition controller_map :: "(string \<times> string) list \<Rightarrow> (string \<times> string list) list" where
  "controller_map assigned =
     foldl (\<lambda>m (s, c). dict_put c ((case map_of m c of None \<Rightarrow> [] | Some xs \<Rightarrow> xs) @ [s]) m) [] assigned"

definition do_controllers :: "(string \<times> string) list \<Rightarrow> string list" where
  "do_controllers assigned =
     (let cmap = controller_map assigned
      in map (\<lambda>c. c @ '': '' @ join '' '' (the (map_of cmap c))) (sort (map fst cmap)))"

text \<open>\<open>multicluster.py\<close> has its own copy of the function of \<open>onos.py\<close>.\<close>

definition fix_iptables :: "bench_cmd list" where
  "fix_iptables = fix_ip_tables"

record loading =
  is_loading :: bool
  progress_now :: int
  status :: string

definition update_loading_bar :: "int \<Rightarrow> string \<Rightarrow> loading \<Rightarrow> loading" where
  "update_loading_bar increment st l = l\<lparr>progress_now := progress_now l + increment, status := st\<rparr>"

text \<open>\<open>round\<close> of Python 2 goes away from zero at a half.\<close>

definition round_half_away :: "rat \<Rightarrow> int" where
  "round_half_away q = (if 0 \<le> q then \<lfloor>q + 1 / 2\<rfloor> else - \<lfloor>- q + 1 / 2\<rfloor>)"

definition filled_len :: "int \<Rightarrow> int" where
  "filled_len done_now = round_half_away (46 * of_int done_now / 100)"

text \<open>The text of a percentage, a float, is the argument; nothing is written when loading has ended.\<close>

definition progress :: "(rat \<Rightarrow> string) \<Rightarrow> loading \<Rightarrow> string" where
  "progress percent_text l =
     (if \<not> is_loading l then []
      else (let filled = filled_len (progress_now l) in
        [CHR 0x1B] @ ''[K'' @ [CHR 0x0D] @ ''['' @ replicate (nat filled) CHR ''='' @ replicate (nat (46 - filled)) CHR ''-'' @ ''] '' @
        percent_text (of_int (progress_now l)) @ ''% ...'' @ status l @ [CHR 0x0D]))"

text \<open>One round of the loop in \<open>loading_bar\<close>: the state after it, and what it writes.\<close>

definition loading_round :: "(rat \<Rightarrow> string) \<Rightarrow> loading \<Rightarrow> loading \<times> string" where
  "loading_round percent_text l =
     (let l1 = l\<lparr>progress_now := progress_now l + 1\<rparr>;
          l2 = (if progress_now l1 > 100 then l1\<lparr>progress_now := 100, is_loading := False\<rparr> else l1)
      in (l2, progress percent_text l2))"

text \<open>
  \<open>run\<close> of \<open>multicluster.py\<close>: the steps from the first update of the bar to the end of the session. The commands after the
  start of the network set the address and the route of a node before it is started.
\<close>

datatype bench_step =
    Bar int string | NewCluster string string string nat | NewNetwork nat
  | NewNode tennison_node string | Assign | StartNetwork | Cmd bench_cmd | EndLoading | OnosShell | StopNetwork

definition node_address :: "tennison_node \<Rightarrow> bench_step list" where
  "node_address n = map (\<lambda>c. Cmd (NodeCmd (node_name n) c))
     [''ifconfig '' @ node_name n @ ''-eth0 '' @ node_ip n, ''route add default gw '' @ node_gw n, ''ifconfig lo up'']"

definition alpha_node :: "tennison_node \<times> bench_cmd list" where
  "alpha_node = tennison_node_new ''alpha_t'' None (Some ''192.168.123.1/24'') (Some ''192.168.123.100'') (Some ''192.168.123.2'')"

definition beta_node :: "tennison_node \<times> bench_cmd list" where
  "beta_node = tennison_node_new ''beta_t'' (Some 100) (Some ''192.168.124.1/24'') (Some ''192.168.124.100'') (Some ''192.168.124.2'')"

definition install_apps :: "string \<Rightarrow> bench_step list" where
  "install_apps n = [Cmd (NodeCmd n ''/opt/onos/tools/dev/bash_profile''),
     Cmd (NodeCmd n ''/opt/onos-tennison-apps/install_apps_remote > onos-apps.log'')]"

definition multicluster_run :: "bench_step list" where
  "multicluster_run =
     [Bar 5 ''Transforiming cluster toplogies'', Bar 10 ''Creating alpha cluster'',
      NewCluster ''alpha'' ''192.168.123.0/24'' ''alpha_nat'' 0, Bar 10 ''Creating beta cluster'',
      NewCluster ''beta'' ''192.168.124.0/24'' ''beta_nat'' 100, Bar 10 ''Creating topology'',
      Bar 5 ''Compiling topologies'', NewNetwork 10, Bar 5 ''Adding tennison alpha''] @
     map Cmd (snd alpha_node) @ [NewNode (fst alpha_node) ''a_cs1'', Bar 5 ''Adding tennison beta''] @
     map Cmd (snd beta_node) @ [NewNode (fst beta_node) ''b_cs1'', Assign, Bar 5 ''Launching network, please wait'',
      StartNetwork, Bar 5 ''Starting tennison alpha''] @
     node_address (fst alpha_node) @ map Cmd (tennison_node_start (fst alpha_node)) @ [Bar 5 ''Starting tennison beta''] @
     node_address (fst beta_node) @ map Cmd (tennison_node_start (fst beta_node)) @ map Cmd fix_iptables @
     install_apps ''alpha_c1'' @ install_apps ''beta_c1'' @ [Bar 100 ''Loading complete'', EndLoading, OnosShell] @
     map Cmd (tennison_node_stop (fst alpha_node)) @ map Cmd (tennison_node_stop (fst beta_node)) @ [StopNetwork]"

section \<open>High availability tests: commands on the controllers\<close>

text \<open>The command \<open>onos_cli\<close> runs on a node with the address \<open>ip\<close>; a line that begins with a colon lacks its first word.\<close>

definition onos_cli :: "string \<Rightarrow> string \<Rightarrow> string" where
  "onos_cli ip line = ''client -h '' @ ip @ '' '' @ cli_line line"

text \<open>\<open>onos_all\<close> counts the nodes of all clusters, but addresses those of the first: with more nodes the index is out of range.\<close>

definition onos_all :: "string list list \<Rightarrow> string \<Rightarrow> string list result" where
  "onos_all clusters line =
     mapE (\<lambda>i. case clusters of [] \<Rightarrow> Inl IndexError
        | c0 # _ \<Rightarrow> (if i < length c0 then Inr (onos_cli (c0 ! i) line) else Inl IndexError)) [0 ..< length (concat clusters)]"

datatype test_step = PingAll | PauseShell | OnosAll string | LinkStatus string string string

definition partition_test :: "bool \<Rightarrow> string \<Rightarrow> string \<Rightarrow> test_step list" where
  "partition_test interactive cs1 cs2 =
     (let pause = (if interactive then [PauseShell] else []); look = [OnosAll ''nodes;partitions;partitions -c''] in
      [PingAll] @ pause @ look @ pause @ [LinkStatus cs1 cs2 ''down''] @ look @ pause @
      [LinkStatus cs1 cs2 ''up''] @ look @ pause)"

section \<open>High availability tests: the control network\<close>

record ha_topo =
  ha_switches :: "string list"
  ha_hosts :: "(string \<times> string) list"
  ha_links :: "(string \<times> string) list"
  switch_num :: nat

definition ha_empty :: ha_topo where
  "ha_empty = \<lparr>ha_switches = [], ha_hosts = [], ha_links = [], switch_num = 1\<rparr>"

definition add_link :: "string \<Rightarrow> string \<Rightarrow> ha_topo \<Rightarrow> ha_topo" where
  "add_link a b t = t\<lparr>ha_links := ha_links t @ [(a, b)]\<rparr>"

definition add_node :: "string \<Rightarrow> string \<Rightarrow> ha_topo \<Rightarrow> string \<Rightarrow> ha_topo" where
  "add_node sw cls t n = add_link sw (''onos'' @ n) (t\<lparr>ha_hosts := dict_put (''onos'' @ n) cls (ha_hosts t)\<rparr>)"

definition add_region :: "string \<Rightarrow> string \<Rightarrow> ha_topo \<Rightarrow> ha_topo \<times> string" where
  "add_region region cls t =
     (let sw = ''cs'' @ nat_str (switch_num t);
          t1 = t\<lparr>ha_switches := ha_switches t @ [sw], switch_num := switch_num t + 1\<rparr>
      in (foldl (add_node sw cls) t1 (split_on CHR '','' region), sw))"

fun add_regions :: "string \<Rightarrow> string option \<Rightarrow> string list \<Rightarrow> ha_topo \<Rightarrow> ha_topo" where
  "add_regions cls prev [] t = t"
| "add_regions cls prev (p # ps) t =
     (let (t1, cur) = add_region p cls t;
          t2 = (case prev of None \<Rightarrow> t1 | Some sw \<Rightarrow> add_link sw cur t1)
      in add_regions cls (Some cur) ps t2)"

definition node_list :: "nat \<Rightarrow> nat \<Rightarrow> string" where
  "node_list first number = join '','' (map nat_str [first ..< first + number])"

text \<open>
  \<open>HATopo.build\<close>. With partitions and dynamic clustering the variable of the first switch has no value, which
  raises after the new region was added.
\<close>

definition ha_build :: "string list \<Rightarrow> nat \<Rightarrow> bool \<Rightarrow> ha_topo result" where
  "ha_build partitions server_count dynamic =
     (let cls = (if dynamic then ''DynamicONOSNode'' else ''ONOSNode'') in
      if partitions \<noteq> [] then
        (if dynamic then Inl NameError else Inr (add_regions cls None partitions ha_empty))
      else
        (let (t1, cs1) = add_region (node_list 1 server_count) cls ha_empty in
         if \<not> dynamic then Inr t1
         else
           (let (t2, cs2) = add_region (node_list (server_count + 1) 2) cls t1;
                t3 = add_link cs1 cs2 t2;
                t4 = t3\<lparr>ha_hosts := dict_put ''server'' ''HTTP'' (ha_hosts t3)\<rparr>
            in Inr (foldl (\<lambda>t sw. add_link ''server'' sw t) t4 (ha_switches t4)))))"

section \<open>High availability tests: dynamic clusters\<close>

text \<open>\<open>genParts\<close>: the members of a partition are the first \<open>k\<close> of a queue that is rotated between partitions.\<close>

fun gen_parts_from :: "nat \<Rightarrow> nat \<Rightarrow> nat \<Rightarrow> 'a list \<Rightarrow> (nat \<times> 'a list) list" where
  "gen_parts_from i 0 k l = []"
| "gen_parts_from i (Suc m) k l = (i, take k l) # gen_parts_from (Suc i) m k (rotate1 l)"

definition gen_parts :: "'a list \<Rightarrow> nat \<Rightarrow> (nat \<times> 'a list) list" where
  "gen_parts nodes k = gen_parts_from 1 3 k nodes"

text \<open>The metadata file; the name, a hash of a constant text, is the argument.\<close>

definition gen_partitions :: "int \<Rightarrow> string list \<Rightarrow> pyval" where
  "gen_partitions hashed_name ips = PyDict
     [(''name'', PyInt hashed_name),
      (''nodes'', PyList (map (\<lambda>v. PyDict [(''id'', PyStr v), (''ip'', PyStr v), (''port'', PyInt 9876)]) ips)),
      (''partitions'', PyList (map (\<lambda>(i, ms). PyDict [(''id'', PyInt (int i)), (''members'', PyList (map PyStr ms))])
         (gen_parts ips 3)))]"

record dyn_node =
  dyn_name :: string
  should_start :: bool
  started :: bool
  remote :: "(string \<times> string) list"

definition remote_option :: "dyn_node \<Rightarrow> string \<Rightarrow> string \<Rightarrow> string" where
  "remote_option n k d = or_default (map_of (remote n) k) d"

text \<open>The environment a node is started with: a remote metadata file is added to the Java options.\<close>

definition dyn_env :: "string \<Rightarrow> dyn_node \<Rightarrow> (string \<times> string) list \<Rightarrow> (string \<times> string) list" where
  "dyn_env home n env =
     (let env1 = dict_put ''ONOS_HOME'' home env in
      if remote n = [] then env1
      else (let uri = ''-Donos.cluster.metadata.uri=http://'' @ remote_option n ''ip'' ''127.0.0.1'' @ '':'' @
                  remote_option n ''port'' ''8000'' @ ''/'' @ remote_option n ''filename'' ''cluster.json'';
                prev = or_default (map_of env1 ''JAVA_OPTS'') []
            in dict_put ''JAVA_OPTS'' (if prev \<noteq> [] then prev @ '':'' @ uri else uri) env1))"

definition dyn_start :: "dyn_node \<Rightarrow> dyn_node" where
  "dyn_start n = (if \<not> should_start n \<or> started n then n else n\<lparr>started := True\<rparr>)"

text \<open>
  The cluster of the scaling test: all nodes, and the names of the active ones. Node objects have no order of their own, so the
  argument \<open>ord\<close> stands for what \<open>sorted\<close> makes of a set of them.
\<close>

record dyn_cluster =
  dyn_nodes :: "dyn_node list"
  active_nodes :: "string list"

definition start_nodes :: "(string list \<Rightarrow> string list) \<Rightarrow> string list \<Rightarrow> dyn_cluster \<Rightarrow> dyn_cluster" where
  "start_nodes ord names c = c\<lparr>active_nodes := ord (remdups (active_nodes c @ names)),
     dyn_nodes := map (\<lambda>n. if dyn_name n \<in> set names then dyn_start (n\<lparr>should_start := True\<rparr>) else n) (dyn_nodes c)\<rparr>"

definition not_started :: "dyn_cluster \<Rightarrow> string list" where
  "not_started c = map dyn_name (filter (\<lambda>n. \<not> started n) (dyn_nodes c))"

lemma start_nodes_pending:
  "length (filter (\<lambda>n. \<not> started n) (dyn_nodes (start_nodes ord names c))) =
    length (filter (\<lambda>n. \<not> started n \<and> dyn_name n \<notin> set names) (dyn_nodes c))"
proof -
  have "length (filter (\<lambda>n. \<not> started n) (map (\<lambda>n. if dyn_name n \<in> set names then dyn_start (n\<lparr>should_start := True\<rparr>) else n) ns)) =
      length (filter (\<lambda>n. \<not> started n \<and> dyn_name n \<notin> set names) ns)" for ns
    by (induction ns) (auto simp: dyn_start_def)
  then show ?thesis by (simp add: start_nodes_def)
qed

lemma pending_decreases:
  assumes "take 2 (not_started c) \<noteq> []"
  shows "length (not_started (start_nodes ord (take 2 (not_started c)) c)) < length (not_started c)"
proof -
  obtain n ns where n: "filter (\<lambda>n. \<not> started n) (dyn_nodes c) = n # ns"
    using assms by (cases "filter (\<lambda>n. \<not> started n) (dyn_nodes c)") (auto simp: not_started_def)
  let ?new = "set (take 2 (not_started c))"
  have "dyn_name n \<in> ?new" by (simp add: not_started_def n)
  then have "length (filter (\<lambda>m. dyn_name m \<notin> ?new) (n # ns)) < length (n # ns)"
    by (simp add: le_imp_less_Suc)
  then have "length (filter (\<lambda>m. \<not> started m \<and> dyn_name m \<notin> ?new) (dyn_nodes c)) < length (filter (\<lambda>n. \<not> started n) (dyn_nodes c))"
    unfolding n[symmetric] filter_filter by (simp add: conj_commute)
  then show ?thesis using start_nodes_pending[of ord "take 2 (not_started c)" c] by (simp add: not_started_def)
qed

text \<open>Scaling up: two more nodes at a time, until none is left.\<close>

function scale_up :: "(string list \<Rightarrow> string list) \<Rightarrow> dyn_cluster \<Rightarrow> dyn_cluster" where
  "scale_up ord c =
     (let new = take 2 (not_started c) in if new = [] then c else scale_up ord (start_nodes ord new c))"
  by pat_completeness auto
termination
  by (relation "measure (\<lambda>(ord, c). length (not_started c))") (use pending_decreases in auto)

declare scale_up.simps [simp del]

text \<open>Scaling down: nodes leave one by one; each writes the metadata of those that stay.\<close>

fun scale_down :: "nat \<Rightarrow> string list \<Rightarrow> string list \<times> (string \<times> string list) list" where
  "scale_down 0 active = (active, [])"
| "scale_down (Suc m) active =
     (let (rest, files) = scale_down m (butlast active) in (rest, (last active, butlast active) # files))"

definition scale_down_all :: "string list \<Rightarrow> string list \<times> (string \<times> string list) list" where
  "scale_down_all active = scale_down (length active - 1) active"

section \<open>What the bench guarantees\<close>

text \<open>
  What \<open>iptables\<close> does to the rules of the network address table: \<open>-A\<close> appends, \<open>-D\<close> removes the first that is equal and
  changes nothing if there is none.
\<close>

definition nat_rules :: "char \<Rightarrow> string \<Rightarrow> string list \<Rightarrow> string list" where
  "nat_rules action rule rules = (if action = CHR ''A'' then rules @ [rule] else remove1 rule rules)"

definition node_rules :: "tennison_node \<Rightarrow> string list \<Rightarrow> string list" where
  "node_rules n rules = nat_rules (CHR ''A'') (forward_rule n 5000) (nat_rules (CHR ''D'') (forward_rule n 5000) rules)"

text \<open>
  The forwarding rule of a node is there exactly once however often the node has been started, and the rules of other
  nodes are kept; \<open>stop\<close> removes no rule.
\<close>

theorem forwarding_is_idempotent:
  assumes "count_list rules (forward_rule n 5000) \<le> 1" "0 < k"
  shows "count_list ((node_rules n ^^ k) rules) (forward_rule n 5000) = 1 \<and>
    (\<forall>r. r \<noteq> forward_rule n 5000 \<longrightarrow> count_list ((node_rules n ^^ k) rules) r = count_list rules r)"
proof -
  have remove: "count_list (remove1 x xs) y = (if x = y then count_list xs y - 1 else count_list xs y)" for x y :: string and xs
    by (induction xs) (auto simp: count_list_0_iff)
  have once: "count_list (node_rules n rs) r =
      (if r = forward_rule n 5000 then count_list rs r - 1 + 1 else count_list rs r)" for rs r
    by (simp add: node_rules_def nat_rules_def remove)
  have "count_list ((node_rules n ^^ k) rules) (forward_rule n 5000) = (if k = 0 then count_list rules (forward_rule n 5000) else 1) \<and>
      (\<forall>r. r \<noteq> forward_rule n 5000 \<longrightarrow> count_list ((node_rules n ^^ k) rules) r = count_list rules r)"
  proof (induction k)
    case (Suc k)
    then show ?case using assms(1) by (simp add: once)
  qed simp
  then show ?thesis using assms(2) by simp
qed

theorem forwarding_is_idempotent_witness:
  "count_list ((node_rules (fst (tennison_node_new ''alpha_t'' None None None None)) ^^ 3) [])
     (forward_rule (fst (tennison_node_new ''alpha_t'' None None None None)) 5000) = 1"
  using forwarding_is_idempotent[of "[]" "fst (tennison_node_new ''alpha_t'' None None None None)" 3] by simp

text \<open>Every switch is listed once, under the cluster that controls it; the first half of the switches belongs to one cluster.\<close>

lemma controller_map_lookup:
  "map_of (controller_map assigned) c =
    (let xs = map fst (filter (\<lambda>p. snd p = c) assigned) in if xs = [] then None else Some xs)"
proof (induction assigned rule: rev_induct)
  case (snoc p assigned)
  obtain s d where p: "p = (s, d)" by (cases p)
  have "controller_map (assigned @ [p]) = dict_put d ((case map_of (controller_map assigned) d of None \<Rightarrow> [] | Some xs \<Rightarrow> xs) @ [s]) (controller_map assigned)"
    by (simp add: controller_map_def p)
  then show ?case using snoc
    by (cases "filter (\<lambda>p. snd p = d) assigned = []"; cases "c = d") (auto simp: p Let_def split: option.splits if_splits)
qed (simp add: controller_map_def)

theorem switches_are_halved:
  "map fst (assign_controllers ss) = ss \<and>
   map fst (filter (\<lambda>p. snd p = ''alpha'') (assign_controllers ss)) = take (length ss div 2) ss \<and>
   map fst (filter (\<lambda>p. snd p = ''beta'') (assign_controllers ss)) = drop (length ss div 2) ss"
proof -
  define h where "h = length ss div 2"
  have h: "h \<le> length ss" by (simp add: h_def)
  have "enumerate 0 (take h ss @ drop h ss) = enumerate 0 (take h ss) @ enumerate (0 + length (take h ss)) (drop h ss)"
    by (rule enumerate_append_eq)
  then have split: "enumerate 0 ss = enumerate 0 (take h ss) @ enumerate h (drop h ss)"
    using h by (simp add: min_absorb2 del: enumerate_simps)
  have low: "\<forall>x \<in> set (enumerate 0 (take h ss)). fst x < h" and high: "\<forall>x \<in> set (enumerate h (drop h ss)). \<not> fst x < h"
    by (auto simp: in_set_enumerate_eq)
  define f where "f = (\<lambda>(i, s :: string). (s, if i < h then ''alpha'' else ''beta''))"
  have fst_f: "fst (f x) = snd x" and snd_f: "snd (f x) = (if fst x < h then ''alpha'' else ''beta'')" for x
    by (simp_all add: f_def case_prod_beta)
  have a: "filter (\<lambda>x. snd (f x) = ''alpha'') (enumerate 0 ss) = enumerate 0 (take h ss)"
    unfolding split filter_append using low high
    by (simp add: snd_f filter_id_conv[THEN iffD2] filter_False del: enumerate_simps)
  have b: "filter (\<lambda>x. snd (f x) = ''beta'') (enumerate 0 ss) = enumerate h (drop h ss)"
    unfolding split filter_append using low high
    by (simp add: snd_f filter_id_conv[THEN iffD2] filter_False del: enumerate_simps)
  have "assign_controllers ss = map f (enumerate 0 ss)" by (simp add: assign_controllers_def f_def h_def)
  then show ?thesis unfolding h_def[symmetric]
    by (simp add: filter_map comp_def a b fst_f del: enumerate_simps)
qed

text \<open>The bar always has 46 places, and the loop ends after as many rounds as there are points missing.\<close>

theorem loading_ends:
  assumes "is_loading l" "0 \<le> progress_now l" "progress_now l \<le> 100"
  shows "filled_len (progress_now l) \<in> {0..46} \<and>
    (((\<lambda>l. fst (loading_round percent_text l)) ^^ (nat (100 - progress_now l) + 1)) l) = l\<lparr>progress_now := 100, is_loading := False\<rparr>"
proof -
  let ?p = "progress_now l"
  have "0 \<le> (46 * of_int ?p / 100 :: rat)" "(46 * of_int ?p / 100 :: rat) \<le> 46"
    using assms(2,3) by (simp_all add: divide_le_eq)
  then have "filled_len ?p \<in> {0..46}" unfolding filled_len_def round_half_away_def by (simp add: floor_le_iff)
  moreover have "((\<lambda>l. fst (loading_round percent_text l)) ^^ k) l = l\<lparr>progress_now := ?p + int k\<rparr>" if "?p + int k \<le> 100" for k
    using that by (induction k) (simp_all add: loading_round_def Let_def add.assoc)
  from this[of "nat (100 - ?p)"]
  have "((\<lambda>l. fst (loading_round percent_text l)) ^^ (nat (100 - ?p) + 1)) l = l\<lparr>progress_now := 100, is_loading := False\<rparr>"
    using assms(3) by (simp add: loading_round_def Let_def)
  ultimately show ?thesis by blast
qed

theorem loading_ends_witness:
  "is_loading ((((\<lambda>l. fst (loading_round (\<lambda>_. []) l)) ^^ 101) \<lparr>is_loading = True, progress_now = 0, status = []\<rparr>)) = False"
  using loading_ends[of "\<lparr>is_loading = True, progress_now = 0, status = []\<rparr>" "\<lambda>_. []"] by simp

text \<open>The members of the partitions: with three partitions of three, the first five nodes and no others.\<close>

lemma gen_parts_rotations:
  "gen_parts_from i m k l = map (\<lambda>j. (i + j, take k (rotate j l))) [0..<m]"
proof (induction m arbitrary: i l)
  case (Suc m)
  have "[0..<Suc m] = 0 # map Suc [0..<m]" by (simp add: map_Suc_upt upt_conv_Cons del: upt_Suc)
  then show ?case using Suc[of "Suc i" "rotate1 l"] by (simp add: rotate1_rotate_swap comp_def del: upt_Suc)
qed simp

theorem partitions_cover_five:
  "map fst (gen_parts nodes 3) = [1, 2, 3] \<and>
   (\<forall>p \<in> set (gen_parts nodes 3). length (snd p) = min 3 (length nodes)) \<and>
   (\<Union>p \<in> set (gen_parts nodes 3). set (snd p)) = set (take 5 nodes)"
proof -
  have parts: "gen_parts nodes 3 = [(1, take 3 nodes), (2, take 3 (rotate1 nodes)), (3, take 3 (rotate1 (rotate1 nodes)))]"
    by (simp add: gen_parts_def numeral_3_eq_3)
  have "set (take 3 nodes) \<union> set (take 3 (rotate1 nodes)) \<union> set (take 3 (rotate1 (rotate1 nodes))) = set (take 5 nodes)"
  proof (cases "5 \<le> length nodes")
    case True
    then obtain a b c d e ns where "nodes = a # b # c # d # e # ns"
      by (auto simp: numeral_eq_Suc Suc_le_length_iff)
    then show ?thesis by (auto simp: numeral_3_eq_3 eval_nat_numeral)
  next
    case False
    then consider "nodes = []" | a where "nodes = [a]" | a b where "nodes = [a, b]" | a b c where "nodes = [a, b, c]"
      | a b c d where "nodes = [a, b, c, d]"
      by (cases nodes; cases "tl nodes"; cases "tl (tl nodes)"; cases "tl (tl (tl nodes))"; cases "tl (tl (tl (tl nodes)))") auto
    then show ?thesis by cases (auto simp: eval_nat_numeral)
  qed
  then show ?thesis unfolding parts by auto
qed

text \<open>With one cluster every node gets the command; a second cluster with a node makes the loop raise.\<close>

theorem onos_all_needs_one_cluster:
  "onos_all (c0 # cs) line = (if concat cs = [] then Inr (map (\<lambda>ip. onos_cli ip line) c0) else Inl IndexError)"
proof (cases "concat cs = []")
  case True
  have "mapE (\<lambda>i. if i < length c0 then Inr (onos_cli (c0 ! i) line) else Inl IndexError) [0..<length c0] =
      Inr (map (\<lambda>i. onos_cli (c0 ! i) line) [0..<length c0])"
    by (rule mapE_Inr) simp
  moreover have "map (\<lambda>i. onos_cli (c0 ! i) line) [0..<length c0] = map (\<lambda>ip. onos_cli ip line) c0"
    by (rule nth_equalityI) simp_all
  moreover have "concat (c0 # cs) = c0" using True by simp
  ultimately show ?thesis using True by (simp only: onos_all_def list.case simp_thms if_True)
next
  case False
  let ?f = "\<lambda>i. if i < length c0 then Inr (onos_cli (c0 ! i) line) else Inl IndexError"
  have "length c0 \<in> set [0..<length (concat (c0 # cs))]" using False by simp
  then have "\<exists>e. mapE ?f [0..<length (concat (c0 # cs))] = Inl e" using mapE_Inl[of ?f] by force
  moreover have "mapE ?f is = Inl e \<Longrightarrow> e = IndexError" for "is" e
    by (induction "is") (auto simp: res_simps split: if_splits)
  ultimately show ?thesis using False by (auto simp: onos_all_def)
qed

text \<open>Scaling up starts every node, and keeps the names; scaling down leaves the first active node alone.\<close>

lemma start_nodes_names: "map dyn_name (dyn_nodes (start_nodes ord names c)) = map dyn_name (dyn_nodes c)"
  by (simp add: start_nodes_def comp_def dyn_start_def if_distrib cong: if_cong)

theorem scaling_starts_all:
  "(\<forall>n \<in> set (dyn_nodes (scale_up ord c)). started n) \<and>
    map dyn_name (dyn_nodes (scale_up ord c)) = map dyn_name (dyn_nodes c)"
proof (induction ord c rule: scale_up.induct)
  case (1 ord c)
  show ?case
  proof (cases "take 2 (not_started c) = []")
    case True
    then have "filter (\<lambda>n. \<not> started n) (dyn_nodes c) = []" by (simp add: not_started_def)
    then show ?thesis using True by (simp add: scale_up.simps[of ord c] filter_empty_conv)
  next
    case False
    then show ?thesis using 1[OF refl False] by (simp add: scale_up.simps[of ord c] start_nodes_names Let_def)
  qed
qed

lemma scale_down_leaves: "m < length active \<Longrightarrow> fst (scale_down m active) = take (length active - m) active"
proof (induction m arbitrary: active)
  case (Suc m)
  then show ?case using Suc.IH[of "butlast active"] by (simp add: case_prod_beta take_butlast)
qed simp

end
