(* ===== verification/Bmv2_Switch.thy ===== *)
theory Bmv2_Switch
  imports Onos_Cluster
begin

text \<open>
  The switch of the test bench: \<open>tools/dev/tennison-experimenter/experimenter/bmv2.py\<close>.

  The class variables are a record every construction and every start updates. Mininet is outside: the datapath id it gives
  the switch, its interfaces and the addresses of the controllers are arguments, as are the free port the system
  finds and whether the log file can be opened. A start or stop is the list of the shell commands.
\<close>

section \<open>The class\<close>

record bmv2_class =
  next_device :: int
  instance_count :: nat

record bmv2_args =
  arg_thrift :: "int option"
  arg_device :: "int option"
  arg_debugger :: bool
  arg_loglevel :: string
  arg_elogger :: bool
  arg_persistent :: bool

definition bmv2_defaults :: bmv2_args where
  "bmv2_defaults = \<lparr>arg_thrift = None, arg_device = None, arg_debugger = False, arg_loglevel = ''warn'', arg_elogger = False,
     arg_persistent = True\<rparr>"

record bmv2 =
  sw_path :: string
  json_path :: string
  thrift_port :: int
  device_id :: int
  sw_debugger :: bool
  sw_loglevel :: string
  sw_elogger :: bool
  sw_persistent :: bool

text \<open>An integer argument that is None or zero counts as not given.\<close>

definition given :: "int option \<Rightarrow> bool" where
  "given x \<longleftrightarrow> (case x of None \<Rightarrow> False | Some i \<Rightarrow> i \<noteq> 0)"

text \<open>
  \<open>int(s, 0 if 'x' in s else 16)\<close>: with an x in it the numeral needs the prefix to be valid, without it the
  base is 16, so both are a hexadecimal numeral with an optional prefix.
\<close>

definition hex_char :: "char \<Rightarrow> nat option" where
  "hex_char c =
     (let n = of_char c in
      if 48 \<le> n \<and> n \<le> 57 then Some (n - 48) else if 97 \<le> n \<and> n \<le> 102 then Some (n - 87)
      else if 65 \<le> n \<and> n \<le> 70 then Some (n - 55) else None)"

fun hex_digits :: "nat \<Rightarrow> string \<Rightarrow> nat option" where
  "hex_digits acc [] = Some acc"
| "hex_digits acc (c # cs) = (case hex_char c of None \<Rightarrow> None | Some d \<Rightarrow> hex_digits (16 * acc + d) cs)"

definition hex_numeral :: "string \<Rightarrow> int result" where
  "hex_numeral s =
     (let body = (if is_prefix ''0x'' s \<or> is_prefix ''0X'' s then drop 2 s else s)
      in if body = [] then Inl ValueError
         else (case hex_digits 0 body of None \<Rightarrow> Inl ValueError | Some n \<Rightarrow> Inr (int n)))"

definition dpid_int :: "string \<Rightarrow> int result" where
  "dpid_int dpid =
     (case strip dpid of
        CHR ''-'' # s \<Rightarrow> bindE (hex_numeral s) (\<lambda>i. Inr (- i))
      | CHR ''+'' # s \<Rightarrow> hex_numeral s
      | s \<Rightarrow> hex_numeral s)"

definition device_of :: "bmv2_class \<Rightarrow> int option \<Rightarrow> string \<Rightarrow> (bmv2_class \<times> int) result" where
  "device_of c deviceId dpid =
     (if \<not> given deviceId then
        (if dpid \<noteq> [] then bindE (dpid_int dpid) (\<lambda>d. Inr (c, d))
         else Inr (c\<lparr>next_device := next_device c + 1\<rparr>, next_device c))
      else Inr (c\<lparr>next_device := max (the deviceId) (next_device c)\<rparr>, the deviceId))"

text \<open>The files of a device.\<close>

definition log_file :: "int \<Rightarrow> string" where
  "log_file d = ''/tmp/bmv2-'' @ int_str d @ ''.log''"

definition exec_token :: "int \<Rightarrow> string" where
  "exec_token d = ''/tmp/bmv2-'' @ int_str d @ ''-exec-token''"

definition thrift_file :: "int \<Rightarrow> string" where
  "thrift_file d = ''/tmp/bmv2-'' @ int_str d @ ''-thrift-port''"

text \<open>\<open>__init__\<close>: the class, the commands run, and the switch or an exception.\<close>

definition bmv2_new ::
  "env \<Rightarrow> int \<Rightarrow> (string \<Rightarrow> unit result) \<Rightarrow> bmv2_args \<Rightarrow> string \<Rightarrow> bmv2_class \<Rightarrow> bmv2_class \<times> string list \<times> bmv2 result"
where
  "bmv2_new environ unused open_log args dpid c =
     (case bindE (of_option KeyError (map_of environ ''BMV2_EXE'')) (\<lambda>exe.
           bindE (of_option KeyError (map_of environ ''BMV2_JSON'')) (\<lambda>json.
           bindE (device_of c (arg_device args) dpid) (\<lambda>(c', d). Inr (exe, json, c', d)))) of
        Inl e \<Rightarrow> (c, [], Inl e)
      | Inr (exe, json, c', d) \<Rightarrow>
          (case open_log (log_file d) of
             Inl e \<Rightarrow> (c', [], Inl e)
           | Inr _ \<Rightarrow>
               (let port = (if given (arg_thrift args) then the (arg_thrift args) else unused)
                in (c', (if arg_persistent args then [''touch '' @ exec_token d] else []) @
                      [''echo '' @ int_str port @ '' > '' @ thrift_file d],
                    Inr \<lparr>sw_path = exe, json_path = json, thrift_port = port, device_id = d,
                         sw_debugger = arg_debugger args, sw_loglevel = arg_loglevel args, sw_elogger = arg_elogger args,
                         sw_persistent = arg_persistent args\<rparr>))))"

text \<open>\<open>setup\<close>: the messages, and the exit if there is one.\<close>

definition bmv2_setup :: "(string \<Rightarrow> bool) \<Rightarrow> env \<Rightarrow> string list \<times> unit result" where
  "bmv2_setup isfile environ =
     (let problem = (\<lambda>var. case map_of environ var of
            None \<Rightarrow> [''ERROR! environment var $'' @ var @ '' not set'' @ newline]
          | Some f \<Rightarrow> if isfile f then [] else [''ERROR! '' @ var @ ''='' @ f @ '': no such file'' @ newline]);
          errs = problem ''BMV2_EXE'' @ problem ''BMV2_JSON''
      in (errs, if errs \<noteq> [] then Inl SystemExit else Inr ()))"

section \<open>Start and stop\<close>

text \<open>The controllers: a cluster in the first place stands for its nodes; otherwise the list itself.\<close>

datatype controllers = ClusterFirst "string list" | Controllers "string list"

fun controller_ips :: "controllers \<Rightarrow> string list result" where
  "controller_ips (ClusterFirst ips) = Inr ips"
| "controller_ips (Controllers []) = Inl IndexError"
| "controller_ips (Controllers ips) = Inr ips"

text \<open>The interfaces: port, name, and the address unless it has none.\<close>

definition start_args :: "bmv2 \<Rightarrow> (int \<times> string \<times> string option) list \<Rightarrow> string list" where
  "start_args s intfs =
     [sw_path s, ''--device-id '' @ int_str (device_id s)] @
     map (\<lambda>(port, name, ip). ''-i '' @ int_str port @ ''@'' @ name) (filter (\<lambda>(port, name, ip). ip = None \<or> ip = Some []) intfs) @
     (if thrift_port s \<noteq> 0 then [''--thrift-port '' @ int_str (thrift_port s)] else []) @
     (if sw_elogger s then [''--nanolog ipc:///tmp/bmv2-'' @ int_str (device_id s) @ ''-log.ipc''] else []) @
     (if sw_debugger s then [''--debugger''] else []) @ [''--log-console -L'' @ sw_loglevel s, json_path s]"

definition bmv2_start ::
  "bmv2 \<Rightarrow> (int \<times> string \<times> string option) list \<Rightarrow> controllers \<Rightarrow> bmv2_class \<Rightarrow> bmv2_class \<times> (string \<times> string) result"
where
  "bmv2_start s intfs cs c =
     (case controller_ips cs of
        Inl e \<Rightarrow> (c, Inl e)
      | Inr clist \<Rightarrow>
          (if clist = [] then (c, Inl assertion_error)
           else (let cip = clist ! (instance_count c mod length clist);
                     args = start_args s intfs @ [''--'', ''--controller-ip '' @ cip, ''--controller-port 40123''];
                     bmv2cmd = join '' '' args;
                     log = '' > '' @ log_file (device_id s) @ '' 2>&1 &''
                 in (c\<lparr>instance_count := instance_count c + 1\<rparr>,
                     Inr (cip, if sw_persistent s
                       then ''(while [ -e '' @ exec_token (device_id s) @ '' ]; do '' @ bmv2cmd @ '' ; sleep 1; done;)'' @ log
                       else bmv2cmd @ log)))))"

definition stop_pattern :: "int \<Rightarrow> string" where
  "stop_pattern d = ''/tmp/bmv2-'' @ int_str d @ ''-''"

definition bmv2_stop :: "bmv2 \<Rightarrow> string list" where
  "bmv2_stop s =
     [''rm -f '' @ stop_pattern (device_id s) @ ''*'', ''rm -f '' @ log_file (device_id s), ''kill %'' @ sw_path s]"

text \<open>Several constructions and starts, as the network makes them.\<close>

fun bmv2_news ::
  "env \<Rightarrow> (string \<Rightarrow> unit result) \<Rightarrow> (int \<times> bmv2_args \<times> string) list \<Rightarrow> bmv2_class \<Rightarrow> bmv2_class \<times> bmv2 result list"
where
  "bmv2_news environ open_log [] c = (c, [])"
| "bmv2_news environ open_log ((unused, args, dpid) # rest) c =
     (let (c1, cmds, r) = bmv2_new environ unused open_log args dpid c; (c2, rs) = bmv2_news environ open_log rest c1
      in (c2, r # rs))"

fun bmv2_starts ::
  "controllers \<Rightarrow> (bmv2 \<times> (int \<times> string \<times> string option) list) list \<Rightarrow> bmv2_class \<Rightarrow> bmv2_class \<times> (string \<times> string) result list"
where
  "bmv2_starts cs [] c = (c, [])"
| "bmv2_starts cs ((s, intfs) # rest) c =
     (let (c1, r) = bmv2_start s intfs cs c; (c2, rs) = bmv2_starts cs rest c1 in (c2, r # rs))"

section \<open>Lemmas\<close>

lemma int_str_no_minus: "0 \<le> i \<Longrightarrow> CHR ''-'' \<notin> set (int_str i)"
  using nat_str_chars[of "nat i"] by (auto simp: int_str_def)

lemma is_prefix_append_cancel: "is_prefix (zs @ xs) (zs @ ys) = is_prefix xs ys"
  by (induction zs) auto

lemma is_prefix_mark:
  "c \<notin> set xs \<Longrightarrow> c \<notin> set ys \<Longrightarrow> is_prefix (xs @ [c]) (ys @ c # zs) \<longleftrightarrow> xs = ys"
proof (induction xs arbitrary: ys)
  case Nil
  then show ?case by (cases ys) auto
next
  case (Cons x xs)
  then show ?case by (cases ys) auto
qed

lemma int_str_inj: "int_str i = int_str j \<longleftrightarrow> i = j"
  using int_of_int_str by (metis sum.inject(2))

lemma bmv2_starts_ips:
  assumes "controller_ips cs = Inr ips" "ips \<noteq> []"
  shows "instance_count (fst (bmv2_starts cs sws c)) = instance_count c + length sws \<and>
    (\<forall>i < length sws. \<exists>cmd. snd (bmv2_starts cs sws c) ! i = Inr (ips ! ((instance_count c + i) mod length ips), cmd)) \<and>
    length (snd (bmv2_starts cs sws c)) = length sws"
proof (induction sws arbitrary: c)
  case (Cons p sws)
  obtain s intfs where p: "p = (s, intfs)" by (cases p)
  obtain cmd where step: "bmv2_start s intfs cs c =
      (c\<lparr>instance_count := instance_count c + 1\<rparr>, Inr (ips ! (instance_count c mod length ips), cmd))"
    using assms by (auto simp: bmv2_start_def Let_def)
  note IH = Cons.IH[of "c\<lparr>instance_count := instance_count c + 1\<rparr>"]
  then show ?case by (auto simp: p step case_prod_beta nth_Cons split: nat.split)
qed simp

section \<open>Properties\<close>

text \<open>
  Switches are balanced over the controllers. As many starts as there are controllers use every one of them once: the addresses chosen are
  those of the list, rotated by the number of switches started before.
\<close>

theorem switches_balanced:
  assumes "controller_ips cs = Inr ips" "ips \<noteq> []" "length sws = length ips"
  shows "\<exists>cmds. snd (bmv2_starts cs sws c) = map (\<lambda>x. Inr x) (zip (rotate (instance_count c) ips) cmds) \<and>
    length cmds = length ips"
proof -
  let ?rs = "snd (bmv2_starts cs sws c)"
  note r = bmv2_starts_ips[OF assms(1,2), of sws c]
  define cmds where "cmds = map (\<lambda>r. case r of Inr (ip, cmd) \<Rightarrow> cmd | Inl e \<Rightarrow> []) ?rs"
  have "?rs = map (\<lambda>x. Inr x) (zip (rotate (instance_count c) ips) cmds)"
  proof (rule nth_equalityI)
    show "length ?rs = length (map (\<lambda>x. Inr x) (zip (rotate (instance_count c) ips) cmds))"
      using r assms(3) by (simp add: cmds_def)
    fix i assume "i < length ?rs"
    then have i: "i < length sws" "i < length ips" using r assms(3) by auto
    then obtain cmd where cmd: "?rs ! i = Inr (ips ! ((instance_count c + i) mod length ips), cmd)" using r by blast
    have "rotate (instance_count c) ips ! i = ips ! ((instance_count c + i) mod length ips)"
      using i by (simp add: nth_rotate add.commute)
    moreover have "cmds ! i = cmd" using i r cmd by (simp add: cmds_def)
    ultimately show "?rs ! i = map (\<lambda>x. Inr x) (zip (rotate (instance_count c) ips) cmds) ! i"
      using cmd i r assms(3) by (simp add: cmds_def)
  qed
  then show ?thesis using r assms(3) by (auto simp: cmds_def)
qed

text \<open>
  Automatic device ids differ, given ones need not. Switches without a datapath id and without a device id get consecutive ids; but
  after a switch that was given an id from the counter on, the next automatic id is that same one.
\<close>

theorem automatic_ids_differ:
  assumes "\<forall>(u, a, dpid) \<in> set reqs. \<not> given (arg_device a) \<and> dpid = []"
    and "bmv2_news environ open_log reqs c = (c', rs)" "\<forall>r \<in> set rs. \<exists>s. r = Inr s"
  shows "map (\<lambda>r. case r of Inr s \<Rightarrow> device_id s | Inl e \<Rightarrow> 0) rs = map (\<lambda>i. next_device c + int i) [0..<length reqs]"
  using assms
proof (induction reqs arbitrary: c rs)
  case (Cons p reqs)
  obtain u a dpid where p: "p = (u, a, dpid)" by (cases p)
  obtain c1 cmds r where one: "bmv2_new environ u open_log a dpid c = (c1, cmds, r)" by (metis prod_cases3)
  obtain rs' where rest: "bmv2_news environ open_log reqs c1 = (c', rs')" "rs = r # rs'"
    using Cons.prems(2) by (auto simp: p one split: prod.splits)
  obtain s where s: "r = Inr s" using Cons.prems(3) rest(2) by auto
  have dev: "device_of c (arg_device a) dpid = Inr (c\<lparr>next_device := next_device c + 1\<rparr>, next_device c)"
    using Cons.prems(1) by (simp add: p device_of_def)
  have "device_id s = next_device c \<and> next_device c1 = next_device c + 1"
    using one s by (auto simp: bmv2_new_def dev Let_def res_simps split: sum.splits)
  moreover have "map (\<lambda>r. case r of Inr s \<Rightarrow> device_id s | Inl e \<Rightarrow> 0) rs' = map (\<lambda>i. next_device c1 + int i) [0..<length reqs]"
    using Cons.IH[OF _ rest(1)] Cons.prems(1,3) rest(2) by simp
  ultimately show ?case using rest(2) s
    by (simp add: map_upt_Suc algebra_simps del: upt_Suc)
qed simp

theorem given_id_is_reused:
  assumes "device_of c (Some d) dpid = Inr (c', d1)" "d \<noteq> 0" "next_device c \<le> d"
  shows "\<exists>c''. device_of c' None [] = Inr (c'', d1)"
  using assms by (auto simp: device_of_def given_def)

theorem given_id_is_reused_witness:
  "\<exists>c''. device_of \<lparr>next_device = 3, instance_count = 0\<rparr> None [] = Inr (c'', 3)"
proof -
  have "device_of \<lparr>next_device = 0, instance_count = 0\<rparr> (Some 3) [] = Inr (\<lparr>next_device = 3, instance_count = 0\<rparr>, 3)"
    by (simp add: device_of_def given_def)
  from given_id_is_reused[OF this] show ?thesis by simp
qed

text \<open>
  Stopping a switch ends its loop and no other one. The files removed are exactly those of its device: the pattern covers the token the loop of a
  switch tests exactly if the device is the same.
\<close>

theorem stop_ends_own_loop:
  assumes "0 \<le> d" "0 \<le> d'"
  shows "is_prefix (stop_pattern d) (exec_token d') \<longleftrightarrow> d = d'" "is_prefix (stop_pattern d) (thrift_file d') \<longleftrightarrow> d = d'"
    "\<not> is_prefix (stop_pattern d) (log_file d')"
proof -
  note plain = is_prefix_append_cancel[of "''/tmp/bmv2-''"]
    is_prefix_mark[OF int_str_no_minus[OF assms(1)] int_str_no_minus[OF assms(2)]]
  show "is_prefix (stop_pattern d) (exec_token d') \<longleftrightarrow> d = d'" "is_prefix (stop_pattern d) (thrift_file d') \<longleftrightarrow> d = d'"
    unfolding stop_pattern_def exec_token_def thrift_file_def plain(1) using plain(2) by (simp_all add: int_str_inj)
  have "CHR ''-'' \<notin> set (int_str d' @ ''.log'')" using int_str_no_minus[OF assms(2)] by simp
  moreover have "is_prefix xs ys \<Longrightarrow> set xs \<subseteq> set ys" for xs ys :: string by (induction xs ys rule: is_prefix.induct) auto
  ultimately show "\<not> is_prefix (stop_pattern d) (log_file d')"
    unfolding stop_pattern_def log_file_def plain(1) by force
qed

end
