(* ===== verification/Relay_Liveness.thy ===== *)
theory Relay_Liveness
  imports Pig_Relay
begin

text \<open>
  Liveness of the relay in \<open>pig-relay/pigrelay.py\<close>: what the sensor received is delivered in the end.

  The states and steps are those of \<open>Pig_Relay\<close>; a path is an infinite sequence of them. The only assumption on the scheduler is that
  it does not leave out for ever a relay thread that can go on; \<open>get\<close> on an empty queue cannot.
\<close>

definition pig_path :: "relay_kind \<Rightarrow> (nat \<Rightarrow> pig_event) \<Rightarrow> (nat \<Rightarrow> pig_state) \<Rightarrow> bool" where
  "pig_path k es ss \<longleftrightarrow> ss 0 = pig_start \<and> (\<forall>i. pig_step k (es i) (ss i) (ss (Suc i)))"

definition relay_ready :: "pig_state \<Rightarrow> bool" where
  "relay_ready s \<longleftrightarrow> relay_pc s = Testing \<or> relay_pc s = Blocked \<and> pig_q s \<noteq> []"

definition relay_event :: "pig_event \<Rightarrow> bool" where
  "relay_event e \<longleftrightarrow> e = RelayTest \<or> e = Take"

definition relay_fair :: "(nat \<Rightarrow> pig_event) \<Rightarrow> (nat \<Rightarrow> pig_state) \<Rightarrow> bool" where
  "relay_fair es ss \<longleftrightarrow> (\<forall>i. relay_ready (ss i) \<longrightarrow> (\<exists>j \<ge> i. relay_event (es j)))"

definition events_to :: "(nat \<Rightarrow> pig_event) \<Rightarrow> nat \<Rightarrow> pig_event list" where
  "events_to es i = map es [0..<i]"

definition takes :: "pig_event list \<Rightarrow> nat" where
  "takes es = length (filter (\<lambda>e. e = Take) es)"

definition arrived :: "pig_event list \<Rightarrow> bytes list" where
  "arrived es = filter (\<lambda>d. d \<noteq> []) (map recv (received es))"

section \<open>A path is made of runs\<close>

lemma path_run: "pig_path k es ss \<Longrightarrow> pig_run k (events_to es i) (ss i)"
proof (induction i)
  case 0
  then show ?case by (simp add: pig_run_def events_to_def pig_path_def pig_steps.none)
next
  case (Suc i)
  then have "pig_step k (es i) (ss i) (ss (Suc i))" by (simp add: pig_path_def)
  then show ?case using Suc by (auto simp: pig_run_def events_to_def intro: pig_steps.more)
qed

lemma run_counts: "pig_run k es s \<Longrightarrow> takes es + length (pig_q s) = length (arrived es)"
proof (induction rule: pig_run_induct)
  case start
  show ?case by (simp add: takes_def arrived_def pig_start_def)
next
  case (step es s e s')
  from \<open>pig_step k e s s'\<close> show ?case
  proof cases
    case (take data q' ps buf' r)
    then have "pig_q s = data # q'" by (cases "pig_q s") auto
    moreover have "pig_q s' = q'" "e = Take" using take by simp_all
    ultimately show ?thesis using step.IH by (simp add: takes_def arrived_def)
  qed (use step.IH in \<open>auto simp: takes_def arrived_def queue_put_def\<close>)
qed

lemma run_posted:
  assumes "pig_run k es s"
  shows "posted s = relay_output k (concat (take (takes es) (arrived es)))"
proof -
  obtain taken where t: "taken @ pig_q s = arrived es" "posted s = relay_output k (concat taken)"
    using pig_run_inv[OF assms] unfolding arrived_def by blast
  have "takes es + length (pig_q s) = length taken + length (pig_q s)"
    using run_counts[OF assms] t(1) by (metis length_append)
  then have "taken = take (takes es) (arrived es)" using t(1) by (metis add_right_cancel append_eq_conv_conj)
  then show ?thesis using t(2) by simp
qed

lemma no_stop_running:
  assumes "pig_run k es s" "Stop \<notin> set es"
  shows "relay_running s \<and> relay_pc s \<noteq> Finished"
  using assms
proof (induction rule: pig_run_induct)
  case (step es s e s')
  from \<open>pig_step k e s s'\<close> show ?case
    by cases (use step in \<open>auto simp: send_frames_spec split: sum.splits\<close>)
qed (simp add: pig_start_def)

section \<open>The relay thread goes on\<close>

lemma events_to_split: "i \<le> j \<Longrightarrow> events_to es j = events_to es i @ map es [i..<j]"
  using upt_add_eq_append[of 0 i "j - i"] by (simp add: events_to_def)

lemma events_to_Suc: "events_to es (Suc i) = events_to es i @ [es i]"
  by (simp add: events_to_def)

lemma no_event_no_change:
  "pig_path k es ss \<Longrightarrow> \<not> relay_event (es i) \<Longrightarrow>
    relay_pc (ss (Suc i)) = relay_pc (ss i) \<and> takes (events_to es (Suc i)) = takes (events_to es i)"
proof -
  assume a: "pig_path k es ss" "\<not> relay_event (es i)"
  then have "pig_step k (es i) (ss i) (ss (Suc i))" by (simp add: pig_path_def)
  then show ?thesis using a(2) by cases (auto simp: relay_event_def events_to_Suc takes_def)
qed

text \<open>The next event of a relay thread that is ready, with nothing of the thread changed before it.\<close>

lemma next_event:
  assumes "pig_path k es ss" "relay_fair es ss" "relay_ready (ss i)"
  shows "\<exists>j \<ge> i. relay_event (es j) \<and> relay_pc (ss j) = relay_pc (ss i) \<and> takes (events_to es j) = takes (events_to es i)"
proof -
  define j where "j = (LEAST j. i \<le> j \<and> relay_event (es j))"
  have j: "i \<le> j \<and> relay_event (es j)"
    unfolding j_def by (rule LeastI_ex) (use assms(2,3) in \<open>auto simp: relay_fair_def\<close>)
  have before: "\<not> relay_event (es m)" if "i \<le> m" "m < j" for m
    using not_less_Least[of m "\<lambda>j. i \<le> j \<and> relay_event (es j)"] that by (auto simp: j_def)
  have "relay_pc (ss (i + n)) = relay_pc (ss i) \<and> takes (events_to es (i + n)) = takes (events_to es i)" if "i + n \<le> j" for n
    using that
  proof (induction n)
    case (Suc n)
    then show ?case using no_event_no_change[OF assms(1) before[of "i + n"]] by simp
  qed simp
  from this[of "j - i"] show ?thesis using j by (intro exI[of _ j]) simp
qed

lemma take_happens:
  assumes path: "pig_path k es ss" and fair: "relay_fair es ss" and stop: "\<forall>i. es i \<noteq> Stop"
    and behind: "takes (events_to es i) < length (arrived (events_to es i))"
  shows "\<exists>j > i. takes (events_to es j) = Suc (takes (events_to es i))"
proof -
  have alive: "relay_running (ss m) \<and> relay_pc (ss m) \<noteq> Finished" for m
  proof (rule no_stop_running[OF path_run[OF path]])
    show "Stop \<notin> set (events_to es m)" using stop by (metis events_to_def ex_map_conv)
  qed
  have steps: "pig_step k (es m) (ss m) (ss (Suc m))" for m using path by (simp add: pig_path_def)
  have grow: "length (arrived (events_to es i)) \<le> length (arrived (events_to es m))" if "i \<le> m" for m
  proof -
    have "events_to es m = events_to es i @ map es [i..<m]"
      using that by (rule events_to_split)
    then show ?thesis by (simp add: arrived_def)
  qed
  have queue: "pig_q (ss m) \<noteq> []" if "i \<le> m" "takes (events_to es m) = takes (events_to es i)" for m
    using run_counts[OF path_run[OF path, of m]] grow[OF that(1)] that(2) behind by auto
  have blocked: "\<exists>j > i. takes (events_to es j) = Suc (takes (events_to es i))"
    if m: "i \<le> m" "takes (events_to es m) = takes (events_to es i)" "relay_pc (ss m) = Blocked" for m
  proof -
    have "relay_ready (ss m)" using queue[OF m(1,2)] m(3) by (simp add: relay_ready_def)
    then obtain j where j: "m \<le> j" "relay_event (es j)" "relay_pc (ss j) = Blocked" "takes (events_to es j) = takes (events_to es i)"
      using next_event[OF path fair] m by metis
    then have "es j = Take" using steps[of j] by (auto simp: relay_event_def elim: pig_stepE)
    then show ?thesis using j m(1) by (intro exI[of _ "Suc j"]) (simp add: events_to_Suc takes_def)
  qed
  show ?thesis
  proof (cases "relay_pc (ss i) = Blocked")
    case True
    then show ?thesis using blocked[of i] by simp
  next
    case False
    then have testing: "relay_pc (ss i) = Testing" using alive[of i] by (cases "relay_pc (ss i)") auto
    then obtain j where j: "i \<le> j" "relay_event (es j)" "relay_pc (ss j) = Testing" "takes (events_to es j) = takes (events_to es i)"
      using next_event[OF path fair, of i] by (auto simp: relay_ready_def)
    then have "es j = RelayTest" using steps[of j] by (auto simp: relay_event_def elim: pig_stepE)
    then have "relay_pc (ss (Suc j)) = Blocked" "takes (events_to es (Suc j)) = takes (events_to es i)"
      using steps[of j] alive[of j] j(4) by (auto simp: events_to_Suc takes_def elim: pig_stepE)
    then show ?thesis using blocked[of "Suc j"] j(1) by simp
  qed
qed

lemma all_taken:
  assumes "pig_path k es ss" "relay_fair es ss" "\<forall>i. es i \<noteq> Stop"
  shows "\<exists>j \<ge> i. length (arrived (events_to es i)) \<le> takes (events_to es j)"
proof -
  have "\<exists>j \<ge> i. min n (length (arrived (events_to es i))) \<le> takes (events_to es j)" for n
  proof (induction n)
    case (Suc n)
    then obtain j where j: "i \<le> j" "min n (length (arrived (events_to es i))) \<le> takes (events_to es j)" by blast
    show ?case
    proof (cases "takes (events_to es j) < length (arrived (events_to es i))")
      case True
      have "events_to es j = events_to es i @ map es [i..<j]" using j(1) by (rule events_to_split)
      then have "takes (events_to es j) < length (arrived (events_to es j))" using True by (simp add: arrived_def)
      from take_happens[OF assms this] obtain m where "j < m" "takes (events_to es m) = Suc (takes (events_to es j))" by blast
      then show ?thesis using j by (intro exI[of _ m]) auto
    qed (use j in auto)
  qed auto
  from this[of "length (arrived (events_to es i))"] show ?thesis by simp
qed

section \<open>Everything received is posted in the end\<close>

text \<open>
  C10: on every path without a stop whose scheduler is fair to the relay thread, the output for all that had been received at any
  moment is posted at some later moment, and in order: it is the beginning of what has been posted then.
\<close>

theorem received_is_posted:
  assumes "pig_path k es ss" "relay_fair es ss" "\<forall>i. es i \<noteq> Stop"
  shows "\<exists>j \<ge> i. \<exists>more. posted (ss j) = relay_output k (concat (map recv (received (events_to es i)))) @ more"
proof -
  obtain j where j: "i \<le> j" "length (arrived (events_to es i)) \<le> takes (events_to es j)"
    using all_taken[OF assms] by blast
  have "events_to es j = events_to es i @ map es [i..<j]" using j(1) by (rule events_to_split)
  then have "take (takes (events_to es j)) (arrived (events_to es j)) =
      arrived (events_to es i) @ take (takes (events_to es j) - length (arrived (events_to es i))) (arrived (map es [i..<j]))"
    using j(2) by (simp add: arrived_def)
  then have "posted (ss j) = relay_output k (concat (arrived (events_to es i)) @
      concat (take (takes (events_to es j) - length (arrived (events_to es i))) (arrived (map es [i..<j]))))"
    using run_posted[OF path_run[OF assms(1), of j]] by simp
  then have "\<exists>more. posted (ss j) = relay_output k (concat (arrived (events_to es i))) @ more"
    by (metis relay_output_append)
  then show ?thesis using j(1) by (auto simp: arrived_def concat_filter_nonempty)
qed

text \<open>A path on which one datagram is received and taken, and the listener then goes on with empty datagrams.\<close>

definition quiet_state :: "relay_kind \<Rightarrow> bytes \<Rightarrow> pig_state" where
  "quiet_state k d = pig_start\<lparr>relay_pc := Blocked, posted := relay_output k d, relay_buf := rest BUFSIZE d\<rparr>"

definition demo_states :: "relay_kind \<Rightarrow> bytes \<Rightarrow> nat \<Rightarrow> pig_state" where
  "demo_states k d i =
     (if i = 0 then pig_start
      else if i = 1 then pig_start\<lparr>listen_pc := Blocked\<rparr>
      else if i = 2 then pig_start\<lparr>pig_q := [d]\<rparr>
      else if i = 3 then pig_start\<lparr>pig_q := [d], relay_pc := Blocked\<rparr>
      else if i = 4 then (quiet_state k d)\<lparr>relay_pc := Testing\<rparr>
      else if even i then (quiet_state k d)\<lparr>listen_pc := Blocked\<rparr> else quiet_state k d)"

definition demo_events :: "bytes \<Rightarrow> nat \<Rightarrow> pig_event" where
  "demo_events d i =
     (if i = 0 then ListenTest else if i = 1 then Recv d else if i = 2 then RelayTest else if i = 3 then Take
      else if i = 4 then RelayTest else if even i then Recv [] else ListenTest)"

lemma demo_path:
  assumes "d \<noteq> []" "length d \<le> BUFSIZE"
  shows "pig_path k (demo_events d) (demo_states k d)"
proof -
  have r: "recv d = d" "recv [] = []" using assms(2) by (simp_all add: recv_def)
  have "pig_step k (demo_events d i) (demo_states k d i) (demo_states k d (Suc i))" for i
  proof -
    consider "i = 0" | "i = 1" | "i = 2" | "i = 3" | "i = 4" | "4 < i" "even i" | "4 < i" "odd i" by linarith
    then show ?thesis
    proof cases
      case 1
      then show ?thesis using pig_step.listen_test[of pig_start k] by (simp add: demo_events_def demo_states_def pig_start_def)
    next
      case 2
      then show ?thesis using pig_step.recv[of "pig_start\<lparr>listen_pc := Blocked\<rparr>" d d k] r assms(1)
        by (simp add: demo_events_def demo_states_def pig_start_def queue_put_def)
    next
      case 3
      then show ?thesis using pig_step.relay_test[of "pig_start\<lparr>pig_q := [d]\<rparr>" k] by (simp add: demo_events_def demo_states_def pig_start_def)
    next
      case 4
      then show ?thesis
        using pig_step.take[of "pig_start\<lparr>pig_q := [d], relay_pc := Blocked\<rparr>" d "[]" k "relay_output k d" "rest BUFSIZE d" "Inr ()"]
        by (simp add: demo_events_def demo_states_def pig_start_def quiet_state_def send_frames_spec relay_output_def)
    next
      case 5
      then show ?thesis using pig_step.relay_test[of "(quiet_state k d)\<lparr>relay_pc := Testing\<rparr>" k]
        by (simp add: demo_events_def demo_states_def pig_start_def quiet_state_def)
    next
      case 6
      then show ?thesis using pig_step.recv[of "(quiet_state k d)\<lparr>listen_pc := Blocked\<rparr>" "[]" "[]" k] r
        by (simp add: demo_events_def demo_states_def pig_start_def quiet_state_def)
    next
      case 7
      then show ?thesis using pig_step.listen_test[of "quiet_state k d" k]
        by (auto simp: demo_events_def demo_states_def pig_start_def quiet_state_def)
    qed
  qed
  then show ?thesis by (simp add: pig_path_def demo_states_def)
qed

lemma demo_fair: "relay_fair (demo_events d) (demo_states k d)"
proof -
  have "\<exists>j \<ge> i. relay_event (demo_events d j)" if "relay_ready (demo_states k d i)" for i
  proof -
    have "i \<le> 4" using that by (auto simp: relay_ready_def demo_states_def quiet_state_def pig_start_def split: if_splits)
    then show ?thesis by (intro exI[of _ 4]) (simp add: demo_events_def relay_event_def)
  qed
  then show ?thesis by (simp add: relay_fair_def)
qed

theorem received_is_posted_witness:
  "\<exists>j more. posted (demo_states (HttpSnortRelay ''h'' 2) (replicate BUFSIZE 0) j) =
     relay_output (HttpSnortRelay ''h'' 2) (replicate BUFSIZE 0) @ more"
proof -
  let ?d = "replicate BUFSIZE 0 :: bytes"
  have d: "?d \<noteq> []" "length ?d \<le> BUFSIZE" by (simp_all add: BUFSIZE_def)
  have "received (events_to (demo_events ?d) 2) = [?d]" by (simp add: events_to_def demo_events_def numeral_2_eq_2)
  moreover have "\<forall>i. demo_events ?d i \<noteq> Stop" by (simp add: demo_events_def)
  ultimately show ?thesis
    using received_is_posted[OF demo_path[OF d, of "HttpSnortRelay ''h'' 2"] demo_fair, of 2] by (auto simp: recv_def)
qed

end
