(* ===== verification/System.thy ===== *)
theory System
  imports Coordinator Watson_Thresholds App_PortScan App_DDoS
begin

text \<open>
  The whole system: the coordinator's loop, the northbound interface and the applications that talk
  to it (\<open>coordinator/tennison.py\<close>, \<open>coordinator/core/watson.py\<close>, \<open>coordinator/apps\<close>).

  The loop runs in the main thread and the interface in a daemon thread of the same process; both work on the same threshold
  tables. A run is a sequence of events, a request the interface handles or a message the loop
  handles; handlers are taken to run one after the other. When the loop ends with an exception the process ends, and the daemon
  thread with it.
\<close>

section \<open>The process\<close>

record tennison =
  t_coord :: coord
  t_file :: "pyval option"
  t_running :: bool

definition t_nbi :: "tennison \<Rightarrow> nbi" where
  "t_nbi t = \<lparr>nbi_store = c_store (t_coord t), nbi_file = t_file t\<rparr>"

definition with_nbi :: "nbi \<Rightarrow> tennison \<Rightarrow> tennison" where
  "with_nbi n t = t\<lparr>t_coord := (t_coord t)\<lparr>c_store := nbi_store n\<rparr>, t_file := nbi_file n\<rparr>"

datatype event = Rest bool nbi_request | Received int int pydict

fun tennison_step :: "world \<Rightarrow> database \<Rightarrow> tennison \<Rightarrow> event \<Rightarrow> tennison" where
  "tennison_step w ins t (Rest wr r) =
     (if t_running t then with_nbi (fst (nbi_handle wr r (t_nbi t))) t else t)"
| "tennison_step w ins t (Received now later msg) =
     (if t_running t then
        (case coord_message w ins now later msg (t_coord t) of
           (c, r) \<Rightarrow> t\<lparr>t_coord := c, t_running := (case r of Inr _ \<Rightarrow> True | Inl _ \<Rightarrow> False)\<rparr>)
      else t)"

definition tennison_run :: "world \<Rightarrow> database \<Rightarrow> event list \<Rightarrow> tennison \<Rightarrow> tennison" where
  "tennison_run w ins evs t = foldl (tennison_step w ins) t evs"

text \<open>The routes a request is delivered to; a path with a further slash is not found.\<close>

definition nbi_base :: string where
  "nbi_base = ''http://127.0.0.1:2401/tennison/thresholds/''"

definition nbi_routes :: "(string \<times> (string \<Rightarrow> http_body \<Rightarrow> nbi_request)) list" where
  "nbi_routes =
     [(''ipfix/add/'', AddThr Ipfix), (''ipfix/update/'', UpdateThr Ipfix), (''ipfix/remove/'', \<lambda>i _. RemoveThr Ipfix i),
      (''snort/remove/'', \<lambda>i _. RemoveThr Snort i), (''snort/add/'', AddThr Snort), (''snort/update/'', UpdateThr Snort)]"

definition posted_body :: "pyval option \<Rightarrow> http_body" where
  "posted_body body = (case body of None \<Rightarrow> \<lparr>content_type = None, json_body = Inl ValueError\<rparr> | Some v \<Rightarrow> json_post v)"

definition deliver :: "http_req \<Rightarrow> nbi_request option" where
  "deliver req =
     (case req of
        HttpGet url \<Rightarrow> None
      | HttpPost url body \<Rightarrow>
          (case List.find (\<lambda>(r, f). is_prefix (nbi_base @ r) url) nbi_routes of
             None \<Rightarrow> None
           | Some (r, f) \<Rightarrow>
               (let i = drop (length (nbi_base @ r)) url
                in if i = [] \<or> CHR ''/'' \<in> set i then None else Some (f i (posted_body body)))))"

section \<open>Lemmas\<close>

lemma tennison_stopped: "\<not> t_running t \<Longrightarrow> tennison_run w ins evs t = t"
proof (induction evs)
  case (Cons e evs)
  then show ?case by (cases e) (simp_all add: tennison_run_def)
qed (simp add: tennison_run_def)

lemma tennison_run_Cons: "tennison_run w ins (e # evs) t = tennison_run w ins evs (tennison_step w ins t e)"
  by (simp add: tennison_run_def)

lemma handle_message_fields: "same_fields s (fst (handle_message w now later msg s i))"
proof -
  have "same_fields s (fst (ipfix_handle w now later msg s i))"
    using ipfix_decide_fields by (auto simp: ipfix_handle_def case_prod_beta split: sum.split)
  then show ?thesis using snort_handle_fields[of s w msg]
    by (auto simp: handle_message_def case_prod_beta split: sum.split)
qed

lemma wf_store_fields: "same_fields s s' \<Longrightarrow> wf_store s \<Longrightarrow> wf_store s'"
  by (simp add: same_fields_def wf_store_def)

lemma coord_message_wf: "wf_store (c_store c) \<Longrightarrow> wf_store (c_store (fst (coord_message w ins now later msg c)))"
  using wf_store_fields[OF handle_message_fields]
  by (auto simp: coord_message_def case_prod_beta Let_def split: sum.split)

lemma step_wf:
  "wf_store (c_store (t_coord t)) \<Longrightarrow> wf_store (c_store (t_coord (tennison_step w ins t e)))"
  using coord_message_wf nbi_handle_wf[of "t_nbi t"]
  by (cases e) (auto simp: with_nbi_def t_nbi_def case_prod_beta)

interpretation system: invariant_machine "tennison_step w ins" "\<lambda>t. wf_store (c_store (t_coord t))"
  by unfold_locales (rule step_wf)

lemma is_prefix_append: "is_prefix xs (xs @ ys)"
  by (induction xs) auto

lemma deliver_add:
  assumes "i \<noteq> []" "CHR ''/'' \<notin> set i"
  shows "deliver (HttpPost (nbi_base @ ''ipfix/add/'' @ i) (Some v)) = Some (AddThr Ipfix i (json_post v))"
proof -
  have "is_prefix (nbi_base @ ''ipfix/add/'') (nbi_base @ ''ipfix/add/'' @ i)"
    using is_prefix_append[of "nbi_base @ ''ipfix/add/''" i] by simp
  then show ?thesis using assms
    by (simp add: deliver_def nbi_routes_def posted_body_def del: append_assoc)
qed

lemma table_eq_new_key: "wf_dict t \<Longrightarrow> wf_dict u \<Longrightarrow> has_key u k \<Longrightarrow> \<not> has_key t k \<Longrightarrow> \<not> table_eq s t u"
  using table_eq_dom[of s t u] by (auto simp: has_key_iff)

lemma mask_keys_error: "mask_keys v = Inl e \<Longrightarrow> e \<in> {KeyError, TypeError, AttributeError}"
  by (cases v) (auto simp: mask_keys_def res_simps of_option_def split: option.splits pyval.splits)

lemma add_masks_fails:
  assumes "a \<in> set as" "mask_keys (heap s a) = Inl e"
  shows "\<exists>m' e'. add_masks s as m = (m', Inl e') \<and> e' \<in> {KeyError, TypeError, AttributeError}"
  using assms(1)
proof (induction as arbitrary: m)
  case (Cons b as)
  show ?case
  proof (cases "mask_keys (heap s b)")
    case (Inl e')
    then show ?thesis using mask_keys_error by simp
  next
    case (Inr ks)
    then have "a \<in> set as" using Cons.prems assms(2) by auto
    then show ?thesis using Cons.IH[of "add_mask ks b m"] Inr by simp
  qed
qed simp

text \<open>An exception that is not one of the database ends the loop; what was sent stays sent.\<close>

lemma coord_message_raises:
  assumes "ins (c_alerts c) msg = (msg', Inr ())"
    and "handle_message w now later msg' (c_store c) (c_ipfix c) = (s', i', reqs, Inl e)" "e \<notin> {PyMongoError, OverflowError}"
  shows "coord_message w ins now later msg c =
    (c\<lparr>c_alerts := c_alerts c @ [msg'], c_store := s', c_ipfix := i', c_sent := c_sent c @ reqs\<rparr>, Inl e)"
  using assms by (simp add: coord_message_def recover_def Let_def)

lemma fatal_message:
  assumes "t_running t" "ins (c_alerts (t_coord t)) msg = (msg', Inr ())"
    and "handle_message w now later msg' (c_store (t_coord t)) (c_ipfix (t_coord t)) = (s', i', [], Inl e)"
    and "e \<notin> {PyMongoError, OverflowError}"
    and "t'' = tennison_run w ins (Received now later msg # evs) t"
  shows "\<not> t_running t'' \<and> c_sent (t_coord t'') = c_sent (t_coord t) \<and>
    c_alerts (t_coord t'') = c_alerts (t_coord t) @ [msg']"
proof -
  let ?t' = "tennison_step w ins t (Received now later msg)"
  have "\<not> t_running ?t'" "c_sent (t_coord ?t') = c_sent (t_coord t)" "c_alerts (t_coord ?t') = c_alerts (t_coord t) @ [msg']"
    using assms(1) coord_message_raises[where ins = ins, OF assms(2,3,4)] by simp_all
  then show ?thesis using assms(5) tennison_stopped[of ?t' w ins evs] by (simp add: tennison_run_Cons)
qed

section \<open>Properties: a request can stop the coordinator\<close>

text \<open>A JSON value that is not an object passes the test of the required words if they occur in it.\<close>

lemma not_an_object:
  assumes "all_in ks v = Inr True" "ks \<noteq> []" "\<forall>d. v \<noteq> PyDict d"
  shows "mask_keys v = Inl TypeError \<and> with_id (k, v) = Inl TypeError"
  using assms by (cases v) (auto simp: mask_keys_def)

lemma threshold_doc_fails:
  assumes "(k, a) \<in> set (ipfix_thr s)" "with_id (k, heap s a) = Inl e"
  shows "threshold_doc s = Inl TypeError"
proof -
  have "\<exists>e'. mapE with_id (entries s (ipfix_thr s)) = Inl e'"
    using assms mapE_Inl[of with_id] by (force simp: entries_def)
  moreover have "e' = TypeError" if "mapE with_id xs = Inl e'" for xs e'
    using that
  proof (induction xs)
    case (Cons p xs)
    then show ?case by (cases p rule: with_id.cases) (auto simp: res_simps)
  qed simp
  ultimately show ?thesis by (auto simp: threshold_doc_def)
qed

lemma bad_threshold_added:
  assumes "wf_store (nbi_store n)" "\<not> has_key (ipfix_thr (nbi_store n)) (PyStr i)"
    and "all_in [''fields'', ''subtype'', ''treatment'', ''priority''] v = Inr True" "\<forall>d. v \<noteq> PyDict d"
  shows "\<exists>n'. nbi_handle wr (AddThr Ipfix i (json_post v)) n = (n', Inl TypeError) \<and> nbi_file n' = nbi_file n \<and>
    wf_store (nbi_store n') \<and> (\<exists>a. map_of (ipfix_thr (nbi_store n')) (PyStr i) = Some a \<and> heap (nbi_store n') a = v)"
proof -
  let ?s' = "snd (alloc v (nbi_store n))"
  let ?a = "next_addr (nbi_store n)"
  let ?s1 = "?s'\<lparr>ipfix_thr := dict_put (PyStr i) ?a (ipfix_thr (nbi_store n))\<rparr>"
  have s1: "map_of (ipfix_thr ?s1) (PyStr i) = Some ?a" "heap ?s1 ?a = v" by simp_all
  have "threshold_doc ?s1 = Inl TypeError"
    using threshold_doc_fails[OF map_of_SomeD[OF s1(1)]] not_an_object[OF assms(3) _ assms(4)] s1(2) by simp
  then have run: "nbi_handle wr (AddThr Ipfix i (json_post v)) n = (n\<lparr>nbi_store := ?s1\<rparr>, Inl TypeError)"
    using assms(2,3)
    by (simp add: add_ipfix_threshold_def add_threshold_def json_post_def case_prod_beta Let_def saved_reply_def
        threshold_to_file_def)
  have "wf_store ?s1" using wf_store_add[OF assms(1), of Ipfix "PyStr i" v] by simp
  then show ?thesis using run s1 by (intro exI[of _ "n\<lparr>nbi_store := ?s1\<rparr>"]) simp
qed

lemma reload_fails:
  assumes "wf_dict (loaded ix)" "wf_store s" "\<not> has_key (loaded ix) k" "map_of (ipfix_thr s) k = Some a"
    and "mask_keys (heap s a) = Inl e"
  shows "\<exists>ix' e'. reload_masks s ix = (ix', Inl e') \<and> e' \<in> {KeyError, TypeError, AttributeError}"
proof -
  have "wf_dict (ipfix_thr s)" using assms(2) by (simp add: wf_store_def wf_table_def)
  then have ne: "\<not> table_eq s (loaded ix) (ipfix_thr s)"
    using table_eq_new_key[OF assms(1) _ _ assms(3), of "ipfix_thr s" s] assms(4) by (simp add: has_key_def)
  have "a \<in> set (map snd (ipfix_thr s))" using map_of_SomeD[OF assms(4)] by force
  from add_masks_fails[OF this assms(5), of "[]"] show ?thesis
    using ne by (auto simp: reload_masks_def create_initial_masks_def)
qed

text \<open>
  C20: one request stops the system. The interface accepts as an IPFIX threshold any JSON value that contains the four required
  words, also a list or a string. Such a request is answered with an error and leaves the file alone, but the value is in the table:
  the next IPFIX message is stored, handling it raises, and the process ends; nothing is sent, and whatever happens afterwards
  changes nothing.
\<close>

theorem malformed_threshold_stops_system:
  assumes "t_running t" "wf_store (c_store (t_coord t))" "wf_dict (loaded (c_ipfix (t_coord t)))"
    and "\<not> has_key (ipfix_thr (c_store (t_coord t))) (PyStr i)" "\<not> has_key (loaded (c_ipfix (t_coord t))) (PyStr i)"
    and "all_in [''fields'', ''subtype'', ''treatment'', ''priority''] v = Inr True" "\<forall>d. v \<noteq> PyDict d"
    and "t' = tennison_step w ins t (Rest wr (AddThr Ipfix i (json_post v)))"
    and "ins (c_alerts (t_coord t)) msg = (msg', Inr ())" "map_of msg' ''type'' = Some (PyStr ''ipfix'')"
    and "t'' = tennison_run w ins (Received now later msg # evs) t'"
  shows "snd (nbi_handle wr (AddThr Ipfix i (json_post v)) (t_nbi t)) = Inl TypeError \<and> t_file t' = t_file t \<and> t_running t' \<and>
    \<not> t_running t'' \<and> c_sent (t_coord t'') = c_sent (t_coord t) \<and> c_alerts (t_coord t'') = c_alerts (t_coord t) @ [msg']"
proof -
  have n: "wf_store (nbi_store (t_nbi t))" "\<not> has_key (ipfix_thr (nbi_store (t_nbi t))) (PyStr i)"
    using assms(2,4) by (simp_all add: t_nbi_def)
  obtain n' a where n': "nbi_handle wr (AddThr Ipfix i (json_post v)) (t_nbi t) = (n', Inl TypeError)"
    "nbi_file n' = t_file t" "wf_store (nbi_store n')" "map_of (ipfix_thr (nbi_store n')) (PyStr i) = Some a"
    "heap (nbi_store n') a = v"
    using bad_threshold_added[OF n assms(6,7), of wr] by (auto simp: t_nbi_def)
  have t': "t' = with_nbi n' t" using assms(1,8) n'(1) by simp
  have "mask_keys (heap (nbi_store n') a) = Inl TypeError" using not_an_object[OF assms(6) _ assms(7)] n'(5) by simp
  from reload_fails[OF assms(3) n'(3) assms(5) n'(4) this]
  obtain ix' e where ix': "reload_masks (nbi_store n') (c_ipfix (t_coord t)) = (ix', Inl e)"
    "e \<in> {KeyError, TypeError, AttributeError}" by blast
  have "handle_message w now later msg' (c_store (t_coord t')) (c_ipfix (t_coord t')) = (c_store (t_coord t'), ix', [], Inl e)"
    using assms(10) by (simp add: handle_message_def ipfix_handle_def t' with_nbi_def ix'(1))
  from fatal_message[where ins = ins and t = t' and msg = msg and now = now and later = later, OF _ _ this _ assms(11)]
  show ?thesis using assms(1,9) n'(1,2) ix'(2) by (auto simp: t' with_nbi_def)
qed

definition demo_tennison :: tennison where
  "demo_tennison = \<lparr>t_coord = \<lparr>c_store = demo_store, c_ipfix = demo_ipfix, c_alerts = [], c_sent = []\<rparr>,
     t_file = None, t_running = True\<rparr>"

lemma demo_loaded: "loaded demo_ipfix = ipfix_thr demo_store"
  using create_initial_masks_ok[OF demo_ipfix_built] by simp

lemma demo_wf: "wf_store demo_store"
  by (simp add: wf_store_def wf_table_def demo_store_def)

theorem malformed_threshold_stops_system_witness:
  "\<not> t_running (tennison_run demo_world demo_insert [Received 0 0 (demo_message 21), Rest True (RemoveThr Ipfix ''a'')]
     (tennison_step demo_world demo_insert demo_tennison (Rest True (AddThr Ipfix ''x''
        (json_post (PyList [PyStr ''fields'', PyStr ''subtype'', PyStr ''treatment'', PyStr ''priority'']))))))"
proof -
  have "t_running demo_tennison" "wf_store (c_store (t_coord demo_tennison))"
    "wf_dict (loaded (c_ipfix (t_coord demo_tennison)))"
    "\<not> has_key (ipfix_thr (c_store (t_coord demo_tennison))) (PyStr ''x'')"
    "\<not> has_key (loaded (c_ipfix (t_coord demo_tennison))) (PyStr ''x'')"
    by (simp_all add: demo_tennison_def demo_wf demo_loaded) (simp_all add: demo_store_def)
  note start_state = this
  have v: "all_in [''fields'', ''subtype'', ''treatment'', ''priority'']
      (PyList [PyStr ''fields'', PyStr ''subtype'', PyStr ''treatment'', PyStr ''priority'']) = Inr True" by simp
  have m: "demo_insert (c_alerts (t_coord demo_tennison)) (demo_message 21) = (demo_message 21 @ [(''_id'', PyInt 0)], Inr ())"
    "map_of (demo_message 21 @ [(''_id'', PyInt 0)]) ''type'' = Some (PyStr ''ipfix'')"
    by (simp_all add: demo_insert_def demo_tennison_def demo_message_def)
  have no: "\<forall>d. PyList [PyStr ''fields'', PyStr ''subtype'', PyStr ''treatment'', PyStr ''priority''] \<noteq> PyDict d" by simp
  from malformed_threshold_stops_system[where ins = demo_insert, OF start_state v no refl m refl] show ?thesis by blast
qed

section \<open>Properties: a threshold can stop the coordinator for good\<close>

lemma snort_threshold_without_message:
  assumes "map_of (snort_thr s) k = Some a" "heap s a = PyDict d" "\<not> has_key d ''alertmsg''"
  shows "\<exists>e. snort_handle w s msg = (s, [], Inl e) \<and> e \<in> {KeyError, TypeError}"
proof -
  let ?P = "\<lambda>a. bindE (py_item (heap s a) ''alertmsg'') (\<lambda>t.
                  bindE (py_item (PyDict msg) ''alertmsg'') (\<lambda>m. Inr (py_eq t m)))"
  have item: "py_item v x = Inl e \<Longrightarrow> e \<in> {KeyError, TypeError}" for v x e
    by (cases v) (auto simp: of_option_def split: option.splits)
  have errors: "filterE ?P as = Inl e \<Longrightarrow> e \<in> {KeyError, TypeError}" for as e
  proof (induction as)
    case (Cons a as)
    then show ?case using item by (auto simp: res_simps simp del: py_item.simps)
  qed simp
  have "?P a = Inl KeyError" using assms(2,3) by (simp add: has_key_def)
  moreover have "a \<in> set (map snd (snort_thr s))" using map_of_SomeD[OF assms(1)] by force
  ultimately obtain e where "filterE ?P (map snd (snort_thr s)) = Inl e"
    using filterE_Inl[of ?P "map snd (snort_thr s)"] by blast
  then show ?thesis using errors by (simp add: snort_handle_def snort_find_match_def)
qed

lemma snort_alert_fatal:
  assumes "map_of (snort_thr (c_store c)) k = Some a" "heap (c_store c) a = PyDict d" "\<not> has_key d ''alertmsg''"
    and "ins (c_alerts c) msg = (msg', Inr ())" "map_of msg' ''type'' = Some (PyStr ''snort'')"
    and "t'' = tennison_run w ins (Received now later msg # evs) \<lparr>t_coord = c, t_file = f, t_running = True\<rparr>"
  shows "\<not> t_running t'' \<and> c_sent (t_coord t'') = c_sent c"
proof -
  obtain e where e: "snort_handle w (c_store c) msg' = (c_store c, [], Inl e)" "e \<in> {KeyError, TypeError}"
    using snort_threshold_without_message[OF assms(1-3)] by blast
  then have "handle_message w now later msg' (c_store c) (c_ipfix c) = (c_store c, c_ipfix c, [], Inl e)"
    using assms(5) by (simp add: handle_message_def)
  then show ?thesis
    using fatal_message[where ins = ins and msg = msg and t = "\<lparr>t_coord = c, t_file = f, t_running = True\<rparr>",
        OF _ _ _ _ assms(6)] assms(4) e(2) by auto
qed

lemma dumpable_add:
  assumes "wf_store s" "dumpable s"
  shows "dumpable (set_thr k (dict_put i (next_addr s) (thr k s)) (snd (alloc (PyDict d) s)))"
proof -
  have wf: "wf_table (next_addr s) (thr j s)" for j by (rule wf_thr[OF assms(1)])
  have old: "dict_entries s (thr j s)" for j using assms(2) by (cases j) (simp_all add: dumpable_def)
  note put = dict_entries_put[OF old[of k] wf[of k], of d i]
  have "dict_entries (snd (alloc (PyDict d) s)) (thr j s)" for j using dict_entries_alloc[OF old wf] .
  note alloc = this[of Ipfix] this[of Snort]
  have frame: "dict_entries (set_thr k u (snd (alloc (PyDict d) s))) t = dict_entries (snd (alloc (PyDict d) s)) t" for u t
    by (rule dict_entries_cong) simp
  show ?thesis using put alloc unfolding dumpable_def frame by (cases k) simp_all
qed

text \<open>A complete threshold is accepted, whatever its kind.\<close>

definition required :: "thr_kind \<Rightarrow> string list" where
  "required k = (case k of Ipfix \<Rightarrow> [''fields'', ''subtype'', ''treatment'', ''priority''] | Snort \<Rightarrow> [''rule'', ''treatment'', ''priority''])"

lemma nbi_handle_add: "nbi_handle wr (AddThr k i req) n = add_threshold k (required k) wr i req n"
  by (cases k) (simp_all add: required_def add_ipfix_threshold_def add_snort_threshold_def)

lemma threshold_added:
  assumes "wf_store (nbi_store n)" "dumpable (nbi_store n)" "\<not> has_key (thr k (nbi_store n)) (PyStr i)"
    and "\<forall>x \<in> set (required k). has_key d x"
  shows "\<exists>n' doc. let s = nbi_store n; s' = nbi_store n' in
    nbi_handle True (AddThr k i (json_post (PyDict d))) n = (n', Inr (Success, 200)) \<and>
    nbi_file n' = Some doc \<and> threshold_doc s' = Inr doc \<and> wf_store s' \<and> dumpable s' \<and>
    thr k s' = dict_put (PyStr i) (next_addr s) (thr k s) \<and> (\<forall>j. j \<noteq> k \<longrightarrow> thr j s' = thr j s) \<and>
    heap s' = (heap s)(next_addr s := PyDict d)"
proof -
  let ?s = "nbi_store n"
  let ?s1 = "set_thr k (dict_put (PyStr i) (next_addr ?s) (thr k ?s)) (snd (alloc (PyDict d) ?s))"
  have s1: "wf_store ?s1" "dumpable ?s1"
    by (rule wf_store_add[OF assms(1)], rule dumpable_add[OF assms(1,2)])
  obtain f where f: "saved_reply True (n\<lparr>nbi_store := ?s1\<rparr>) = (n\<lparr>nbi_store := ?s1, nbi_file := Some f\<rparr>, Inr (Success, 200))"
    using saved_reply_new[OF s1(2)] by blast
  have "nbi_handle True (AddThr k i (json_post (PyDict d))) n = (n\<lparr>nbi_store := ?s1, nbi_file := Some f\<rparr>, Inr (Success, 200))"
    using assms(3,4) f
    by (simp add: nbi_handle_add add_threshold_def json_post_def all_in_dict case_prod_beta Let_def)
  moreover have "threshold_doc ?s1 = Inr f" using saved_reply_success[OF f] by simp
  ultimately show ?thesis using s1
    by (intro exI[of _ "n\<lparr>nbi_store := ?s1, nbi_file := Some f\<rparr>"] exI[of _ f]) simp
qed

text \<open>
  C21: a snort threshold without its alert message stops the system, and every later start of it too. The interface does not ask
  for the field \<open>alertmsg\<close>, which every snort alert is compared with; the threshold is accepted and saved. From then
  on, and also after a restart from the saved file, the first snort alert that is stored ends the process without any treatment.
\<close>

theorem snort_threshold_stops_every_run:
  assumes "t_running t" "wf_store (c_store (t_coord t))" "dumpable (c_store (t_coord t))"
    and "\<forall>k \<in> fst ` (set (ipfix_thr (c_store (t_coord t))) \<union> set (snort_thr (c_store (t_coord t)))). \<exists>h. hash_key k = Inr h"
    and "\<not> has_key (snort_thr (c_store (t_coord t))) (PyStr i)"
    and "has_key d ''rule''" "has_key d ''treatment''" "has_key d ''priority''" "\<not> has_key d ''alertmsg''"
    and "t' = tennison_step w ins t (Rest True (AddThr Snort i (json_post (PyDict d))))"
  shows "snd (nbi_handle True (AddThr Snort i (json_post (PyDict d))) (t_nbi t)) = Inr (Success, 200) \<and>
    (\<exists>doc s'. t_file t' = Some doc \<and> setup_thresholds doc = Inr s' \<and>
      (\<forall>c now later msg msg' evs. c_store c \<in> {c_store (t_coord t'), s'} \<longrightarrow> ins (c_alerts c) msg = (msg', Inr ()) \<longrightarrow>
         map_of msg' ''type'' = Some (PyStr ''snort'') \<longrightarrow>
         (let t'' = tennison_run w ins (Received now later msg # evs) \<lparr>t_coord = c, t_file = Some doc, t_running = True\<rparr>
          in \<not> t_running t'' \<and> c_sent (t_coord t'') = c_sent c)))"
proof -
  have n: "wf_store (nbi_store (t_nbi t))" "dumpable (nbi_store (t_nbi t))" "\<not> has_key (snort_thr (nbi_store (t_nbi t))) (PyStr i)"
    using assms(2,3,5) by (simp_all add: t_nbi_def)
  have keys: "\<forall>x \<in> set (required Snort). has_key d x" using assms(6-8) by (simp add: required_def)
  define a where "a = next_addr (nbi_store (t_nbi t))"
  obtain n' doc where n': "nbi_handle True (AddThr Snort i (json_post (PyDict d))) (t_nbi t) = (n', Inr (Success, 200))"
    "nbi_file n' = Some doc" "threshold_doc (nbi_store n') = Inr doc" "wf_store (nbi_store n')" "dumpable (nbi_store n')"
    "ipfix_thr (nbi_store n') = ipfix_thr (nbi_store (t_nbi t))"
    "snort_thr (nbi_store n') = dict_put (PyStr i) a (snort_thr (nbi_store (t_nbi t)))" "heap (nbi_store n') a = PyDict d"
    using threshold_added[where k = Snort, OF n(1,2) _ keys] n(3) unfolding Let_def a_def by fastforce
  have t': "t' = with_nbi n' t" using assms(1,10) n'(1) by simp
  have ids: "\<forall>k \<in> fst ` (set (ipfix_thr (nbi_store n')) \<union> set (snort_thr (nbi_store n'))). \<exists>h. hash_key k = Inr h"
  proof -
    have "fst ` set (dict_put k x u) = insert k (fst ` set u)" for k :: pyval and x :: nat and u by (simp add: AList.dom_update)
    then show ?thesis using assms(4) unfolding n'(6,7) by (simp add: image_Un t_nbi_def)
  qed
  have found: "map_of (snort_thr (nbi_store n')) (PyStr i) = Some a" using n'(7) by simp
  obtain s' where s': "setup_thresholds doc = Inr s'" and entry: "\<And>kind k a. map_of (thr kind (nbi_store n')) k = Some a \<Longrightarrow>
      \<exists>a'. map_of (thr kind s') k = Some a' \<and> heap s' a' = strip_id (heap (nbi_store n') a)"
    using reload_saved[OF n'(4,5,3) ids] by blast
  obtain a' where a': "map_of (snort_thr s') (PyStr i) = Some a'" "heap s' a' = PyDict (dict_del ''id'' d)"
    using entry[of Snort "PyStr i" a] found n'(8) by auto
  have del: "\<not> has_key (dict_del ''id'' d) ''alertmsg''" using assms(9) by simp
  have fatal: "\<not> t_running t'' \<and> c_sent (t_coord t'') = c_sent c"
    if "c_store c \<in> {nbi_store n', s'}" "ins (c_alerts c) msg = (msg', Inr ())" "map_of msg' ''type'' = Some (PyStr ''snort'')"
      "t'' = tennison_run w ins (Received now later msg # evs) \<lparr>t_coord = c, t_file = Some doc, t_running = True\<rparr>"
    for c now later msg msg' evs t''
  proof (cases "c_store c = nbi_store n'")
    case True
    then show ?thesis using snort_alert_fatal[OF _ _ assms(9) that(2,3,4)] found n'(8) by metis
  next
    case False
    then have "c_store c = s'" using that(1) by simp
    then show ?thesis using snort_alert_fatal[OF _ _ del that(2,3,4)] a' by metis
  qed
  have store: "c_store (t_coord t') = nbi_store n'" "t_file t' = Some doc" by (simp_all add: t' with_nbi_def n'(2))
  show ?thesis
  proof (intro conjI exI allI impI)
    show "snd (nbi_handle True (AddThr Snort i (json_post (PyDict d))) (t_nbi t)) = Inr (Success, 200)" using n'(1) by simp
    show "t_file t' = Some doc" "setup_thresholds doc = Inr s'" by (rule store(2), rule s')
    show "let t'' = tennison_run w ins (Received now later msg # evs) \<lparr>t_coord = c, t_file = Some doc, t_running = True\<rparr>
          in \<not> t_running t'' \<and> c_sent (t_coord t'') = c_sent c"
      if "c_store c \<in> {c_store (t_coord t'), s'}" "ins (c_alerts c) msg = (msg', Inr ())"
        "map_of msg' ''type'' = Some (PyStr ''snort'')" for c now later msg msg' evs
      using fatal[OF _ that(2,3) refl] that(1) unfolding store Let_def by blast
  qed
qed

theorem snort_threshold_stops_every_run_witness:
  "\<exists>doc s'. t_file (tennison_step demo_world demo_insert demo_tennison (Rest True (AddThr Snort ''ftp'' (json_post (PyDict
       [(''rule'', PyStr ''alert tcp any any -> any 21''), (''treatment'', PyStr ''block''), (''priority'', PyInt 1)]))))) = Some doc \<and>
     setup_thresholds doc = Inr s' \<and>
     \<not> t_running (tennison_run demo_world demo_insert [Received 0 0 [(''type'', PyStr ''snort'')]]
         \<lparr>t_coord = icmp_coord\<lparr>c_store := s'\<rparr>, t_file = Some doc, t_running = True\<rparr>)"
proof -
  let ?d = "[(''rule'', PyStr ''alert tcp any any -> any 21''), (''treatment'', PyStr ''block''), (''priority'', PyInt 1)]"
  have state: "t_running demo_tennison" "wf_store (c_store (t_coord demo_tennison))" "dumpable (c_store (t_coord demo_tennison))"
    "\<forall>k \<in> fst ` (set (ipfix_thr (c_store (t_coord demo_tennison))) \<union> set (snort_thr (c_store (t_coord demo_tennison)))).
       \<exists>h. hash_key k = Inr h"
    "\<not> has_key (snort_thr (c_store (t_coord demo_tennison))) (PyStr ''ftp'')"
    by (simp_all add: demo_tennison_def demo_wf)
      (simp_all add: demo_store_def dumpable_def dict_entries_def demo_threshold_def)
  have keys: "has_key ?d ''rule''" "has_key ?d ''treatment''" "has_key ?d ''priority''" "\<not> has_key ?d ''alertmsg''" by simp_all
  from snort_threshold_stops_every_run[where w = demo_world and ins = demo_insert, OF state keys refl]
  obtain doc s' where r: "t_file (tennison_step demo_world demo_insert demo_tennison (Rest True (AddThr Snort ''ftp''
      (json_post (PyDict ?d))))) = Some doc" "setup_thresholds doc = Inr s'"
    and fatal: "\<And>c now later msg msg' evs. c_store c = s' \<Longrightarrow> demo_insert (c_alerts c) msg = (msg', Inr ()) \<Longrightarrow>
         map_of msg' ''type'' = Some (PyStr ''snort'') \<Longrightarrow>
         \<not> t_running (tennison_run demo_world demo_insert (Received now later msg # evs)
           \<lparr>t_coord = c, t_file = Some doc, t_running = True\<rparr>)"
    unfolding Let_def by blast
  have "demo_insert (c_alerts (icmp_coord\<lparr>c_store := s'\<rparr>)) [(''type'', PyStr ''snort'')] =
      ([(''type'', PyStr ''snort''), (''_id'', PyInt 0)], Inr ())"
    "map_of [(''type'', PyStr ''snort''), (''_id'', PyInt 0)] ''type'' = Some (PyStr ''snort'')"
    by (simp_all add: demo_insert_def icmp_coord_def)
  from fatal[OF _ this] r show ?thesis by force
qed

section \<open>A new threshold takes effect\<close>

lemma is_infix_char: "is_infix [c] xs \<longleftrightarrow> c \<in> set xs"
  by (induction xs) auto

lemma direct_match_heap: "heap s' b = heap s b \<Longrightarrow> direct_match w s' msg b = direct_match w s msg b"
proof -
  assume "heap s' b = heap s b"
  then have "state_matches w s' msg b = state_matches w s msg b" "mask_keys (heap s' b) = mask_keys (heap s b)"
    by (simp_all only: state_matches_def)
  then show ?thesis by (simp add: direct_match_def cong: if_cong)
qed

lemma priority_of_heap: "heap s' b = heap s b \<Longrightarrow> priority_of s' b = priority_of s b"
  by (simp add: priority_of_def)

text \<open>The thresholds the applications push: one address field, its treatment, no metric.\<close>

definition address_policy :: "string \<Rightarrow> string \<Rightarrow> string \<Rightarrow> int \<Rightarrow> string \<Rightarrow> pydict \<Rightarrow> bool" where
  "address_policy k addr subtype p t d \<longleftrightarrow>
     k \<in> {''sourceIPv4Address'', ''destinationIPv4Address''} \<and> CHR ''/'' \<notin> set addr \<and>
     map_of d ''fields'' = Some (PyDict [(k, PyStr addr)]) \<and>
     map_of d ''treatment_fields'' = Some (PyDict [(k, PyStr addr)]) \<and>
     map_of d ''subtype'' = Some (PyStr subtype) \<and> map_of d ''priority'' = Some (PyInt p) \<and>
     map_of d ''treatment'' = Some (PyStr t) \<and> \<not> has_key d ''metric''"

lemma address_policy_matches:
  assumes "heap s a = PyDict d" "address_policy k addr subtype p t d"
    and "map_of msg k = Some (PyStr addr)" "map_of msg ''subtype'' = Some (PyStr subtype)"
  shows "direct_match w s msg a = Inr True" "mask_keys (heap s a) = Inr [k]"
proof -
  have d: "map_of d ''fields'' = Some (PyDict [(k, PyStr addr)])" "map_of d ''subtype'' = Some (PyStr subtype)"
    "CHR ''/'' \<notin> set addr" "k \<in> {''sourceIPv4Address'', ''destinationIPv4Address''}"
    using assms(2) by (simp_all add: address_policy_def)
  show keys: "mask_keys (heap s a) = Inr [k]" using assms(1) d by (simp add: mask_keys_def)
  have "test_field w k (PyStr addr) (PyStr addr) = Inr True"
    using d(3,4) by (auto simp: test_field_def test_ip_address_def is_infix_char)
  then have "state_matches w s msg a = Inr True"
    using assms(3,4) d(1,2) by (simp add: state_matches_def test_match_similarity_def test_subtype_def assms(1) has_key_def)
  then show "direct_match w s msg a = Inr True"
    using assms(3) unfolding direct_match_def keys by (simp add: mask_applies_def has_key_def)
qed

text \<open>The path of the request: the address in its place, wildcards elsewhere.\<close>

definition address_path :: "string \<Rightarrow> string \<Rightarrow> string" where
  "address_path k addr = join ''/'' (map (\<lambda>x. if x = k then addr else ''*'') onos_keys)"

lemma address_policy_treats:
  assumes "heap s a = PyDict d" "address_policy k addr subtype p t d" "map_of treatment_methods t = Some (meth, modul)"
  shows "\<exists>s'. apply_treatment w s a True (PyDict [(k, PyStr addr)]) =
    (s', [HttpGet (onos_url (rpc_conf w) modul meth @ ''/'' @ address_path k addr)], Inr ())"
proof -
  let ?d = "[(k, PyStr addr)]"
  have k: "k \<noteq> ''protocolIdentifier''" using assms(2) by (auto simp: address_policy_def)
  have valid: "valid_protocol ?d" "resolve_protocol ?d = ?d" using k by (simp_all add: valid_protocol_def resolve_protocol_def)
  have texts: "text_or_missing ?d x" for x by (simp add: text_or_missing_def)
  have path: "map (field_text (text_of w) ?d) onos_keys = map (\<lambda>x. if x = k then addr else ''*'') onos_keys"
    by (rule map_cong) (simp_all add: field_text_def)
  have "?d \<noteq> []" by simp
  from rpc_onos_valid[OF this valid(1) texts texts, of "text_of w" "answers w" "rpc_conf w" meth modul]
  have rpc: "rpc_onos (text_of w) (answers w) (rpc_conf w) meth (PyDict ?d) modul =
      (PyDict ?d, onos_get (answers w) (onos_url (rpc_conf w) modul meth @ ''/'' @ address_path k addr))"
    unfolding valid(2) address_path_def path .
  have "map_of d ''treatment'' = Some (PyStr t)" using assms(2) by (simp add: address_policy_def)
  then show ?thesis using assms(1,3)
    by (simp add: apply_treatment_def treatment_apply_def rpc_call_def rpc onos_get_def)
qed

lemma best_match:
  assumes "a \<in> set ms" "priority_of s a = Some p"
    and "\<forall>b \<in> set ms. b = a \<or> (\<exists>q. priority_of s b = Some q \<and> q < p)"
  shows "find_highest_priority_match s ms = Inr a"
proof -
  obtain h rest where ms: "ms = h # rest" using assms(1) by (cases ms) auto
  let ?p = "\<lambda>m. the (priority_of s m)"
  have "\<forall>m \<in> set (h # rest). \<exists>q. priority_of s m = Some q" using assms(2,3) unfolding ms by metis
  then have found: "find_highest_priority_match s ms = Inr (first_max ?p h ms)"
    using find_highest_first_max unfolding ms by blast
  have "first_max ?p h ms \<in> set ms" "?p a \<le> ?p (first_max ?p h ms)"
    using first_max_in[of ?p h ms] first_max_ge[of a h ms ?p] assms(1) unfolding ms by auto
  then have "first_max ?p h ms = a" using assms(2,3) by (metis leD option.sel)
  then show ?thesis using found by simp
qed

lemma record_flow_frame:
  assumes "record_flow now later msg i = (i2, r)"
  shows "record_flow now later msg (i\<lparr>loaded := l, masks := m\<rparr>) = (i2\<lparr>loaded := l, masks := m\<rparr>, r)"
proof -
  have "map_of (delta_bps (i\<lparr>loaded := l, masks := m\<rparr>)) f = map_of (delta_bps i) f" for f by simp
  then show ?thesis using assms
    by (cases i) (auto simp: record_flow_def Let_def split: sum.splits prod.splits option.splits)
qed



lemma add_masks_succeed:
  "\<forall>a \<in> set as. \<exists>ks. mask_keys (heap s a) = Inr ks \<Longrightarrow> \<exists>m'. add_masks s as m = (m', Inr ())"
  by (induction as arbitrary: m) auto

lemma reload_succeeds:
  assumes "wf_dict (loaded ix)" "wf_store s" "\<not> has_key (loaded ix) k" "has_key (ipfix_thr s) k"
    and "\<forall>a \<in> set (map snd (ipfix_thr s)). \<exists>ks. mask_keys (heap s a) = Inr ks"
  shows "\<exists>m. reload_masks s ix = (ix\<lparr>loaded := ipfix_thr s, masks := m\<rparr>, Inr ()) \<and>
    index_ok s (ix\<lparr>loaded := ipfix_thr s, masks := m\<rparr>)"
proof -
  have "wf_dict (ipfix_thr s)" using assms(2) by (simp add: wf_store_def wf_table_def)
  then have ne: "\<not> table_eq s (loaded ix) (ipfix_thr s)"
    using table_eq_new_key[OF assms(1) _ assms(4,3)] by blast
  obtain m where m: "add_masks s (map snd (ipfix_thr s)) [] = (m, Inr ())"
    using add_masks_succeed[OF assms(5)] by blast
  have run: "create_initial_masks s (ipfix_thr s) ix = (ix\<lparr>loaded := ipfix_thr s, masks := m\<rparr>, Inr ())"
    by (simp add: create_initial_masks_def m)
  then show ?thesis using create_initial_masks_ok[OF run] ne by (auto simp: reload_masks_def)
qed

text \<open>
  What is asked of the state of the system when the threshold is added: consistent tables, a new id, and no
  threshold in the way. Another threshold may match the message when its priority is lower.
\<close>

definition out_of_the_way :: "world \<Rightarrow> store \<Rightarrow> pydict \<Rightarrow> int \<Rightarrow> nat \<Rightarrow> bool" where
  "out_of_the_way w s msg p b \<longleftrightarrow> direct_match w s msg b = Inr False \<or>
     direct_match w s msg b = Inr True \<and> (\<exists>q. priority_of s b = Some q \<and> q < of_int p)"

definition accepts :: "world \<Rightarrow> string \<Rightarrow> int \<Rightarrow> pydict \<Rightarrow> store \<Rightarrow> ipfix \<Rightarrow> bool" where
  "accepts w i p msg s ix \<longleftrightarrow> wf_store s \<and> dumpable s \<and> wf_dict (loaded ix) \<and>
     \<not> has_key (ipfix_thr s) (PyStr i) \<and> \<not> has_key (loaded ix) (PyStr i) \<and>
     (\<forall>b \<in> set (map snd (ipfix_thr s)). out_of_the_way w s msg p b)"

text \<open>A message the engine can evaluate.\<close>

definition flow_message :: "string \<Rightarrow> string \<Rightarrow> string \<Rightarrow> pydict \<Rightarrow> bool" where
  "flow_message k addr subtype msg \<longleftrightarrow> map_of msg ''type'' = Some (PyStr ''ipfix'') \<and> recognised msg \<and>
     map_of msg k = Some (PyStr addr) \<and> map_of msg ''subtype'' = Some (PyStr subtype)"

lemma out_of_the_way_result:
  "b = a \<or> out_of_the_way w s msg p b \<Longrightarrow> direct_match w s msg a = Inr True \<Longrightarrow> \<exists>x. direct_match w s msg b = Inr x"
  by (auto simp: out_of_the_way_def)

lemma threshold_preferred:
  assumes "index_ok s ix" "a \<in> set (map snd (loaded ix))" "direct_match w s msg a = Inr True"
    and "priority_of s a = Some (of_int p)"
    and "\<forall>b \<in> set (map snd (loaded ix)). b = a \<or> out_of_the_way w s msg p b"
  shows "\<exists>ms. find_mask_match w s ix msg = Inr (Some ms) \<and> find_highest_priority_match s ms = Inr a"
proof -
  have "\<exists>x. direct_match w s msg b = Inr x" if "b \<in> set (map snd (loaded ix))" for b
    using assms(5) that out_of_the_way_result[OF _ assms(3)] by blast
  then obtain found where found: "find_mask_match w s ix msg = Inr found"
    "mset (case found of None \<Rightarrow> [] | Some ms \<Rightarrow> ms) =
      mset (filter (\<lambda>a. direct_match w s msg a = Inr True) (map snd (loaded ix)))"
    using index_ok_equivalent[OF assms(1), of w msg] by (cases "find_mask_match w s ix msg") force+
  have members: "set (case found of None \<Rightarrow> [] | Some ms \<Rightarrow> ms) =
      {b \<in> set (map snd (loaded ix)). direct_match w s msg b = Inr True}"
    using arg_cong[OF found(2), of set_mset] by simp
  then obtain ms where ms: "found = Some ms" using assms(2,3) by (cases found) auto
  have "find_highest_priority_match s ms = Inr a"
  proof (rule best_match[OF _ assms(4)])
    show "a \<in> set ms" using members assms(2,3) ms by simp
    show "\<forall>b \<in> set ms. b = a \<or> (\<exists>q. priority_of s b = Some q \<and> q < of_int p)"
    proof
      fix b assume "b \<in> set ms"
      then have "b \<in> set (map snd (loaded ix))" "direct_match w s msg b = Inr True" using members ms by auto
      then show "b = a \<or> (\<exists>q. priority_of s b = Some q \<and> q < of_int p)"
        using assms(5) unfolding out_of_the_way_def by fastforce
    qed
  qed
  then show ?thesis using found(1) ms by simp
qed

text \<open>What the engine does once a threshold has been chosen: the last part of \<open>ipfix_decide\<close> on its value.\<close>

definition decide_on :: "world \<Rightarrow> store \<Rightarrow> nat \<Rightarrow> pydict \<Rightarrow> pydict \<Rightarrow> store \<times> http_req list \<times> unit result" where
  "decide_on w s a msg stats =
     (case check_threshold stats (heap s a) of
        Inl e \<Rightarrow> (s, [], Inl e)
      | Inr False \<Rightarrow> (s, [], Inr ())
      | Inr True \<Rightarrow>
          (case py_in ''treatment_fields'' (heap s a) of
             Inl e \<Rightarrow> (s, [], Inl e)
           | Inr True \<Rightarrow>
               (case py_item (heap s a) ''treatment_fields'' of
                  Inl e \<Rightarrow> (s, [], Inl e)
                | Inr payload \<Rightarrow> apply_treatment w s a True payload)
           | Inr False \<Rightarrow> apply_treatment w s a False (PyDict msg)))"

lemma ipfix_decide_chosen:
  assumes "find_mask_match w s ix msg = Inr (Some ms)" "find_highest_priority_match s ms = Inr a"
  shows "ipfix_decide w s ix msg stats = decide_on w s a msg stats"
  using assms by (cases "check_threshold stats (heap s a)") (simp_all add: ipfix_decide_def decide_on_def split: bool.split)

text \<open>A message the new threshold matches is decided by it, the others being out of the way.\<close>

lemma new_threshold_decides:
  assumes "accepts w i p msg (nbi_store n) ix" "map_of msg ''type'' = Some (PyStr ''ipfix'')" "recognised msg"
    and "\<forall>x \<in> set (required Ipfix). has_key d x" "map_of d ''priority'' = Some (PyInt p)"
    and "\<And>s a. heap s a = PyDict d \<Longrightarrow> direct_match w s msg a = Inr True"
    and "record_flow now later msg ix = (ix2, Inr stats)"
  shows "\<exists>n' s a ix'. nbi_handle True (AddThr Ipfix i (json_post (PyDict d))) n = (n', Inr (Success, 200)) \<and>
    heap s a = PyDict d \<and> handle_message w now later msg (nbi_store n') ix =
      (case decide_on w s a msg stats of (s', reqs, r) \<Rightarrow> (s', ix', reqs, r))"
proof -
  define a where "a = next_addr (nbi_store n)"
  have acc: "wf_store (nbi_store n)" "dumpable (nbi_store n)" "\<not> has_key (thr Ipfix (nbi_store n)) (PyStr i)"
    "wf_dict (loaded ix)" "\<not> has_key (loaded ix) (PyStr i)"
    "\<forall>b \<in> set (map snd (ipfix_thr (nbi_store n))). out_of_the_way w (nbi_store n) msg p b"
    using assms(1) by (simp_all add: accepts_def)
  obtain n' where n': "nbi_handle True (AddThr Ipfix i (json_post (PyDict d))) n = (n', Inr (Success, 200))"
    "wf_store (nbi_store n')" "ipfix_thr (nbi_store n') = dict_put (PyStr i) a (ipfix_thr (nbi_store n))"
    "heap (nbi_store n') = (heap (nbi_store n))(a := PyDict d)"
    using threshold_added[where k = Ipfix, OF acc(1-3) assms(4)] by (auto simp: Let_def a_def)
  define s where "s = nbi_store n'"
  have here: "heap s a = PyDict d" by (simp add: s_def n'(4))
  note dm = assms(6)[OF here]
  have table: "set (map snd (ipfix_thr s)) = insert a (set (map snd (ipfix_thr (nbi_store n))))" "has_key (ipfix_thr s) (PyStr i)"
    using acc(3) by (simp_all add: s_def n'(3) dict_put_fresh has_key_iff)
  have "heap s b = heap (nbi_store n) b" if "b \<in> set (map snd (ipfix_thr (nbi_store n)))" for b
    using that wf_thr[OF acc(1), of Ipfix] by (auto simp: s_def n'(4) a_def wf_table_def)
  then have others: "\<forall>b \<in> set (map snd (ipfix_thr s)). b = a \<or> out_of_the_way w s msg p b"
    using acc(6) direct_match_heap priority_of_heap unfolding table(1) out_of_the_way_def by (metis insert_iff)
  have "\<exists>ks. mask_keys (heap s b) = Inr ks" if "b \<in> set (map snd (ipfix_thr s))" for b
  proof -
    have "\<exists>x. direct_match w s msg b = Inr x" using that others out_of_the_way_result[OF _ dm] by blast
    then show ?thesis by (auto simp: direct_match_def res_simps)
  qed
  then obtain m where m: "reload_masks s ix = (ix\<lparr>loaded := ipfix_thr s, masks := m\<rparr>, Inr ())"
    "index_ok s (ix\<lparr>loaded := ipfix_thr s, masks := m\<rparr>)"
    using reload_succeeds[OF acc(4) n'(2)[folded s_def] acc(5) table(2)] by blast
  define j where "j = ix2\<lparr>loaded := ipfix_thr s, masks := m\<rparr>"
  have j: "index_ok s j" "loaded j = ipfix_thr s" using m(2) by (simp_all add: j_def index_ok_def)
  have "priority_of s a = Some (of_int p)" using here assms(5) by (simp add: priority_of_def)
  then obtain ms where "find_mask_match w s j msg = Inr (Some ms)" "find_highest_priority_match s ms = Inr a"
    using threshold_preferred[OF j(1) _ dm] others table(1) unfolding j(2) by blast
  note decided = ipfix_decide_chosen[OF this, of stats]
  have "handle_message w now later msg (nbi_store n') ix =
      (case decide_on w s a msg stats of (s', reqs, r) \<Rightarrow> (s', j, reqs, r))"
    using assms(2,3) m(1) record_flow_frame[OF assms(7), where l = "ipfix_thr s" and m = m] decided
    by (simp add: handle_message_def ipfix_handle_def s_def[symmetric] j_def split: prod.split)
  then show ?thesis using n'(1) here by blast
qed

lemma new_threshold_acts:
  assumes "accepts w i p msg (nbi_store n) ix" "flow_message k addr subtype msg"
    and "address_policy k addr subtype p t d" "map_of treatment_methods t = Some (meth, modul)"
    and "record_flow now later msg ix = (ix2, Inr stats)"
  shows "\<exists>n' s' ix'. nbi_handle True (AddThr Ipfix i (json_post (PyDict d))) n = (n', Inr (Success, 200)) \<and>
    handle_message w now later msg (nbi_store n') ix =
      (s', ix', [HttpGet (onos_url (rpc_conf w) modul meth @ ''/'' @ address_path k addr)], Inr ())"
proof -
  have pol: "map_of d ''priority'' = Some (PyInt p)" "\<not> has_key d ''metric''"
    "map_of d ''treatment_fields'' = Some (PyDict [(k, PyStr addr)])" "\<forall>x \<in> set (required Ipfix). has_key d x"
    using assms(3) by (simp_all add: address_policy_def required_def has_key_def)
  have msg: "map_of msg k = Some (PyStr addr)" "map_of msg ''subtype'' = Some (PyStr subtype)" "recognised msg"
    "map_of msg ''type'' = Some (PyStr ''ipfix'')" using assms(2) by (simp_all add: flow_message_def)
  obtain n' s a ix' where d: "nbi_handle True (AddThr Ipfix i (json_post (PyDict d))) n = (n', Inr (Success, 200))"
    "heap s a = PyDict d" "handle_message w now later msg (nbi_store n') ix =
      (case decide_on w s a msg stats of (s', reqs, r) \<Rightarrow> (s', ix', reqs, r))"
    using new_threshold_decides[OF assms(1) msg(4,3) pol(4,1) address_policy_matches(1)[OF _ assms(3) msg(1,2)] assms(5)] by blast
  obtain s' where treat: "apply_treatment w s a True (PyDict [(k, PyStr addr)]) =
      (s', [HttpGet (onos_url (rpc_conf w) modul meth @ ''/'' @ address_path k addr)], Inr ())"
    using address_policy_treats[OF d(2) assms(3,4)] by blast
  have "py_item (PyDict d) ''treatment_fields'' = Inr (PyDict [(k, PyStr addr)])" "has_key d ''treatment_fields''"
    using pol(3) by (simp_all add: has_key_def)
  moreover have "check_threshold stats (heap s a) = Inr True" using d(2) pol(2) by (simp add: check_threshold_def)
  ultimately have "decide_on w s a msg stats =
      (s', [HttpGet (onos_url (rpc_conf w) modul meth @ ''/'' @ address_path k addr)], Inr ())"
    using treat by (simp add: decide_on_def d(2) del: py_item.simps)
  then show ?thesis using d(1,3) by simp
qed

section \<open>Properties: the applications and the engine\<close>

lemma coord_message_handled:
  assumes "ins (c_alerts c) msg = (msg', Inr ())"
    and "handle_message w now later msg' (c_store c) (c_ipfix c) = (s', i', reqs, Inr ())"
  shows "coord_message w ins now later msg c =
    (c\<lparr>c_alerts := c_alerts c @ [msg'], c_store := s', c_ipfix := i', c_sent := c_sent c @ reqs\<rparr>, Inr ())"
  using assms by (simp add: coord_message_def Let_def)

lemma pushed_policy_acts:
  assumes "t_running t" "accepts w i p msg' (c_store (t_coord t)) (c_ipfix (t_coord t))" "flow_message k addr subtype msg'"
    and "address_policy k addr subtype p tr d" "map_of treatment_methods tr = Some (meth, modul)"
    and "ins (c_alerts (t_coord t)) msg = (msg', Inr ())"
    and "record_flow now later msg' (c_ipfix (t_coord t)) = (ix2, Inr stats)"
    and "t' = tennison_run w ins [Rest True (AddThr Ipfix i (json_post (PyDict d))), Received now later msg] t"
  shows "t_running t' \<and>
    c_sent (t_coord t') = c_sent (t_coord t) @ [HttpGet (onos_url (rpc_conf w) modul meth @ ''/'' @ address_path k addr)]"
proof -
  have acc: "accepts w i p msg' (nbi_store (t_nbi t)) (c_ipfix (t_coord t))" using assms(2) by (simp add: t_nbi_def)
  obtain n' s' ix' where h: "nbi_handle True (AddThr Ipfix i (json_post (PyDict d))) (t_nbi t) = (n', Inr (Success, 200))"
    "handle_message w now later msg' (nbi_store n') (c_ipfix (t_coord t)) =
      (s', ix', [HttpGet (onos_url (rpc_conf w) modul meth @ ''/'' @ address_path k addr)], Inr ())"
    using new_threshold_acts[OF acc assms(3-5,7)] by blast
  have stored: "ins (c_alerts (t_coord (with_nbi n' t))) msg = (msg', Inr ())" using assms(6) by (simp add: with_nbi_def)
  have "handle_message w now later msg' (c_store (t_coord (with_nbi n' t))) (c_ipfix (t_coord (with_nbi n' t))) =
      (s', ix', [HttpGet (onos_url (rpc_conf w) modul meth @ ''/'' @ address_path k addr)], Inr ())"
    using h(2) by (simp add: with_nbi_def)
  note step = coord_message_handled[where ins = ins, OF stored this]
  have "t_running (with_nbi n' t)" "c_sent (t_coord (with_nbi n' t)) = c_sent (t_coord t)"
    using assms(1) by (simp_all add: with_nbi_def)
  then show ?thesis using assms(1,8) h(1) step by (simp add: tennison_run_def)
qed

lemma treat_flow_requests:
  "treat_flow net tid key src s = (s', reqs, r) \<Longrightarrow> req \<in> set reqs \<Longrightarrow>
    req = block_request ''prefix'' tid src \<or> req = block_request ''interfix'' tid src"
  by (auto simp: treat_flow_def Let_def split: sum.splits)

lemma tracker_requests:
  assumes "flow_to_port_tracker net limit tid clock flow ps = (ps', reqs, r)" "req \<in> set reqs"
    and "map_of flow ''sourceIPv4Address'' = Some src"
  shows "\<exists>kind \<in> {''prefix'', ''interfix''}. req = block_request kind tid src"
proof -
  have "set reqs \<subseteq> {block_request ''prefix'' tid src, block_request ''interfix'' tid src}"
    using assms(1,3)
    by (auto simp: flow_to_port_tracker_def Let_def res_simps split: if_splits sum.splits dest: treat_flow_requests)
  then show ?thesis using assms(2) by blast
qed

lemma block_policy:
  "CHR ''/'' \<notin> set addr \<Longrightarrow> kind \<in> {''prefix'', ''interfix''} \<Longrightarrow>
    address_policy ''sourceIPv4Address'' addr kind 10 ''block'' (block_payload kind (PyStr addr))"
  by (auto simp: address_policy_def block_payload_def)

lemma nat_str_no_slash: "CHR ''/'' \<notin> set (nat_str n)"
proof (induction n rule: nat_str.induct)
  case (1 n)
  have "CHR ''/'' \<noteq> digit_char d" if "d < 10" for d
  proof -
    have "d \<in> set [0, 1, 2, 3, 4, 5, 6, 7, 8, 9]" using that by auto
    then show ?thesis by (auto simp: digit_char_def)
  qed
  then show ?case using 1 by (simp add: nat_str.simps[of n])
qed

lemma block_delivered:
  assumes "kind \<in> {''prefix'', ''interfix''}"
  shows "deliver (block_request kind tid src) =
    Some (AddThr Ipfix (''portscan_'' @ kind @ ''_'' @ nat_str tid) (json_post (PyDict (block_payload kind src))))"
proof -
  have "CHR ''/'' \<notin> set (''portscan_'' @ kind @ ''_'' @ nat_str tid)" using assms nat_str_no_slash[of tid] by auto
  moreover have "block_request kind tid src =
      HttpPost (nbi_base @ ''ipfix/add/'' @ (''portscan_'' @ kind @ ''_'' @ nat_str tid)) (Some (PyDict (block_payload kind src)))"
    by (simp add: block_request_def nbi_base_def)
  ultimately show ?thesis using deliver_add by simp
qed

text \<open>
  A scanner is blocked. Every request the port scan detector sends for a record reaches the route that adds an IPFIX threshold. When the system then
  receives an IPFIX message of the same subtype from the scanner's address, and no other threshold that matches it
  has the priority 10 or more, it sends exactly one more request: ONOS is asked to block everything from that address.
\<close>

theorem scanner_is_blocked:
  assumes "flow_to_port_tracker net limit tid clock flow ps = (ps', reqs, r)" "req \<in> set reqs"
    and "map_of flow ''sourceIPv4Address'' = Some (PyStr addr)" "CHR ''/'' \<notin> set addr"
  shows "\<exists>kind i request. req = block_request kind tid (PyStr addr) \<and> deliver req = Some request \<and>
    request = AddThr Ipfix i (json_post (PyDict (block_payload kind (PyStr addr)))) \<and>
    (\<forall>t msg msg' now later ix2 stats. t_running t \<longrightarrow> accepts w i 10 msg' (c_store (t_coord t)) (c_ipfix (t_coord t)) \<longrightarrow>
       flow_message ''sourceIPv4Address'' addr kind msg' \<longrightarrow> ins (c_alerts (t_coord t)) msg = (msg', Inr ()) \<longrightarrow>
       record_flow now later msg' (c_ipfix (t_coord t)) = (ix2, Inr stats) \<longrightarrow>
       (let t' = tennison_run w ins [Rest True request, Received now later msg] t
        in t_running t' \<and> c_sent (t_coord t') = c_sent (t_coord t) @
             [HttpGet (onos_url (rpc_conf w) ''block'' ''add'' @ ''/'' @ addr @ ''/*/*/*/*'')]))"
proof -
  obtain kind where kind: "kind \<in> {''prefix'', ''interfix''}" "req = block_request kind tid (PyStr addr)"
    using tracker_requests[OF assms(1-3)] by blast
  note policy = block_policy[OF assms(4) kind(1)]
  have path: "''/'' @ address_path ''sourceIPv4Address'' addr = ''/'' @ addr @ ''/*/*/*/*''"
    by (simp add: address_path_def onos_keys_def join_def)
  have tr: "map_of treatment_methods ''block'' = Some (''add'', ''block'')" by (simp add: treatment_methods_def)
  show ?thesis
  proof (intro exI conjI allI impI)
    show "req = block_request kind tid (PyStr addr)" by (rule kind(2))
    show "deliver req = Some (AddThr Ipfix (''portscan_'' @ kind @ ''_'' @ nat_str tid)
        (json_post (PyDict (block_payload kind (PyStr addr)))))"
      unfolding kind(2) by (rule block_delivered[OF kind(1)])
    show "let t' = tennison_run w ins [Rest True (AddThr Ipfix (''portscan_'' @ kind @ ''_'' @ nat_str tid)
          (json_post (PyDict (block_payload kind (PyStr addr))))), Received now later msg] t
        in t_running t' \<and> c_sent (t_coord t') = c_sent (t_coord t) @
             [HttpGet (onos_url (rpc_conf w) ''block'' ''add'' @ ''/'' @ addr @ ''/*/*/*/*'')]"
      if "t_running t" "accepts w (''portscan_'' @ kind @ ''_'' @ nat_str tid) 10 msg' (c_store (t_coord t)) (c_ipfix (t_coord t))"
        "flow_message ''sourceIPv4Address'' addr kind msg'" "ins (c_alerts (t_coord t)) msg = (msg', Inr ())"
        "record_flow now later msg' (c_ipfix (t_coord t)) = (ix2, Inr stats)" for t msg msg' now later ix2 stats
      using pushed_policy_acts[where ins = ins, OF that(1-3) policy tr that(4,5) refl] unfolding path Let_def .
  qed (rule refl)
qed

definition scan_message :: pydict where
  "scan_message = [(''type'', PyStr ''ipfix''), (''subtype'', PyStr ''prefix''),
     (''sourceIPv4Address'', PyStr ''10.0.0.9''), (''destinationIPv4Address'', PyStr ''10.0.0.7''),
     (''sourceTransportPort'', PyInt 4000), (''destinationTransportPort'', PyInt 99),
     (''octetDeltaCount'', PyInt 900), (''packetDeltaCount'', PyInt 9)]"

definition scan_flow :: pydict where
  "scan_flow = [(''sourceIPv4Address'', PyStr ''10.0.0.9''), (''destinationIPv4Address'', PyStr ''10.0.0.7''),
     (''destinationTransportPort'', PyInt 99)]"

lemma scan_stored:
  "demo_insert (c_alerts (t_coord demo_tennison)) scan_message = (scan_message @ [(''_id'', PyInt 0)], Inr ())"
  by (simp add: demo_insert_def demo_tennison_def scan_message_def)

lemma scan_recorded:
  "\<exists>ix2 stats. record_flow 0 0 (scan_message @ [(''_id'', PyInt 0)]) (c_ipfix (t_coord demo_tennison)) = (ix2, Inr stats)"
proof -
  have "delta_bps demo_ipfix = []" "avg_bps demo_ipfix = []"
    using create_initial_masks_ok[OF demo_ipfix_built] by (simp_all add: ipfix_empty_def)
  then show ?thesis
    by (simp add: record_flow_def demo_tennison_def scan_message_def flow_of_def update_totals_def stat_num_def
        average_stats_def)
qed

lemma scan_no_match:
  "b \<in> {0, 1} \<Longrightarrow> direct_match demo_world demo_store (scan_message @ [(''_id'', PyInt 0)]) b = Inr False"
  by (auto simp: direct_match_def mask_keys_def demo_store_def demo_threshold_def mask_applies_def scan_message_def
      state_matches_def test_match_similarity_def test_field_def)

lemma scan_accepted:
  "i \<noteq> ''a'' \<Longrightarrow> i \<noteq> ''b'' \<Longrightarrow>
    accepts demo_world i 10 (scan_message @ [(''_id'', PyInt 0)]) (c_store (t_coord demo_tennison)) (c_ipfix (t_coord demo_tennison))"
proof -
  assume i: "i \<noteq> ''a''" "i \<noteq> ''b''"
  have "\<forall>b \<in> set (map snd (ipfix_thr demo_store)). out_of_the_way demo_world demo_store (scan_message @ [(''_id'', PyInt 0)]) 10 b"
    using scan_no_match by (simp add: out_of_the_way_def demo_store_def)
  moreover have "wf_dict (ipfix_thr demo_store)" "\<not> has_key (ipfix_thr demo_store) (PyStr i)" "dumpable demo_store"
    using i by (simp_all add: demo_store_def dumpable_def dict_entries_def demo_threshold_def)
  ultimately show ?thesis by (simp add: accepts_def demo_tennison_def demo_wf demo_loaded)
qed


theorem scanner_is_blocked_witness:
  "\<exists>i body. deliver (block_request ''prefix'' 7 (PyStr ''10.0.0.9'')) = Some (AddThr Ipfix i body) \<and>
     c_sent (t_coord (tennison_run demo_world demo_insert [Rest True (AddThr Ipfix i body), Received 0 0 scan_message] demo_tennison)) =
       [HttpGet ''http://onos/mervyn/block/add/10.0.0.9/*/*/*/*'']"
proof -
  have track: "\<exists>ps'. flow_to_port_tracker (\<lambda>_. Inr 200) 0 7 0 scan_flow \<lparr>flow_to_port = [], treated_flows = [], time_last_treat = 0\<rparr> =
      (ps', [block_request ''prefix'' 7 (PyStr ''10.0.0.9''), block_request ''interfix'' 7 (PyStr ''10.0.0.9'')], Inr ())"
    by (simp add: flow_to_port_tracker_def scan_flow_def add_port_def treat_flow_def)
  then obtain ps' where track: "flow_to_port_tracker (\<lambda>_. Inr 200) 0 7 0 scan_flow \<lparr>flow_to_port = [], treated_flows = [], time_last_treat = 0\<rparr> =
      (ps', [block_request ''prefix'' 7 (PyStr ''10.0.0.9''), block_request ''interfix'' 7 (PyStr ''10.0.0.9'')], Inr ())" by blast
  have mem: "block_request ''prefix'' 7 (PyStr ''10.0.0.9'') \<in>
      set [block_request ''prefix'' 7 (PyStr ''10.0.0.9''), block_request ''interfix'' 7 (PyStr ''10.0.0.9'')]" by simp
  have addr: "map_of scan_flow ''sourceIPv4Address'' = Some (PyStr ''10.0.0.9'')" "CHR ''/'' \<notin> set ''10.0.0.9''"
    by (simp_all add: scan_flow_def)
  obtain kind i where k: "block_request ''prefix'' 7 (PyStr ''10.0.0.9'') = block_request kind 7 (PyStr ''10.0.0.9'')"
    "deliver (block_request ''prefix'' 7 (PyStr ''10.0.0.9'')) =
      Some (AddThr Ipfix i (json_post (PyDict (block_payload kind (PyStr ''10.0.0.9'')))))"
    and act: "\<And>t msg msg' now later ix2 stats. t_running t \<Longrightarrow>
       accepts demo_world i 10 msg' (c_store (t_coord t)) (c_ipfix (t_coord t)) \<Longrightarrow>
       flow_message ''sourceIPv4Address'' ''10.0.0.9'' kind msg' \<Longrightarrow> demo_insert (c_alerts (t_coord t)) msg = (msg', Inr ()) \<Longrightarrow>
       record_flow now later msg' (c_ipfix (t_coord t)) = (ix2, Inr stats) \<Longrightarrow>
       c_sent (t_coord (tennison_run demo_world demo_insert [Rest True (AddThr Ipfix i
          (json_post (PyDict (block_payload kind (PyStr ''10.0.0.9''))))), Received now later msg] t)) = c_sent (t_coord t) @
             [HttpGet (onos_url (rpc_conf demo_world) ''block'' ''add'' @ ''/'' @ ''10.0.0.9'' @ ''/*/*/*/*'')]"
    using scanner_is_blocked[OF track mem addr, of demo_world demo_insert] unfolding Let_def by blast
  have kind: "kind = ''prefix''" using k(1) by (simp add: block_request_def block_payload_def)
  have i: "i = ''portscan_prefix_7''"
    using k(2) block_delivered[of "''prefix''" 7 "PyStr ''10.0.0.9''"] by (simp add: nat_str.simps digit_char_def)
  obtain ix2 stats where rec: "record_flow 0 0 (scan_message @ [(''_id'', PyInt 0)]) (c_ipfix (t_coord demo_tennison)) = (ix2, Inr stats)"
    using scan_recorded by blast
  have fm: "flow_message ''sourceIPv4Address'' ''10.0.0.9'' kind (scan_message @ [(''_id'', PyInt 0)])"
    by (simp add: kind flow_message_def scan_message_def recognised_def)
  have running: "t_running demo_tennison" "c_sent (t_coord demo_tennison) = []" by (simp_all add: demo_tennison_def)
  have acc: "accepts demo_world i 10 (scan_message @ [(''_id'', PyInt 0)]) (c_store (t_coord demo_tennison)) (c_ipfix (t_coord demo_tennison))"
    by (rule scan_accepted) (simp_all add: i)
  have url: "onos_url (rpc_conf demo_world) ''block'' ''add'' @ ''/'' @ ''10.0.0.9'' @ ''/*/*/*/*'' = ''http://onos/mervyn/block/add/10.0.0.9/*/*/*/*''"
    by (simp add: onos_url_def demo_world_def onos_endpoint_def)
  from act[OF running(1) acc fm scan_stored rec] k(2) show ?thesis unfolding url running(2) append_Nil by blast
qed

lemma post_all_sends: "set (fst (post_all net reqs)) \<subseteq> set reqs"
  by (induction reqs) (auto simp: post_threshold_def case_prod_beta split: sum.split)

lemma track_message_requests:
  assumes "track_message net c now m s = (s', reqs, r)" "req \<in> set reqs"
    and "py_item m ''destinationIPv4Address'' = Inr (PyStr dst)"
  shows "req \<in> set (mirror_requests dst)"
proof -
  have "req \<in> set (fst (post_all net (mirror_requests dst)))"
    using assms by (auto simp: track_message_def Let_def res_simps simp del: py_item.simps
        split: if_splits sum.splits option.splits bool.splits prod.splits)
  then show ?thesis using post_all_sends by blast
qed

lemma mirror_delivered:
  assumes "CHR ''/'' \<notin> set dst" "kind \<in> {''prefix'', ''interfix''}"
  shows "deliver (HttpPost (mirror_url kind dst) (Some (PyDict (mirror_data kind dst)))) =
    Some (AddThr Ipfix (''ddos-mirror-'' @ underscores dst @ ''-'' @ kind) (json_post (PyDict (mirror_data kind dst))))"
proof -
  have "CHR ''/'' \<notin> set (''ddos-mirror-'' @ underscores dst @ ''-'' @ kind)" using assms by (auto simp: underscores_def)
  moreover have "mirror_url kind dst = nbi_base @ ''ipfix/add/'' @ (''ddos-mirror-'' @ underscores dst @ ''-'' @ kind)"
    by (simp add: mirror_url_def nbi_base_def)
  ultimately show ?thesis using deliver_add by simp
qed

lemma mirror_policy:
  "CHR ''/'' \<notin> set dst \<Longrightarrow> address_policy ''destinationIPv4Address'' dst kind 10 ''snort_mirror'' (mirror_data kind dst)"
  by (simp add: address_policy_def mirror_data_def)

text \<open>
  C18: a destination under attack is mirrored. Every request the denial of service detector sends for a record reaches the
  route that adds an IPFIX threshold. When the system then receives an IPFIX message of the same subtype to that destination, and
  no other threshold that matches it has the priority 10 or more, it sends exactly one more request: ONOS is asked to mirror
  everything sent to that address.
\<close>

theorem attacked_destination_is_mirrored:
  assumes "track_message net c clock m s = (s', reqs, r)" "req \<in> set reqs"
    and "py_item m ''destinationIPv4Address'' = Inr (PyStr dst)" "CHR ''/'' \<notin> set dst"
  shows "\<exists>kind i request. req = HttpPost (mirror_url kind dst) (Some (PyDict (mirror_data kind dst))) \<and>
    deliver req = Some request \<and> request = AddThr Ipfix i (json_post (PyDict (mirror_data kind dst))) \<and>
    (\<forall>t msg msg' now later ix2 stats. t_running t \<longrightarrow> accepts w i 10 msg' (c_store (t_coord t)) (c_ipfix (t_coord t)) \<longrightarrow>
       flow_message ''destinationIPv4Address'' dst kind msg' \<longrightarrow> ins (c_alerts (t_coord t)) msg = (msg', Inr ()) \<longrightarrow>
       record_flow now later msg' (c_ipfix (t_coord t)) = (ix2, Inr stats) \<longrightarrow>
       (let t' = tennison_run w ins [Rest True request, Received now later msg] t
        in t_running t' \<and> c_sent (t_coord t') = c_sent (t_coord t) @
             [HttpGet (onos_url (rpc_conf w) ''mirror'' ''add'' @ ''/*/*/'' @ dst @ ''/*/*'')]))"
proof -
  obtain kind where kind: "kind \<in> {''prefix'', ''interfix''}"
    "req = HttpPost (mirror_url kind dst) (Some (PyDict (mirror_data kind dst)))"
    using track_message_requests[OF assms(1-3)] by (auto simp: mirror_requests_def)
  note policy = mirror_policy[OF assms(4), of kind]
  have path: "''/'' @ address_path ''destinationIPv4Address'' dst = ''/*/*/'' @ dst @ ''/*/*''"
    by (simp add: address_path_def onos_keys_def join_def)
  have tr: "map_of treatment_methods ''snort_mirror'' = Some (''add'', ''mirror'')" by (simp add: treatment_methods_def)
  show ?thesis
  proof (intro exI conjI allI impI)
    show "req = HttpPost (mirror_url kind dst) (Some (PyDict (mirror_data kind dst)))" by (rule kind(2))
    show "deliver req = Some (AddThr Ipfix (''ddos-mirror-'' @ underscores dst @ ''-'' @ kind) (json_post (PyDict (mirror_data kind dst))))"
      unfolding kind(2) by (rule mirror_delivered[OF assms(4) kind(1)])
    show "let t' = tennison_run w ins [Rest True (AddThr Ipfix (''ddos-mirror-'' @ underscores dst @ ''-'' @ kind)
          (json_post (PyDict (mirror_data kind dst)))), Received now later msg] t
        in t_running t' \<and> c_sent (t_coord t') = c_sent (t_coord t) @
             [HttpGet (onos_url (rpc_conf w) ''mirror'' ''add'' @ ''/*/*/'' @ dst @ ''/*/*'')]"
      if "t_running t" "accepts w (''ddos-mirror-'' @ underscores dst @ ''-'' @ kind) 10 msg' (c_store (t_coord t)) (c_ipfix (t_coord t))"
        "flow_message ''destinationIPv4Address'' dst kind msg'" "ins (c_alerts (t_coord t)) msg = (msg', Inr ())"
        "record_flow now later msg' (c_ipfix (t_coord t)) = (ix2, Inr stats)" for t msg msg' now later ix2 stats
      using pushed_policy_acts[where ins = ins, OF that(1-3) policy tr that(4,5) refl] unfolding path Let_def .
  qed (rule refl)
qed

theorem attacked_destination_is_mirrored_witness:
  "\<exists>i body. deliver (HttpPost (mirror_url ''prefix'' ''10.0.0.7'') (Some (PyDict (mirror_data ''prefix'' ''10.0.0.7'')))) =
       Some (AddThr Ipfix i body) \<and>
     c_sent (t_coord (tennison_run demo_world demo_insert [Rest True (AddThr Ipfix i body), Received 0 0 scan_message] demo_tennison)) =
       [HttpGet ''http://onos/mervyn/mirror/add/*/*/10.0.0.7/*/*'']"
proof -
  let ?req = "HttpPost (mirror_url ''prefix'' ''10.0.0.7'') (Some (PyDict (mirror_data ''prefix'' ''10.0.0.7'')))"
  let ?m = "PyDict [(''sourceIPv4Address'', PyStr ''10.0.0.9''), (''destinationIPv4Address'', PyStr ''10.0.0.7''),
    (''sourceTransportPort'', PyInt 1)]"
  let ?c = "\<lparr>source_count_threshold = 0, period = 60\<rparr>"
  obtain s' where track: "track_message (\<lambda>_. Inr (200, True)) ?c 0 ?m ddos_new = (s', mirror_requests ''10.0.0.7'', Inr ())"
    using post_all_answered[of "\<lambda>_. Inr (200, True)" "mirror_requests ''10.0.0.7''"]
    by (simp add: track_message_def ddos_new_def)
  have mem: "?req \<in> set (mirror_requests ''10.0.0.7'')" by (simp add: mirror_requests_def)
  have addr: "py_item ?m ''destinationIPv4Address'' = Inr (PyStr ''10.0.0.7'')" "CHR ''/'' \<notin> set ''10.0.0.7''" by simp_all
  obtain kind i where k: "?req = HttpPost (mirror_url kind ''10.0.0.7'') (Some (PyDict (mirror_data kind ''10.0.0.7'')))"
    "deliver ?req = Some (AddThr Ipfix i (json_post (PyDict (mirror_data kind ''10.0.0.7''))))"
    and act: "\<And>t msg msg' now later ix2 stats. t_running t \<Longrightarrow>
       accepts demo_world i 10 msg' (c_store (t_coord t)) (c_ipfix (t_coord t)) \<Longrightarrow>
       flow_message ''destinationIPv4Address'' ''10.0.0.7'' kind msg' \<Longrightarrow> demo_insert (c_alerts (t_coord t)) msg = (msg', Inr ()) \<Longrightarrow>
       record_flow now later msg' (c_ipfix (t_coord t)) = (ix2, Inr stats) \<Longrightarrow>
       c_sent (t_coord (tennison_run demo_world demo_insert [Rest True (AddThr Ipfix i
          (json_post (PyDict (mirror_data kind ''10.0.0.7'')))), Received now later msg] t)) = c_sent (t_coord t) @
             [HttpGet (onos_url (rpc_conf demo_world) ''mirror'' ''add'' @ ''/*/*/'' @ ''10.0.0.7'' @ ''/*/*'')]"
    using attacked_destination_is_mirrored[OF track mem addr, of demo_world demo_insert] unfolding Let_def by blast
  have kind: "kind = ''prefix''" using k(1) by (simp add: mirror_data_def)
  have i: "i = ''ddos-mirror-10_0_0_7-prefix''"
    using k(2) mirror_delivered[OF addr(2), of "''prefix''"] by (simp add: underscores_def)
  obtain ix2 stats where rec: "record_flow 0 0 (scan_message @ [(''_id'', PyInt 0)]) (c_ipfix (t_coord demo_tennison)) = (ix2, Inr stats)"
    using scan_recorded by blast
  have fm: "flow_message ''destinationIPv4Address'' ''10.0.0.7'' kind (scan_message @ [(''_id'', PyInt 0)])"
    by (simp add: kind flow_message_def scan_message_def recognised_def)
  have running: "t_running demo_tennison" "c_sent (t_coord demo_tennison) = []" by (simp_all add: demo_tennison_def)
  have acc: "accepts demo_world i 10 (scan_message @ [(''_id'', PyInt 0)]) (c_store (t_coord demo_tennison)) (c_ipfix (t_coord demo_tennison))"
    by (rule scan_accepted) (simp_all add: i)
  have url: "onos_url (rpc_conf demo_world) ''mirror'' ''add'' @ ''/*/*/'' @ ''10.0.0.7'' @ ''/*/*'' = ''http://onos/mervyn/mirror/add/*/*/10.0.0.7/*/*''"
    by (simp add: onos_url_def demo_world_def onos_endpoint_def)
  from act[OF running(1) acc fm scan_stored rec] k(2) show ?thesis unfolding url running(2) append_Nil by blast
qed

section \<open>Properties: updates in place\<close>

definition applicable :: "pydict \<Rightarrow> mask_index \<Rightarrow> nat list" where
  "applicable msg m = concat (map snd (filter (\<lambda>e. mask_applies (fst e) msg) m))"

lemma search_masks_applicable: "search_masks w s msg m = filterE (state_matches w s msg) (applicable msg m)"
proof (induction m)
  case (Cons e m)
  obtain ks as where e: "e = (ks, as)" by (cases e)
  show ?case by (simp add: e Cons.IH applicable_def filterE_append)
qed (simp add: applicable_def)

lemma filterE_single_failure:
  assumes "a \<in> set xs" "P a = Inl e" "\<forall>x \<in> set xs. x \<noteq> a \<longrightarrow> (\<exists>b. P x = Inr b)"
  shows "filterE P xs = Inl e"
  using assms
proof (induction xs)
  case (Cons x xs)
  show ?case
  proof (cases "x = a")
    case False
    then obtain b where "P x = Inr b" using Cons.prems(3) by auto
    then show ?thesis using Cons False by auto
  qed (use Cons.prems in simp)
qed simp

text \<open>The update writes the new fields into the object the index refers to.\<close>

lemma fields_updated:
  assumes "wf_store (nbi_store n)" "dumpable (nbi_store n)" "map_of (ipfix_thr (nbi_store n)) (PyStr i) = Some a"
    and "heap (nbi_store n) a = PyDict d"
  shows "\<exists>n'. nbi_handle True (UpdateThr Ipfix i (json_post (PyDict [(''fields'', v)]))) n = (n', Inr (Success, 200)) \<and>
    nbi_store n' = heap_set a (PyDict (dict_put ''fields'' v d)) (nbi_store n)"
proof -
  let ?s1 = "heap_set a (PyDict (dict_put ''fields'' v d)) (nbi_store n)"
  have "dumpable ?s1" using assms(2) by (simp add: dumpable_def dict_entries_def)
  then obtain f where "saved_reply True (n\<lparr>nbi_store := ?s1\<rparr>) = (n\<lparr>nbi_store := ?s1, nbi_file := Some f\<rparr>, Inr (Success, 200))"
    using saved_reply_new by blast
  then show ?thesis using assms(3,4) by (simp add: update_ipfix_threshold_def update_threshold_def json_post_def)
qed

lemma stale_index_raises:
  assumes "index_ok s ix" "map_of (loaded ix) k = Some a" "heap s a = PyDict d" "mask_keys (heap s a) = Inr ks"
    and "mask_applies ks msg" "\<not> has_key msg f"
    and "\<forall>b \<in> set (map snd (loaded ix)). b \<noteq> a \<longrightarrow> (\<exists>x. direct_match w s msg b = Inr x)"
    and "s' = heap_set a (PyDict (dict_put ''fields'' (PyDict [(f, v)]) d)) s" "masks j = masks ix"
  shows "find_mask_match w s' j msg = Inl KeyError" "direct_match w s' msg a = Inr False"
proof -
  have keys: "mask_keys (heap s' a) = Inr [f]" by (simp add: assms(8) mask_keys_def)
  show "direct_match w s' msg a = Inr False" using assms(6) by (simp add: direct_match_def keys mask_applies_def)
  have set_filed: "set (filed (masks ix)) = set (map snd (loaded ix))" and under: "filed_under s (masks ix)"
    using assms(1) by (metis index_ok_def set_mset_mset)+
  have here: "state_matches w s' msg a = Inl KeyError"
    using assms(6) by (simp add: assms(8) state_matches_def test_match_similarity_def has_key_def)
  have "a \<in> set (filed (masks ix))" unfolding set_filed using map_of_SomeD[OF assms(2)] by force
  then obtain e where e: "e \<in> set (masks ix)" "a \<in> set (snd e)" by (auto simp: filed_def)
  then have "fst e = ks" using under assms(4) by (auto simp: filed_under_def)
  then have mem: "a \<in> set (applicable msg (masks ix))" using e assms(5) by (force simp: applicable_def)
  have "\<exists>x. state_matches w s' msg b = Inr x" if b: "b \<in> set (applicable msg (masks ix))" "b \<noteq> a" for b
  proof -
    obtain e where e: "e \<in> set (masks ix)" "b \<in> set (snd e)" "mask_applies (fst e) msg" using b(1) by (auto simp: applicable_def)
    then have "mask_keys (heap s b) = Inr (fst e)" using under by (auto simp: filed_under_def)
    moreover have "b \<in> set (map snd (loaded ix))" unfolding set_filed[symmetric] using e by (auto simp: filed_def)
    ultimately obtain x where "state_matches w s msg b = Inr x"
      using assms(7) b(2) e(3) by (fastforce simp: direct_match_def)
    moreover have "heap s' b = heap s b" using b(2) by (simp add: assms(8))
    ultimately show ?thesis by (metis state_matches_def)
  qed
  then have "search_masks w s' msg (masks ix) = Inl KeyError"
    unfolding search_masks_applicable using filterE_single_failure[where P = "state_matches w s' msg", OF mem here] by blast
  then show "find_mask_match w s' j msg = Inl KeyError" by (simp add: find_mask_match_def assms(9))
qed

text \<open>
  An update of the fields of a threshold is not noticed. The index refers to the threshold objects themselves, so after an
  update in place its copy of the table is equal to the table and it is not built again: the threshold stays filed
  under its old fields. A message that has the old fields but not the new one, which the threshold then does
  not match, makes the handling raise; the coordinator stops, although the interface has answered that the update succeeded.
\<close>

theorem update_in_place_stops_system:
  assumes "t_running t" "s = c_store (t_coord t)" "ix = c_ipfix (t_coord t)" "wf_store s" "dumpable s"
    and "index_ok s ix" "loaded ix = ipfix_thr s"
    and "map_of (ipfix_thr s) (PyStr i) = Some a" "heap s a = PyDict d" "mask_keys (heap s a) = Inr ks"
    and "mask_applies ks msg'" "\<not> has_key msg' f" "recognised msg'" "map_of msg' ''type'' = Some (PyStr ''ipfix'')"
    and "\<forall>b \<in> set (map snd (ipfix_thr s)). b \<noteq> a \<longrightarrow> (\<exists>x. direct_match w s msg' b = Inr x)"
    and "ins (c_alerts (t_coord t)) msg = (msg', Inr ())" "record_flow now later msg' ix = (ix2, Inr stats)"
    and "t' = tennison_step w ins t (Rest True (UpdateThr Ipfix i (json_post (PyDict [(''fields'', PyDict [(f, v)])]))))"
    and "t'' = tennison_run w ins (Received now later msg # evs) t'"
  shows "snd (nbi_handle True (UpdateThr Ipfix i (json_post (PyDict [(''fields'', PyDict [(f, v)])]))) (t_nbi t)) = Inr (Success, 200) \<and>
    reload_masks (c_store (t_coord t')) (c_ipfix (t_coord t')) = (c_ipfix (t_coord t'), Inr ()) \<and>
    direct_match w (c_store (t_coord t')) msg' a = Inr False \<and>
    \<not> t_running t'' \<and> c_sent (t_coord t'') = c_sent (t_coord t)"
proof -
  have n: "wf_store (nbi_store (t_nbi t))" "dumpable (nbi_store (t_nbi t))"
    "map_of (ipfix_thr (nbi_store (t_nbi t))) (PyStr i) = Some a" "heap (nbi_store (t_nbi t)) a = PyDict d"
    using assms(2,4,5,8,9) by (simp_all add: t_nbi_def)
  obtain n' where n': "nbi_handle True (UpdateThr Ipfix i (json_post (PyDict [(''fields'', PyDict [(f, v)])]))) (t_nbi t) =
      (n', Inr (Success, 200))" "nbi_store n' = heap_set a (PyDict (dict_put ''fields'' (PyDict [(f, v)]) d)) s"
    using fields_updated[OF n, of "PyDict [(f, v)]"] assms(2) by (auto simp: t_nbi_def)
  have t': "c_store (t_coord t') = nbi_store n'" "c_ipfix (t_coord t') = ix" "t_running t'" "c_sent (t_coord t') = c_sent (t_coord t)"
    "c_alerts (t_coord t') = c_alerts (t_coord t)"
    using assms(1,3,18) n'(1) by (simp_all add: with_nbi_def)
  have "wf_dict (ipfix_thr s)" using assms(4) by (simp add: wf_store_def wf_table_def)
  then have same: "reload_masks (nbi_store n') ix = (ix, Inr ())"
    using table_eq_refl[of "ipfix_thr s" "nbi_store n'"] assms(7) by (simp add: reload_masks_def n'(2))
  have "masks ix2 = masks ix" using record_flow_index(1)[of now later msg' ix] assms(17) by simp
  note stale = stale_index_raises[OF assms(6) _ assms(9-12) _ n'(2) this, unfolded assms(7), OF assms(8,15)]
  have "handle_message w now later msg' (nbi_store n') ix = (nbi_store n', ix2, [], Inl KeyError)"
    using assms(13,14,17) stale(1) by (simp add: handle_message_def ipfix_handle_def same ipfix_decide_def)
  then have "\<not> t_running t'' \<and> c_sent (t_coord t'') = c_sent (t_coord t')"
    using fatal_message[where ins = ins and msg = msg and t = t', OF t'(3) _ _ _ assms(19)] assms(16) t' by auto
  then show ?thesis using n'(1) same stale(2) t' by simp
qed

text \<open>A threshold on the destination port is changed into one on the protocol.\<close>

theorem update_in_place_stops_system_witness:
  "\<not> t_running (tennison_run demo_world demo_insert [Received 0 0 scan_message]
     (tennison_step demo_world demo_insert demo_tennison
        (Rest True (UpdateThr Ipfix ''a'' (json_post (PyDict [(''fields'', PyDict [(''protocolIdentifier'', PyStr ''tcp'')])]))))))"
proof -
  let ?m = "scan_message @ [(''_id'', PyInt 0)]"
  have c: "t_running demo_tennison" "demo_store = c_store (t_coord demo_tennison)" "demo_ipfix = c_ipfix (t_coord demo_tennison)"
    by (simp_all add: demo_tennison_def)
  have ok: "index_ok demo_store demo_ipfix" using create_initial_masks_ok[OF demo_ipfix_built] by simp
  have dump: "dumpable demo_store" by (simp add: dumpable_def dict_entries_def demo_store_def demo_threshold_def)
  obtain d where d: "heap demo_store 0 = PyDict d" by (simp add: demo_heap demo_threshold_def)
  have a: "map_of (ipfix_thr demo_store) (PyStr ''a'') = Some 0" "mask_keys (heap demo_store 0) = Inr [''destinationTransportPort'']"
    by (simp add: demo_store_def, simp add: demo_heap demo_threshold_def mask_keys_def)
  have m: "mask_applies [''destinationTransportPort''] ?m" "\<not> has_key ?m ''protocolIdentifier''" "recognised ?m"
    "map_of ?m ''type'' = Some (PyStr ''ipfix'')"
    by (simp_all add: mask_applies_def scan_message_def recognised_def)
  have others: "\<forall>b \<in> set (map snd (ipfix_thr demo_store)). b \<noteq> 0 \<longrightarrow> (\<exists>x. direct_match demo_world demo_store ?m b = Inr x)"
    using scan_no_match by (force simp: demo_store_def)
  obtain ix2 stats where rec: "record_flow 0 0 ?m demo_ipfix = (ix2, Inr stats)" using scan_recorded c(3) by metis
  from update_in_place_stops_system[where ins = demo_insert, OF c demo_wf dump ok demo_loaded a(1) d a(2) m others scan_stored rec refl refl]
  show ?thesis by blast
qed

section \<open>Properties: every run\<close>

fun is_message :: "event \<Rightarrow> bool" where
  "is_message (Received now later msg) = True"
| "is_message (Rest wr r) = False"



end
