(* ===== verification/Sensor_Path.thy ===== *)
theory Sensor_Path
  imports Pig_Relay Collectors System
begin

text \<open>
  The path of a snort alert through the program: from the bytes snort writes, through the relay (\<open>pig-relay/pigrelay.py\<close>)
  and the collector (\<open>coordinator/core/collector.py\<close>), to the request the coordinator sends
  (\<open>coordinator/core/messagehandler.py\<close>).

  The relay serialises an alert with \<open>pickle\<close> of Python 2 and the collector reads it with \<open>pickle\<close> of Python 3; the
  two are arguments, and what is relied on is that the object read has the attributes of the object written, with byte
  strings as latin-1 text.
\<close>

section \<open>The object of an alert\<close>

definition latin1 :: "bytes \<Rightarrow> string" where
  "latin1 bs = map (\<lambda>b. char_of (unat b)) bs"

text \<open>
  The attributes the constructors of \<open>alert.py\<close> set. The argument \<open>c\<close> makes the nested objects: \<open>PyObj\<close> gives the object itself,
  \<open>PyDict\<close> what \<open>form_pyobj\<close> makes of it; \<open>p\<close> is the value of the attribute \<open>pkt\<close>.
\<close>

definition timeval_attrs :: "timeval \<Rightarrow> pydict" where
  "timeval_attrs t = [(''tv_sec'', PyInt (uint (tv_sec t))), (''tv_usec'', PyInt (uint (tv_usec t)))]"

definition pcap_attrs :: "(pydict \<Rightarrow> pyval) \<Rightarrow> pcap_hdr \<Rightarrow> pydict" where
  "pcap_attrs c h =
     [(''ts'', c (timeval_attrs (pkt_ts h))), (''caplen'', PyInt (uint (pkt_caplen h))), (''len'', PyInt (uint (pkt_len h)))]"

definition event_attrs :: "(pydict \<Rightarrow> pyval) \<Rightarrow> Alert_Format.event \<Rightarrow> pydict" where
  "event_attrs c e =
     [(''sig_generator'', PyInt (uint (sig_generator e))), (''sig_id'', PyInt (uint (sig_id e))),
      (''sig_rev'', PyInt (uint (sig_rev e))), (''classification'', PyInt (uint (sig_classification e))),
      (''priority'', PyInt (uint (sig_priority e))), (''event_id'', PyInt (uint (event_id e))),
      (''event_reference'', PyInt (uint (event_reference e))), (''ref_time'', c (timeval_attrs (ref_time e)))]"

definition alert_attrs :: "(pydict \<Rightarrow> pyval) \<Rightarrow> pyval \<Rightarrow> alert_pkt \<Rightarrow> pydict" where
  "alert_attrs c p a =
     [(''alertmsg'', PyStr (latin1 (alert_msg a))), (''pkth'', c (pcap_attrs c (alert_pkth a))),
      (''dlthdr'', PyInt (uint (alert_dlthdr a))), (''nethdr'', PyInt (uint (alert_nethdr a))),
      (''transhdr'', PyInt (uint (alert_transhdr a))), (''data'', PyInt (uint (alert_data a))),
      (''val'', PyInt (uint (alert_val a))), (''pkt'', p), (''event'', c (event_attrs c (alert_event a)))]"

definition packet_text :: "alert_pkt \<Rightarrow> pyval" where
  "packet_text a = PyStr (latin1 (alert_data_pkt a))"

definition alert_object :: "alert_pkt \<Rightarrow> pyval" where
  "alert_object a = PyObj (alert_attrs PyObj (packet_text a) a)"

text \<open>The message the collector pushes for an alert whose packet has the values \<open>p\<close>.\<close>

definition alert_message :: "int \<Rightarrow> alert_pkt \<Rightarrow> pydict \<Rightarrow> pydict" where
  "alert_message utcnow a p = [(''time'', PyTime utcnow), (''type'', PyStr ''snort'')] @ alert_attrs PyDict (PyDict p) a"

section \<open>From the relay to the collector\<close>

text \<open>
  A request of the relay at the collector that listens at \<open>host\<close>: the messages pushed to the coordinator. A request to another
  path is not found.
\<close>

definition collect_post ::
  "(pyval \<Rightarrow> string) \<Rightarrow> (string \<Rightarrow> layers) \<Rightarrow> (alert_pkt \<Rightarrow> 8 word list) \<Rightarrow> (8 word list \<Rightarrow> pyval result) \<Rightarrow> string \<Rightarrow> int
    \<Rightarrow> alert_post \<Rightarrow> pydict list"
where
  "collect_post repr_of ether pickle unpickle host utcnow p =
     (if post_url p = host @ ''/snort/alert''
      then fst (snort_post_alert repr_of ether unpickle utcnow (pickle (post_alert p))) else [])"

text \<open>The requests in their order, each with the clock reading of its handling.\<close>

definition sensor_messages ::
  "(pyval \<Rightarrow> string) \<Rightarrow> (string \<Rightarrow> layers) \<Rightarrow> (alert_pkt \<Rightarrow> 8 word list) \<Rightarrow> (8 word list \<Rightarrow> pyval result) \<Rightarrow> string \<Rightarrow> int list
    \<Rightarrow> alert_post list \<Rightarrow> pydict list"
where
  "sensor_messages repr_of ether pickle unpickle host nows posts =
     concat (map (\<lambda>(utcnow, p). collect_post repr_of ether pickle unpickle host utcnow p) (zip nows posts))"

section \<open>The policy for alerts\<close>

text \<open>
  What the coordinator is to send for an alert, without the message handler: the first threshold of the highest priority among those
  with the text of the alert decides, and the request names the five fields of the packet. An empty payload adds no path.
\<close>

definition alert_text_of :: "store \<Rightarrow> nat \<Rightarrow> string option" where
  "alert_text_of s a = (case py_item (heap s a) ''alertmsg'' of Inr (PyStr t) \<Rightarrow> Some t | _ \<Rightarrow> None)"

definition treatment_of :: "store \<Rightarrow> nat \<Rightarrow> (string \<times> string) option" where
  "treatment_of s a =
     (case py_item (heap s a) ''treatment'' of Inr (PyStr t) \<Rightarrow> map_of treatment_methods t | _ \<Rightarrow> None)"

definition alert_thresholds :: "store \<Rightarrow> string \<Rightarrow> nat list" where
  "alert_thresholds s t = filter (\<lambda>a. alert_text_of s a = Some t) (map snd (snort_thr s))"

definition flow_path :: "world \<Rightarrow> pydict \<Rightarrow> string" where
  "flow_path w p = (if p = [] then [] else ''/'' @ join ''/'' (map (field_text (text_of w) p) onos_keys))"

definition policy_requests :: "world \<Rightarrow> store \<Rightarrow> string \<Rightarrow> pydict \<Rightarrow> http_req list" where
  "policy_requests w s t p =
     (case alert_thresholds s t of
        [] \<Rightarrow> []
      | a # as \<Rightarrow>
          (case treatment_of s (first_max (\<lambda>b. the (priority_of s b)) a as) of
             None \<Rightarrow> []
           | Some (meth, modul) \<Rightarrow> [HttpGet (onos_url (rpc_conf w) modul meth @ flow_path w p)]))"

text \<open>The tables the policy is about: every threshold has a text, a numeric priority and a known treatment of the packet itself.\<close>

definition alert_policy :: "store \<Rightarrow> bool" where
  "alert_policy s \<longleftrightarrow> (\<forall>a \<in> set (map snd (snort_thr s)). (\<exists>t. alert_text_of s a = Some t) \<and>
     (\<exists>p. priority_of s a = Some p) \<and> (\<exists>m. treatment_of s a = Some m) \<and> py_in ''treatment_fields'' (heap s a) = Inr False)"

section \<open>Lemmas: relay and collector\<close>

lemma alert_collected:
  assumes "unpickle (pickle a) = Inr (alert_object a)"
  shows "fst (snort_post_alert repr_of ether unpickle utcnow (pickle a)) =
    (case snort_pkt_values ether (packet_text a) of Inl e \<Rightarrow> [] | Inr p \<Rightarrow> [alert_message utcnow a p])"
proof -
  have "form_pyobj repr_of ether utcnow (alert_object a) ''snort'' None =
      bindE (snort_pkt_values ether (packet_text a)) (\<lambda>p. Inr (alert_message utcnow a p))"
    by (cases "snort_pkt_values ether (packet_text a)")
      (simp_all add: form_pyobj_def alert_object_def alert_message_def alert_attrs_def pcap_attrs_def event_attrs_def
        timeval_attrs_def packet_text_def)
  then show ?thesis using assms
    by (cases "snort_pkt_values ether (packet_text a)") (simp_all add: snort_post_alert_def post_form_def)
qed

lemma alert_message_fields:
  "map_of (alert_message utcnow a p) ''type'' = Some (PyStr ''snort'')"
  "map_of (alert_message utcnow a p) ''alertmsg'' = Some (PyStr (latin1 (alert_msg a)))"
  "map_of (alert_message utcnow a p) ''pkt'' = Some (PyDict p)"
  by (simp_all add: alert_message_def alert_attrs_def)

lemma packed_output:
  assumes "\<forall>a \<in> set as. wf_alert a"
  shows "relay_output (HttpSnortRelay addr port) (concat (map pack_alert as)) =
    map (\<lambda>a. \<lparr>post_url = addr @ '':'' @ nat_str port @ ''/snort/alert'', post_alert = a\<rparr>) as"
proof -
  have "\<forall>x \<in> set (map pack_alert as). length x = BUFSIZE"
    using assms relay_reads_packed(2) by (auto simp: BUFSIZE_def ALERTPKT_SIZE_def)
  from relay.frames_aligned[OF this] have f: "frames BUFSIZE (concat (map pack_alert as)) = map pack_alert as" by simp
  have "parsed (pack_alert a) = a" if "a \<in> set as" for a
    using relay_reads_packed(1) assms that by (simp add: parsed_def)
  then show ?thesis unfolding relay_output_def f by (induction as) simp_all
qed

lemma worked_off:
  assumes "pig_run k es s" "pig_q s = []"
  shows "posted s = relay_output k (concat (map recv (received es)))"
  using pig_run_inv[OF assms(1)] assms(2) by (auto simp: concat_filter_nonempty)

lemma messages_of_alerts:
  assumes "\<forall>a \<in> set as. unpickle (pickle a) = Inr (alert_object a)"
    and "\<forall>a \<in> set as. snort_pkt_values ether (packet_text a) = Inr (packet a)" "length nows = length as"
  shows "sensor_messages repr_of ether pickle unpickle host nows
      (map (\<lambda>a. \<lparr>post_url = host @ ''/snort/alert'', post_alert = a\<rparr>) as) =
    map (\<lambda>(utcnow, a). alert_message utcnow a (packet a)) (zip nows as)"
  using assms(3,1,2)
proof (induction nows as rule: list_induct2)
  case (Cons n ns a as)
  then show ?case by (simp add: sensor_messages_def collect_post_def alert_collected)
qed (simp add: sensor_messages_def)

section \<open>Lemmas: the handler\<close>

lemma packet_protocol:
  assumes "snort_pkt_values ether pkt = Inr p"
  shows "map_of p ''protocolIdentifier'' \<in> {None, Some (PyStr ''tcp''), Some (PyStr ''udp''), Some (PyStr ''icmp'')}"
  using assms
  by (auto simp: snort_pkt_values_def ports_of_def Let_def res_simps split: pyval.splits sum.splits if_splits)

lemma text_protocol:
  assumes "map_of p ''protocolIdentifier'' \<in> {None, Some (PyStr ''tcp''), Some (PyStr ''udp''), Some (PyStr ''icmp'')}"
  shows "valid_protocol p" "resolve_protocol p = p"
  using assms by (auto simp: valid_protocol_def resolve_protocol_def valid_protocol_identifiers_def)

lemma alert_text_eq: "alert_text_of s a = Some u \<Longrightarrow> py_item (heap s a) ''alertmsg'' = Inr (PyStr u)"
  by (auto simp: alert_text_of_def split: sum.splits pyval.splits)

lemma snort_matches_policy:
  assumes "alert_policy s" "map_of msg ''alertmsg'' = Some (PyStr t)"
  shows "snort_matches s msg (map snd (snort_thr s)) = Inr (alert_thresholds s t)"
proof -
  let ?P = "\<lambda>a. bindE (py_item (heap s a) ''alertmsg'') (\<lambda>u. bindE (py_item (PyDict msg) ''alertmsg'') (\<lambda>m. Inr (py_eq u m)))"
  have P: "?P a = Inr (alert_text_of s a = Some t)" if a: "a \<in> set (map snd (snort_thr s))" for a
  proof -
    from assms(1) a obtain u where "alert_text_of s a = Some u" unfolding alert_policy_def by blast
    then show ?thesis using assms(2) alert_text_eq by simp
  qed
  have "filterE ?P (map snd (snort_thr s)) = filterE (\<lambda>a. Inr (alert_text_of s a = Some t)) (map snd (snort_thr s))"
    by (rule filterE_cong) (rule P)
  then show ?thesis by (simp add: filterE_Inr alert_thresholds_def)
qed

lemma packet_treated:
  assumes "treatment_of s a = Some (meth, modul)" "valid_protocol p" "resolve_protocol p = p"
    and "text_or_missing p ''sourceIPv4Address''" "text_or_missing p ''destinationIPv4Address''"
  shows "apply_treatment w s a False (PyDict p) =
    (s, [HttpGet (onos_url (rpc_conf w) modul meth @ flow_path w p)], Inr ())"
proof -
  obtain t where t: "py_item (heap s a) ''treatment'' = Inr (PyStr t)" "map_of treatment_methods t = Some (meth, modul)"
    using assms(1) by (auto simp: treatment_of_def split: sum.splits pyval.splits)
  show ?thesis
  proof (cases "p = []")
    case True
    then show ?thesis
      by (simp add: apply_treatment_def treatment_apply_def t rpc_call_def rpc_onos_def onos_get_def flow_path_def)
  next
    case False
    note rpc = rpc_onos_valid[OF False assms(2,4,5), unfolded assms(3)]
    show ?thesis using False
      by (simp add: apply_treatment_def treatment_apply_def t rpc_call_def rpc onos_get_def flow_path_def)
  qed
qed

lemma snort_handle_policy:
  assumes "alert_policy s" "map_of msg ''alertmsg'' = Some (PyStr t)" "map_of msg ''pkt'' = Some (PyDict p)"
    and "valid_protocol p" "resolve_protocol p = p"
    and "text_or_missing p ''sourceIPv4Address''" "text_or_missing p ''destinationIPv4Address''"
  shows "snort_handle w s msg = (s, policy_requests w s t p, Inr ())"
proof (cases "alert_thresholds s t")
  case Nil
  then show ?thesis using assms(2)
    by (simp add: snort_handle_def snort_find_match_def snort_matches_policy[OF assms(1,2)] form_match_result_def
        policy_requests_def del: snort_matches.simps)
next
  case (Cons h hs)
  define x where "x = first_max (\<lambda>b. the (priority_of s b)) h hs"
  have sub: "set (h # hs) \<subseteq> set (map snd (snort_thr s))" 
    using Cons filter_is_subset unfolding alert_thresholds_def by metis
  then have "\<forall>m \<in> set (h # hs). \<exists>q. priority_of s m = Some q" using assms(1) unfolding alert_policy_def by blast
  then have best: "find_highest_priority_match s (h # hs) = Inr x"
    using find_highest_first_max[of h hs s] by (simp add: x_def)
  have "x \<in> set (h # hs)" unfolding x_def by (rule first_max_in)
  then have "x \<in> set (map snd (snort_thr s))" using sub by blast
  then have "(\<exists>m. treatment_of s x = Some m) \<and> py_in ''treatment_fields'' (heap s x) = Inr False"
    using assms(1) unfolding alert_policy_def by blast
  then obtain meth modul where x: "treatment_of s x = Some (meth, modul)" "py_in ''treatment_fields'' (heap s x) = Inr False"
    by (auto simp del: py_in.simps)
  have found: "snort_find_match s msg = Inr (Some (h # hs))"
    by (simp add: snort_find_match_def snort_matches_policy[OF assms(1,2)] form_match_result_def Cons del: snort_matches.simps)
  have chosen: "policy_requests w s t p = [HttpGet (onos_url (rpc_conf w) modul meth @ flow_path w p)]"
    unfolding policy_requests_def Cons list.case x_def[symmetric] x(1) option.case prod.case ..
  have fields: "create_treatment_fields s x (PyDict p) = (s, Inr (False, PyDict p))"
    unfolding create_treatment_fields_def x(2) by simp
  show ?thesis
    unfolding chosen snort_handle_def found sum.case option.case best
    by (simp add: assms(3) fields packet_treated[OF x(1) assms(4-7)])
qed

text \<open>A database that stores every message and keeps the fields the handler reads.\<close>

definition stores :: "database \<Rightarrow> bool" where
  "stores ins \<longleftrightarrow> (\<forall>alerts msg. \<exists>msg'. ins alerts msg = (msg', Inr ()) \<and>
     (\<forall>k \<in> {''type'', ''alertmsg'', ''pkt''}. map_of msg' k = map_of msg k))"

lemma alert_step:
  assumes "t_running t" "alert_policy (c_store (t_coord t))" "stores ins"
    and "snort_pkt_values ether pkt = Inr p"
    and "text_or_missing p ''sourceIPv4Address''" "text_or_missing p ''destinationIPv4Address''"
    and "t' = tennison_step w ins t (Received now later (alert_message utcnow a p))"
  shows "t_running t' \<and> c_store (t_coord t') = c_store (t_coord t) \<and>
    c_sent (t_coord t') = c_sent (t_coord t) @ policy_requests w (c_store (t_coord t)) (latin1 (alert_msg a)) p \<and>
    length (c_alerts (t_coord t')) = Suc (length (c_alerts (t_coord t)))"
proof -
  obtain m where m: "ins (c_alerts (t_coord t)) (alert_message utcnow a p) = (m, Inr ())"
    "map_of m ''type'' = Some (PyStr ''snort'')" "map_of m ''alertmsg'' = Some (PyStr (latin1 (alert_msg a)))"
    "map_of m ''pkt'' = Some (PyDict p)"
    using assms(3) alert_message_fields[of utcnow a p] unfolding stores_def
    by (metis insertCI)
  note h = snort_handle_policy[OF assms(2) m(3,4) text_protocol[OF packet_protocol[OF assms(4)]] assms(5,6), of w]
  have "handle_message w now later m (c_store (t_coord t)) (c_ipfix (t_coord t)) =
      (c_store (t_coord t), c_ipfix (t_coord t), policy_requests w (c_store (t_coord t)) (latin1 (alert_msg a)) p, Inr ())"
    by (simp add: handle_message_def m(2) h)
  from coord_message_handled[where ins = ins, OF m(1) this] show ?thesis using assms(1,7) by simp
qed

lemma alert_steps:
  assumes "length nows = length as" "t_running t" "alert_policy (c_store (t_coord t))" "stores ins"
    and "\<forall>a \<in> set as. snort_pkt_values ether (packet_text a) = Inr (packet a) \<and>
      text_or_missing (packet a) ''sourceIPv4Address'' \<and> text_or_missing (packet a) ''destinationIPv4Address''"
    and "t' = tennison_run w ins (map (\<lambda>(utcnow, a). Received now later (alert_message utcnow a (packet a))) (zip nows as)) t"
  shows "t_running t' \<and> c_store (t_coord t') = c_store (t_coord t) \<and>
    c_sent (t_coord t') = c_sent (t_coord t) @
      concat (map (\<lambda>a. policy_requests w (c_store (t_coord t)) (latin1 (alert_msg a)) (packet a)) as) \<and>
    length (c_alerts (t_coord t')) = length (c_alerts (t_coord t)) + length as"
  using assms
proof (induction nows as arbitrary: t rule: list_induct2)
  case (Cons n ns a as)
  define u where "u = tennison_step w ins t (Received now later (alert_message n a (packet a)))"
  have u: "t_running u" "c_store (t_coord u) = c_store (t_coord t)"
    "c_sent (t_coord u) = c_sent (t_coord t) @ policy_requests w (c_store (t_coord t)) (latin1 (alert_msg a)) (packet a)"
    "length (c_alerts (t_coord u)) = Suc (length (c_alerts (t_coord t)))"
    using alert_step[where ether = ether and pkt = "packet_text a" and p = "packet a" and ins = ins, OF Cons.prems(1-3) _ _ _ u_def]
      Cons.prems(4) by simp_all
  have rest: "t' = tennison_run w ins
      (map (\<lambda>(utcnow, a). Received now later (alert_message utcnow a (packet a))) (zip ns as)) u"
    using Cons.prems(5) by (simp add: tennison_run_Cons u_def del: tennison_step.simps)
  show ?case using Cons.IH[OF u(1) _ Cons.prems(3) _ rest] Cons.prems(2,4) u by simp
qed (simp add: tennison_run_def)

section \<open>Properties\<close>

text \<open>
  C2: what snort sees reaches the network. Let snort write alerts to the socket, cut into datagrams in any way and received in any
  interleaving of the threads of the relay, and let the relay have worked off its queue. Then the messages the collector pushes for the
  requests of the relay make the coordinator store one alert each and send, in the order of the alerts, exactly the
  requests of the policy: for an alert with the text of a threshold the treatment of the first such threshold of the highest priority,
  applied to the flow of the packet; nothing for any other alert. The coordinator keeps running and its tables do not change.
\<close>

theorem alerts_reach_the_network:
  assumes "pig_run (HttpSnortRelay addr port) es s" "pig_q s = []"
    and "concat (map recv (received es)) = concat (map pack_alert as)" "\<forall>a \<in> set as. wf_alert a"
    and "\<forall>a \<in> set as. unpickle (pickle a) = Inr (alert_object a)"
    and "\<forall>a \<in> set as. snort_pkt_values ether (packet_text a) = Inr (packet a) \<and>
      text_or_missing (packet a) ''sourceIPv4Address'' \<and> text_or_missing (packet a) ''destinationIPv4Address''"
    and "length nows = length as" "t_running t" "alert_policy (c_store (t_coord t))" "stores ins"
    and "t' = tennison_run w ins (map (Received now later)
      (sensor_messages repr_of ether pickle unpickle (addr @ '':'' @ nat_str port) nows (posted s))) t"
  shows "t_running t' \<and> c_store (t_coord t') = c_store (t_coord t) \<and>
    c_sent (t_coord t') = c_sent (t_coord t) @
      concat (map (\<lambda>a. policy_requests w (c_store (t_coord t)) (latin1 (alert_msg a)) (packet a)) as) \<and>
    length (c_alerts (t_coord t')) = length (c_alerts (t_coord t)) + length as"
proof -
  have posts: "posted s = map (\<lambda>a. \<lparr>post_url = (addr @ '':'' @ nat_str port) @ ''/snort/alert'', post_alert = a\<rparr>) as"
    using worked_off[OF assms(1,2)] packed_output[OF assms(4)] assms(3) by simp
  have "sensor_messages repr_of ether pickle unpickle (addr @ '':'' @ nat_str port) nows (posted s) =
      map (\<lambda>(utcnow, a). alert_message utcnow a (packet a)) (zip nows as)"
    unfolding posts using assms(5-7) by (intro messages_of_alerts) auto
  then have run: "t' = tennison_run w ins
      (map (\<lambda>(utcnow, a). Received now later (alert_message utcnow a (packet a))) (zip nows as)) t"
    using assms(11) by (simp add: split_def comp_def)
  show ?thesis by (rule alert_steps[OF assms(7-10,6) run])
qed

definition demo_ether :: "string \<Rightarrow> layers" where
  "demo_ether = (\<lambda>_. [(''Ethernet'', [(''dst'', PyStr ''00:00:00:00:00:07''), (''src'', PyStr ''00:00:00:00:00:09'')]),
     (''IP'', [(''src'', PyStr ''10.0.0.9''), (''dst'', PyStr ''10.0.0.7'')]), (''TCP'', [(''sport'', PyInt 4), (''dport'', PyInt 8)])])"

definition demo_packet :: pydict where
  "demo_packet = [(''sourceMacAddress'', PyStr ''00:00:00:00:00:09''), (''destinationMacAddress'', PyStr ''00:00:00:00:00:07''),
     (''sourceIPv4Address'', PyStr ''10.0.0.9''), (''destinationIPv4Address'', PyStr ''10.0.0.7''),
     (''protocolIdentifier'', PyStr ''tcp''), (''sourceTransportPort'', PyInt 4), (''destinationTransportPort'', PyInt 8)]"

definition syn_store :: store where
  "syn_store = empty_store\<lparr>heap := (\<lambda>_. PyNone)(0 := PyDict
     [(''alertmsg'', PyStr ''SYN''), (''priority'', PyInt 10), (''treatment'', PyStr ''block'')]),
    next_addr := 1, snort_thr := [(PyStr ''t'', 0)]\<rparr>"

lemma relayed_run:
  assumes "length d = BUFSIZE"
  shows "\<exists>s. pig_run k [ListenTest, Recv d, RelayTest, Take] s \<and> pig_q s = []"
proof -
  let ?s1 = "pig_start\<lparr>listen_pc := Blocked\<rparr>"
  let ?s2 = "?s1\<lparr>listen_pc := Testing, pig_q := [d]\<rparr>"
  let ?s3 = "?s2\<lparr>relay_pc := Blocked\<rparr>"
  obtain ps buf r where sent: "send_frames k (relay_buf ?s3 @ d) = (ps, buf, r)" by (metis prod_cases3)
  have "0 < BUFSIZE" by (simp add: BUFSIZE_def)
  then have d: "d \<noteq> []" "recv d = d" using assms by (auto simp: recv_def)
  have 1: "pig_steps k ([] @ [ListenTest]) pig_start ?s1"
    using pig_steps.more[OF pig_steps.none listen_test[of pig_start k]] by (simp add: pig_start_def)
  have "pig_step k (Recv d) ?s1 ?s2"
    using pig_step.recv[of ?s1 d d k] d by (simp add: pig_start_def queue_put_def)
  note 2 = pig_steps.more[OF 1 this]
  have "pig_step k RelayTest ?s2 ?s3" using relay_test[of ?s2 k] by (simp add: pig_start_def)
  note 3 = pig_steps.more[OF 2 this]
  have "relay_pc ?s3 = Blocked" "queue_get (pig_q ?s3) = Some (d, [])" by simp_all
  note 4 = pig_steps.more[OF 3 pig_step.take[OF this sent]]
  show ?thesis
    by (rule exI, rule conjI, unfold pig_run_def, rule 4[simplified append_Nil append_Cons]) (simp add: pig_start_def)
qed

theorem alerts_reach_the_network_witness:
  "\<exists>s. pig_run (HttpSnortRelay ''c'' 1) [ListenTest, Recv (pack_alert demo_alert), RelayTest, Take] s \<and>
     c_sent (t_coord (tennison_run demo_world demo_insert (map (Received 0 0) (sensor_messages (\<lambda>_. []) demo_ether pack_alert
       (\<lambda>bs. bindE (relay_alert_parser bs) (\<lambda>a. Inr (alert_object a))) (''c'' @ '':'' @ nat_str 1) [0] (posted s)))
       (demo_tennison\<lparr>t_coord := (t_coord demo_tennison)\<lparr>c_store := syn_store\<rparr>\<rparr>))) =
     [HttpGet ''http://onos/mervyn/block/add/10.0.0.9/4/10.0.0.7/8/tcp'']"
proof -
  have wf: "wf_alert demo_alert" by (simp add: wf_alert_def demo_alert_def)
  have l: "length (pack_alert demo_alert) = BUFSIZE" using relay_reads_packed(2)[OF wf] by (simp add: BUFSIZE_def ALERTPKT_SIZE_def)
  then obtain s where s: "pig_run (HttpSnortRelay ''c'' 1) [ListenTest, Recv (pack_alert demo_alert), RelayTest, Take] s" "pig_q s = []"
    using relayed_run by blast
  let ?t = "demo_tennison\<lparr>t_coord := (t_coord demo_tennison)\<lparr>c_store := syn_store\<rparr>\<rparr>"
  have stream: "concat (map recv (received [ListenTest, Recv (pack_alert demo_alert), RelayTest, Take])) = concat (map pack_alert [demo_alert])"
    using l by (simp add: recv_def)
  have pickled: "\<forall>a \<in> set [demo_alert]. bindE (relay_alert_parser (pack_alert a)) (\<lambda>a. Inr (alert_object a)) = Inr (alert_object a)"
    using relay_reads_packed(1)[OF wf] by simp
  have packets: "\<forall>a \<in> set [demo_alert]. snort_pkt_values demo_ether (packet_text a) = Inr demo_packet \<and>
      text_or_missing demo_packet ''sourceIPv4Address'' \<and> text_or_missing demo_packet ''destinationIPv4Address''"
    by (simp add: snort_pkt_values_def packet_text_def demo_ether_def has_layer_def ports_of_def demo_packet_def text_or_missing_def)
  have run: "t_running ?t" "alert_policy (c_store (t_coord ?t))" "stores demo_insert"
    by (simp_all add: demo_tennison_def alert_policy_def syn_store_def empty_store_def alert_text_of_def priority_of_def
        treatment_of_def treatment_methods_def stores_def demo_insert_def)
  have syn: "latin1 (alert_msg demo_alert) = ''SYN''" by (simp add: latin1_def demo_alert_def char_of_def bit_0 bit_Suc)
  have "policy_requests demo_world syn_store ''SYN'' demo_packet =
      [HttpGet ''http://onos/mervyn/block/add/10.0.0.9/4/10.0.0.7/8/tcp'']"
    by (simp add: policy_requests_def alert_thresholds_def syn_store_def empty_store_def alert_text_of_def treatment_of_def
        treatment_methods_def onos_url_def flow_path_def demo_packet_def field_text_def onos_keys_def join_def demo_world_def
        onos_endpoint_def int_str_def nat_str.simps digit_char_def)
  moreover have "c_store (t_coord ?t) = syn_store" "c_sent (t_coord ?t) = []" by (simp_all add: demo_tennison_def)
  moreover have "\<forall>a \<in> set [demo_alert]. wf_alert a" "length [0 :: int] = length [demo_alert]" using wf by simp_all
  note sent = alerts_reach_the_network[where packet = "\<lambda>_. demo_packet" and w = demo_world and now = 0 and later = 0
      and repr_of = "\<lambda>_. []" and unpickle = "\<lambda>bs. bindE (relay_alert_parser bs) (\<lambda>a. Inr (alert_object a))",
      OF s stream this(1) pickled packets this(2) run refl]
  ultimately show ?thesis using s(1) syn sent by (intro exI[of _ s]) (simp only: list.map concat.simps append_Nil append_Nil2 simp_thms)
qed

text \<open>
  An alert on a packet without an IP header, an ARP packet for instance, names no flow: the message has at most the hardware addresses, and
  the request of its policy has a wildcard in every place, so a policy that blocks the flow of the alert blocks all flows.
\<close>

theorem alert_without_flow:
  assumes "snort_pkt_values ether (PyStr pkt) = Inr p" "\<not> has_layer ''IP'' (ether (take 300 pkt))"
  shows "flow_path w p \<in> {[], ''/*/*/*/*/*''} \<and> (\<forall>k \<in> set onos_keys. \<not> has_key p k)"
proof -
  have "p = [] \<or> (\<exists>a b. p = [(''sourceMacAddress'', a), (''destinationMacAddress'', b)])"
    using assms by (auto simp: snort_pkt_values_def Let_def split: sum.splits)
  then show ?thesis by (auto simp: flow_path_def onos_keys_def field_text_def join_def)
qed

theorem alert_without_flow_witness:
  "flow_path demo_world [(''sourceMacAddress'', PyStr ''a''), (''destinationMacAddress'', PyStr ''b'')] \<in> {[], ''/*/*/*/*/*''}"
proof -
  let ?ether = "\<lambda>_. [(''Ethernet'', [(''src'', PyStr ''a''), (''dst'', PyStr ''b'')]), (''ARP'', [])]"
  have "snort_pkt_values ?ether (PyStr []) = Inr [(''sourceMacAddress'', PyStr ''a''), (''destinationMacAddress'', PyStr ''b'')]"
    "\<not> has_layer ''IP'' (?ether (take 300 []))"
    by (simp_all add: snort_pkt_values_def has_layer_def)
  from alert_without_flow[OF this] show ?thesis by blast
qed

end
