(* ===== verification/Learned_Thresholds.thy ===== *)
theory Learned_Thresholds
  imports System Threshold_Updater
begin

text \<open>
  The threshold updater attached to the system: what the level it learns for a flow makes the coordinator do
  (\<open>coordinator/apps/ipfix-threshold-app/thresholdUpdater.py\<close>, \<open>coordinator/core/watson.py\<close>, \<open>messagehandler.py\<close>).
\<close>

section \<open>Messages of a flow\<close>

text \<open>A message of type \<open>ipfix\<close> with the addresses and ports of the flow.\<close>

definition record_of :: "string \<Rightarrow> string \<Rightarrow> int \<Rightarrow> int \<Rightarrow> pydict \<Rightarrow> bool" where
  "record_of src dst sp dp msg \<longleftrightarrow>
     map_of msg ''type'' = Some (PyStr ''ipfix'') \<and> map_of msg ''subtype'' = Some (PyStr ''ipfix'') \<and>
     map_of msg ''sourceIPv4Address'' = Some (PyStr src) \<and> map_of msg ''destinationIPv4Address'' = Some (PyStr dst) \<and>
     map_of msg ''sourceTransportPort'' = Some (PyInt sp) \<and> map_of msg ''destinationTransportPort'' = Some (PyInt dp)"

text \<open>The average of the flow is known and above the level.\<close>

definition exceeds :: "pydict \<Rightarrow> int \<Rightarrow> bool" where
  "exceeds stats level \<longleftrightarrow> (case map_of stats ''avg_bps'' of Some (PyFloat q) \<Rightarrow> of_int level < q | _ \<Rightarrow> False)"

text \<open>The path of the request for a message: the five fields of the flow, the protocol by its name.\<close>

definition record_path :: "world \<Rightarrow> string \<Rightarrow> string \<Rightarrow> int \<Rightarrow> int \<Rightarrow> pydict \<Rightarrow> string" where
  "record_path w src dst sp dp msg =
     join ''/'' [src, int_str sp, dst, int_str dp, field_text (text_of w) (resolve_protocol msg) ''protocolIdentifier'']"

section \<open>Lemmas\<close>

lemma average_is_a_number:
  assumes "record_flow now later msg ix = (ix2, Inr stats)"
  shows "map_of stats ''avg_bps'' = None \<or> (\<exists>q. map_of stats ''avg_bps'' = Some (PyFloat q))"
proof -
  have d: "map_of stats' ''avg_bps'' = None"
    if "diff_stats n prev b p [(''byte_total'', b), (''packet_total'', p)] = Inr stats'" for n prev b p stats'
    using that by (auto simp: diff_stats_def Let_def res_simps split: if_splits)
  have a: "map_of (average_stats r st) ''avg_bps'' = None \<or> (\<exists>q. map_of (average_stats r st) ''avg_bps'' = Some (PyFloat q))"
    if "map_of st ''avg_bps'' = None" for r st
    using that by (auto simp: average_stats_def map_add_def split: option.split)
  obtain r st b p fl where st: "stats = average_stats r st"
    "(case map_of (delta_bps ix) fl of None \<Rightarrow> Inr [(''byte_total'', b), (''packet_total'', p)]
      | Some prev \<Rightarrow> diff_stats now prev b p [(''byte_total'', b), (''packet_total'', p)]) = Inr st"
    using assms by (auto simp: record_flow_def Let_def split: sum.splits) (auto simp: res_simps)
  then have "map_of st ''avg_bps'' = None" using d by (auto split: option.splits)
  from a[OF this, of r] show ?thesis by (simp add: st(1))
qed

lemma learned_matches:
  assumes "endpoints f = ((PyStr dst, PyStr src), (PyInt dp, PyInt sp))" "CHR ''/'' \<notin> set src" "CHR ''/'' \<notin> set dst"
    and "record_of src dst sp dp msg" "heap s a = PyDict (updater_payload f level)"
  shows "direct_match w s msg a = Inr True"
proof -
  have fields: "py_item (heap s a) ''fields'' = Inr (PyDict [(''destinationIPv4Address'', PyStr dst), (''sourceIPv4Address'', PyStr src),
      (''destinationTransportPort'', PyInt dp), (''sourceTransportPort'', PyInt sp)])"
    by (simp add: assms(5) updater_payload_def assms(1))
  have sub: "py_in ''subtype'' (heap s a) = Inr True" "py_item (heap s a) ''subtype'' = Inr (PyStr ''ipfix'')"
    by (simp_all add: assms(5) updater_payload_def assms(1))
  have msg: "map_of msg ''sourceIPv4Address'' = Some (PyStr src)" "map_of msg ''destinationIPv4Address'' = Some (PyStr dst)"
    "map_of msg ''sourceTransportPort'' = Some (PyInt sp)" "map_of msg ''destinationTransportPort'' = Some (PyInt dp)"
    "map_of msg ''subtype'' = Some (PyStr ''ipfix'')"
    using assms(4) by (simp_all add: record_of_def)
  have ips: "test_ip_address w (PyStr x) (PyStr x) = Inr True" if "CHR ''/'' \<notin> set x" for x
    using that by (simp add: test_ip_address_def is_infix_char)
  have "test_match_similarity w (heap s a) msg = Inr True"
    unfolding test_match_similarity_def fields using msg by (simp add: test_field_def ips[OF assms(2)] ips[OF assms(3)])
  moreover have "test_subtype (heap s a) msg = Inr True"
    unfolding test_subtype_def sub using msg(5) by (simp add: has_key_def)
  ultimately have "state_matches w s msg a = Inr True" by (simp add: state_matches_def)
  moreover have "mask_keys (heap s a) = Inr [''destinationIPv4Address'', ''sourceIPv4Address'', ''destinationTransportPort'', ''sourceTransportPort'']"
    unfolding mask_keys_def fields by simp
  ultimately show ?thesis using msg by (simp add: direct_match_def mask_applies_def has_key_def)
qed

lemma learned_check:
  assumes "map_of stats ''avg_bps'' = None \<or> (\<exists>q. map_of stats ''avg_bps'' = Some (PyFloat q))"
  shows "check_threshold stats (PyDict (updater_payload f level)) = Inr (exceeds stats (truncate_int level))"
  using assms
  by (auto simp: check_threshold_def updater_payload_def exceeds_def valid_metrics_def case_prod_beta Let_def)

lemma learned_treats:
  assumes "record_of src dst sp dp msg" "heap s a = PyDict (updater_payload f level)"
  shows "apply_treatment w s a False (PyDict msg) = (s, (if valid_protocol msg
      then [HttpGet (onos_url (rpc_conf w) ''mirror'' ''add'' @ ''/'' @ record_path w src dst sp dp msg)] else []), Inr ())"
proof -
  have msg: "map_of msg ''sourceIPv4Address'' = Some (PyStr src)" "map_of msg ''destinationIPv4Address'' = Some (PyStr dst)"
    "map_of msg ''sourceTransportPort'' = Some (PyInt sp)" "map_of msg ''destinationTransportPort'' = Some (PyInt dp)"
    using assms(1) by (simp_all add: record_of_def)
  have ne: "msg \<noteq> []" using msg(1) by auto
  have texts: "text_or_missing msg ''sourceIPv4Address''" "text_or_missing msg ''destinationIPv4Address''"
    using msg by (simp_all add: text_or_missing_def)
  have path: "join ''/'' (map (field_text (text_of w) (resolve_protocol msg)) onos_keys) = record_path w src dst sp dp msg"
    using msg by (simp add: record_path_def onos_keys_def field_text_def resolve_protocol_other)
  have tr: "bindE (py_item (heap s a) ''treatment'') as_str = Inr ''snort_mirror''"
    "map_of treatment_methods ''snort_mirror'' = Some (''add'', ''mirror'')"
    by (simp_all add: assms(2) updater_payload_def treatment_methods_def case_prod_beta Let_def)
  show ?thesis
    using rpc_onos_valid[OF ne _ texts] rpc_onos_invalid[OF ne]
    by (simp add: path apply_treatment_def treatment_apply_def tr rpc_call_def onos_get_def)
qed

lemma learned_delivered:
  "deliver (updater_request ''add'' h f level) =
    Some (AddThr Ipfix (''ipfix_'' @ int_str h) (json_post (PyDict (updater_payload f level))))"
proof -
  have "CHR ''/'' \<notin> set (''ipfix_'' @ int_str h)" using nat_str_no_slash by (simp add: int_str_def)
  moreover have "updater_request ''add'' h f level =
      HttpPost (nbi_base @ ''ipfix/add/'' @ (''ipfix_'' @ int_str h)) (Some (PyDict (updater_payload f level)))"
    by (simp add: updater_request_def nbi_base_def)
  ultimately show ?thesis using deliver_add by simp
qed

section \<open>Properties\<close>

text \<open>
  C19: a flow that outgrows the level learned for it is mirrored. The first request of the updater for a flow reaches the
  route that adds an IPFIX threshold. When the system then receives a record of type \<open>ipfix\<close> of that flow, and no other
  threshold that matches it has the priority 10 or more, it sends exactly one request if the average rate of the flow is above the whole
  part of the level and the protocol is one of the known ones: ONOS is asked to mirror that flow. Otherwise it sends nothing.
\<close>

theorem learned_level_is_enforced:
  assumes "update_one net np_std c h f m = (f', m', [req], r)" "map_of m h = None"
    and "endpoints f = ((PyStr dst, PyStr src), (PyInt dp, PyInt sp))" "CHR ''/'' \<notin> set src" "CHR ''/'' \<notin> set dst"
  shows "\<exists>level i request. req = updater_request ''add'' h f level \<and> deliver req = Some request \<and>
    request = AddThr Ipfix i (json_post (PyDict (updater_payload f level))) \<and>
    (let rates = slice_from (- new_values f) (delta_bps_records f) in level = mean rates + np_std rates * margin c) \<and>
    (\<forall>t msg msg' now later ix2 stats. t_running t \<longrightarrow> accepts w i 10 msg' (c_store (t_coord t)) (c_ipfix (t_coord t)) \<longrightarrow>
       record_of src dst sp dp msg' \<longrightarrow> ins (c_alerts (t_coord t)) msg = (msg', Inr ()) \<longrightarrow>
       record_flow now later msg' (c_ipfix (t_coord t)) = (ix2, Inr stats) \<longrightarrow>
       (let t' = tennison_run w ins [Rest True request, Received now later msg] t
        in t_running t' \<and> c_sent (t_coord t') = c_sent (t_coord t) @
             (if exceeds stats (truncate_int level) \<and> valid_protocol msg'
              then [HttpGet (onos_url (rpc_conf w) ''mirror'' ''add'' @ ''/'' @ record_path w src dst sp dp msg')] else [])))"
proof -
  let ?rates = "slice_from (- new_values f) (delta_bps_records f)"
  define level where "level = mean ?rates + np_std ?rates * margin c"
  have req: "req = updater_request ''add'' h f level"
    using assms(1,2) by (auto simp: update_one_def Let_def level_def split: if_splits sum.splits)
  let ?d = "updater_payload f level" and ?i = "''ipfix_'' @ int_str h"
  have keys: "\<forall>x \<in> set (required Ipfix). has_key ?d x" "map_of ?d ''priority'' = Some (PyInt 10)" "\<not> has_key ?d ''treatment_fields''"
    by (simp_all add: updater_payload_def assms(3) required_def)
  have act: "let t' = tennison_run w ins [Rest True (AddThr Ipfix ?i (json_post (PyDict ?d))), Received now later msg] t
      in t_running t' \<and> c_sent (t_coord t') = c_sent (t_coord t) @
        (if exceeds stats (truncate_int level) \<and> valid_protocol msg'
         then [HttpGet (onos_url (rpc_conf w) ''mirror'' ''add'' @ ''/'' @ record_path w src dst sp dp msg')] else [])"
    if t: "t_running t" "accepts w ?i 10 msg' (c_store (t_coord t)) (c_ipfix (t_coord t))" "record_of src dst sp dp msg'"
      "ins (c_alerts (t_coord t)) msg = (msg', Inr ())" "record_flow now later msg' (c_ipfix (t_coord t)) = (ix2, Inr stats)"
    for t msg msg' now later ix2 stats
  proof -
    have acc: "accepts w ?i 10 msg' (nbi_store (t_nbi t)) (c_ipfix (t_coord t))" using t(2) by (simp add: t_nbi_def)
    have msg: "map_of msg' ''type'' = Some (PyStr ''ipfix'')" "recognised msg'"
      using t(3) by (simp_all add: record_of_def recognised_def has_key_def)
    obtain n' s a ix' where d: "nbi_handle True (AddThr Ipfix ?i (json_post (PyDict ?d))) (t_nbi t) = (n', Inr (Success, 200))"
      "heap s a = PyDict ?d" "handle_message w now later msg' (nbi_store n') (c_ipfix (t_coord t)) =
        (case decide_on w s a msg' stats of (s', reqs, r) \<Rightarrow> (s', ix', reqs, r))"
      using new_threshold_decides[OF acc msg keys(1,2) learned_matches[where level = level, OF assms(3-5) t(3)] t(5)] by blast
    let ?reqs = "if exceeds stats (truncate_int level) \<and> valid_protocol msg'
      then [HttpGet (onos_url (rpc_conf w) ''mirror'' ''add'' @ ''/'' @ record_path w src dst sp dp msg')] else []"
    have "decide_on w s a msg' stats = (s, ?reqs, Inr ())"
      using learned_check[OF average_is_a_number[OF t(5)]] keys(3) learned_treats[OF t(3) d(2), of w]
      by (cases "exceeds stats (truncate_int level)") (simp_all add: decide_on_def d(2))
    then have h: "handle_message w now later msg' (c_store (t_coord (with_nbi n' t))) (c_ipfix (t_coord (with_nbi n' t))) =
        (s, ix', ?reqs, Inr ())" using d(3) by (simp add: with_nbi_def)
    have stored: "ins (c_alerts (t_coord (with_nbi n' t))) msg = (msg', Inr ())" using t(4) by (simp add: with_nbi_def)
    note step = coord_message_handled[where ins = ins, OF stored h]
    have "t_running (with_nbi n' t)" "c_sent (t_coord (with_nbi n' t)) = c_sent (t_coord t)"
      using t(1) by (simp_all add: with_nbi_def)
    then show ?thesis using t(1) d(1) step by (simp add: tennison_run_def)
  qed
  have "deliver req = Some (AddThr Ipfix ?i (json_post (PyDict ?d)))" unfolding req by (rule learned_delivered)
  then show ?thesis using req act level_def by (intro exI[of _ level] exI[of _ ?i] exI conjI refl allI impI) (auto simp: Let_def)
qed

definition learned_flow :: "Flow_Stats.flow" where
  "learned_flow = (flow_new ((PyStr ''10.0.0.7'', PyStr ''10.0.0.9''), (PyInt 99, PyInt 4000)) 0 0)\<lparr>delta_bps_records := [50]\<rparr>"

definition learned_message :: pydict where
  "learned_message = [(''type'', PyStr ''ipfix''), (''subtype'', PyStr ''ipfix''),
     (''sourceIPv4Address'', PyStr ''10.0.0.9''), (''destinationIPv4Address'', PyStr ''10.0.0.7''),
     (''sourceTransportPort'', PyInt 4000), (''destinationTransportPort'', PyInt 99), (''protocolIdentifier'', PyInt 6),
     (''octetDeltaCount'', PyInt 900), (''packetDeltaCount'', PyInt 9), (''_id'', PyInt 0)]"

definition busy_tennison :: tennison where
  "busy_tennison = demo_tennison\<lparr>t_coord := (t_coord demo_tennison)\<lparr>c_ipfix := demo_ipfix\<lparr>Message_Handler.avg_bps :=
     [((PyStr ''10.0.0.9'', PyStr ''10.0.0.7'', PyFloat 4000, PyFloat 99), \<lparr>total_bps = 100, total_pps = 1, message_count = 1\<rparr>)]\<rparr>\<rparr>\<rparr>"

lemma busy_recorded:
  "\<exists>ix2 stats. record_flow 0 0 learned_message (c_ipfix (t_coord busy_tennison)) = (ix2, Inr stats) \<and>
    map_of stats ''avg_bps'' = Some (PyFloat 100)"
proof -
  have "delta_bps demo_ipfix = []"
    using create_initial_masks_ok[OF demo_ipfix_built] by (simp add: ipfix_empty_def)
  then show ?thesis
    by (simp add: record_flow_def busy_tennison_def learned_message_def flow_of_def update_totals_def stat_num_def
        average_stats_def)
qed

lemma busy_accepts:
  "accepts demo_world ''ipfix_7'' 10 learned_message (c_store (t_coord busy_tennison)) (c_ipfix (t_coord busy_tennison))"
proof -
  have "out_of_the_way demo_world demo_store learned_message 10 b" if "b \<in> {0, 1}" for b
    using that by (auto simp: out_of_the_way_def direct_match_def mask_keys_def demo_store_def demo_threshold_def mask_applies_def
        learned_message_def state_matches_def test_match_similarity_def test_field_def)
  then have "\<forall>b \<in> set (map snd (ipfix_thr demo_store)). out_of_the_way demo_world demo_store learned_message 10 b"
    by (simp add: demo_store_def)
  moreover have "wf_dict (ipfix_thr demo_store)" "\<not> has_key (ipfix_thr demo_store) (PyStr ''ipfix_7'')" "dumpable demo_store"
    by (simp_all add: demo_store_def dumpable_def dict_entries_def demo_threshold_def)
  ultimately show ?thesis by (simp add: accepts_def busy_tennison_def demo_tennison_def demo_wf demo_loaded)
qed

theorem learned_level_is_enforced_witness:
  "\<exists>request. deliver (updater_request ''add'' 7 learned_flow 50) = Some request \<and>
     c_sent (t_coord (tennison_run demo_world (\<lambda>alerts msg. (msg, Inr ())) [Rest True request, Received 0 0 learned_message] busy_tennison)) =
       [HttpGet (''http://onos/mervyn/mirror/add/'' @ record_path demo_world ''10.0.0.9'' ''10.0.0.7'' 4000 99 learned_message)]"
proof -
  let ?c = "\<lparr>query_time = 1, ml_type = 0, minimuStep = 1, margin = 0, exponentialSmoothing = 1\<rparr>"
  let ?ins = "\<lambda>alerts msg. (msg, Inr ())"
  have level: "slice_from (- new_values learned_flow) (delta_bps_records learned_flow) = [50]"
    by (simp add: learned_flow_def flow_new_def new_values_def slice_from_def)
  have "new_values learned_flow = 1" by (simp add: learned_flow_def flow_new_def new_values_def)
  with level have u: "update_one (\<lambda>_. Inr 200) (\<lambda>_. 0) ?c 7 learned_flow [] =
      (cut learned_flow, [(7, 50)], [updater_request ''add'' 7 learned_flow 50], Inr ())"
    by (simp add: update_one_def mean_def)
  have ends: "endpoints learned_flow = ((PyStr ''10.0.0.7'', PyStr ''10.0.0.9''), (PyInt 99, PyInt 4000))"
    "CHR ''/'' \<notin> set ''10.0.0.9''" "CHR ''/'' \<notin> set ''10.0.0.7''"
    by (simp_all add: learned_flow_def flow_new_def)
  from learned_level_is_enforced[OF u _ ends, of demo_world ?ins]
  obtain i request where r: "deliver (updater_request ''add'' 7 learned_flow 50) = Some request"
    "request = AddThr Ipfix i (json_post (PyDict (updater_payload learned_flow 50)))"
    and act: "\<And>t msg msg' now later ix2 stats. t_running t \<Longrightarrow>
       accepts demo_world i 10 msg' (c_store (t_coord t)) (c_ipfix (t_coord t)) \<Longrightarrow>
       record_of ''10.0.0.9'' ''10.0.0.7'' 4000 99 msg' \<Longrightarrow> ?ins (c_alerts (t_coord t)) msg = (msg', Inr ()) \<Longrightarrow>
       record_flow now later msg' (c_ipfix (t_coord t)) = (ix2, Inr stats) \<Longrightarrow>
       c_sent (t_coord (tennison_run demo_world ?ins [Rest True request, Received now later msg] t)) = c_sent (t_coord t) @
         (if exceeds stats (truncate_int 50) \<and> valid_protocol msg'
          then [HttpGet (onos_url (rpc_conf demo_world) ''mirror'' ''add'' @ ''/'' @ record_path demo_world ''10.0.0.9'' ''10.0.0.7'' 4000 99 msg')]
          else [])"
    unfolding Let_def level by (auto simp: mean_def)
  have i: "i = ''ipfix_7''" using r learned_delivered[of 7 learned_flow 50] by (simp add: int_str_def nat_str.simps digit_char_def)
  obtain ix2 stats where st: "record_flow 0 0 learned_message (c_ipfix (t_coord busy_tennison)) = (ix2, Inr stats)"
    "map_of stats ''avg_bps'' = Some (PyFloat 100)" using busy_recorded by blast
  have "exceeds stats (truncate_int 50)" "valid_protocol learned_message" "record_of ''10.0.0.9'' ''10.0.0.7'' 4000 99 learned_message"
    "t_running busy_tennison" "c_sent (t_coord busy_tennison) = []"
    "onos_url (rpc_conf demo_world) ''mirror'' ''add'' @ ''/'' = ''http://onos/mervyn/mirror/add/''"
    by (simp_all add: exceeds_def st(2) truncate_int_def valid_protocol_def valid_protocol_identifiers_def learned_message_def record_of_def
        busy_tennison_def demo_tennison_def onos_url_def demo_world_def onos_endpoint_def)
  note f = this
  from act[OF f(4) busy_accepts[folded i] f(3) refl st(1)] show ?thesis
    using r(1) f(1,2,5,6) by (intro exI[of _ request]) simp
qed

end
