(* ===== verification/Updater_Report.thy ===== *)
theory Updater_Report
  imports Threshold_Updater
begin

text \<open>
  The life of the threshold updater, the report it writes when it is interrupted (\<open>training\<close> and \<open>init\<close> of
  \<open>coordinator/apps/ipfix-threshold-app/thresholdUpdater.py\<close>), and the script that draws the report
  (\<open>trafficVisualisation.py\<close>).

  The report is a JSON document; JSON text is the library's, so a document read is the document written.
\<close>

section \<open>The report\<close>

text \<open>
  \<open>v.__dict__\<close>: the attributes the constructor assigns, and of the others those that have been assigned since, which
  \<open>assigned\<close> tells; an attribute that never was assigned is one of the class and not in the dictionary.
\<close>

definition rate_list :: "rat list \<Rightarrow> pyval" where
  "rate_list qs = PyList (map PyFloat qs)"

definition first_attrs :: "flow \<Rightarrow> pydict" where
  "first_attrs f = (let ((d, s), (dp, sp)) = endpoints f in
     [(''destinationIPv4Address'', d), (''sourceIPv4Address'', s), (''destinationTransportPort'', dp),
      (''sourceTransportPort'', sp), (''startTime'', PyFloat (startTime f)),
      (''delta_bps_records'', rate_list (delta_bps_records f)), (''delta_pps_records'', rate_list (delta_pps_records f)),
      (''last_OctetObserved'', PyInt (last_OctetObserved f)), (''counterFlow'', PyInt (int (counterFlow f))),
      (''ipfixPrevious'', PyBool (ipfixPrevious f))])"

definition later_attrs :: "flow \<Rightarrow> pydict" where
  "later_attrs f =
     [(''counter'', PyInt (int (counter f))), (''byte_diff'', PyInt (byte_diff f)), (''packet_diff'', PyInt (packet_diff f)),
      (''last_observed'', PyFloat (last_observed f)), (''timeM2'', PyFloat (timeM2 f)), (''avg_time_diff'', PyFloat (avg_time_diff f)),
      (''std_time_diff'', PyFloat (std_time_diff f)), (''avg_bps'', PyFloat (avg_bps f)), (''avg_pps'', PyFloat (avg_pps f)),
      (''last_observed_ipfix'', PyFloat (last_observed_ipfix f)), (''avg_time_diff_ipfix'', PyFloat (avg_time_diff_ipfix f)),
      (''std_time_diff_ipfix'', PyFloat (std_time_diff_ipfix f)), (''timeM2_ipfix'', PyFloat (timeM2_ipfix f)),
      (''byte_total_avg'', PyInt (byte_total_avg f)), (''packet_total_avg'', PyInt (packet_total_avg f)),
      (''cutoff'', PyInt (int (cutoff f)))]"

definition flow_dict :: "(string \<Rightarrow> bool) \<Rightarrow> flow \<Rightarrow> pydict" where
  "flow_dict assigned f = first_attrs f @ filter (\<lambda>(k, v). assigned k) (later_attrs f)"

definition flow_entry :: "(int \<Rightarrow> string \<Rightarrow> bool) \<Rightarrow> int \<times> flow \<Rightarrow> pyval" where
  "flow_entry assigned = (\<lambda>(h, f). PyDict [(''FlowID'', PyInt h), (''values'', PyDict (flow_dict (assigned h) f))])"

definition flows_doc :: "(int \<Rightarrow> string \<Rightarrow> bool) \<Rightarrow> updater \<Rightarrow> pyval" where
  "flows_doc assigned s = PyList (map (flow_entry assigned) (flows s))"

section \<open>The application\<close>

text \<open>
  \<open>retrieved\<close> is the answer to the query of the thresholds, which is not inside the \<open>try\<close>; \<open>opened\<close> tells whether the file can be
  written. Result: the state, the requests, the file if one was written, and how the application ends.
\<close>

definition training_session ::
  "net \<Rightarrow> (rat list \<Rightarrow> rat) \<Rightarrow> (rat list \<Rightarrow> nat \<Rightarrow> rat result) \<Rightarrow> hashing \<Rightarrow> (int \<Rightarrow> rat result) \<Rightarrow> unit result
    \<Rightarrow> (int \<Rightarrow> string \<Rightarrow> bool) \<Rightarrow> pydict result \<Rightarrow> unit result \<Rightarrow> updater_conf \<Rightarrow> pyval list result list
    \<Rightarrow> updater \<times> http_req list \<times> pyval option \<times> unit result"
where
  "training_session net np_std forecast hash_of mktime raw_input assigned retrieved opened c rounds =
     (let query = HttpGet ''http://127.0.0.1:2401/tennison/thresholds/query'';
          empty = \<lparr>thresholds = [], flows = [], countTypes = [], incoherent = 0\<rparr>
      in (case bindE retrieved (\<lambda>items. retrieve_thresholds items []) of
            Inl e \<Rightarrow> (empty, [query], None, Inl e)
          | Inr m \<Rightarrow>
              (case training net np_std forecast hash_of mktime raw_input c rounds (empty\<lparr>thresholds := m\<rparr>) of
                 (s, reqs, Inl e) \<Rightarrow>
                   (if e = keyboard_interrupt then
                      (case opened of
                         Inl e' \<Rightarrow> (s, query # reqs, None, Inl e')
                       | Inr _ \<Rightarrow> (s, query # reqs, Some (flows_doc assigned s), Inr ()))
                    else (s, query # reqs, None, Inl e))
               | (s, reqs, Inr _) \<Rightarrow> (s, query # reqs, None, Inr ()))))"

text \<open>\<open>init\<close>: the configuration is read from a file first.\<close>

definition updater_init ::
  "updater_conf result \<Rightarrow> (updater_conf \<Rightarrow> updater \<times> http_req list \<times> pyval option \<times> unit result)
    \<Rightarrow> updater \<times> http_req list \<times> pyval option \<times> unit result"
where
  "updater_init load session =
     (case load of
        Inl e \<Rightarrow> (\<lparr>thresholds = [], flows = [], countTypes = [], incoherent = 0\<rparr>, [], None, Inl e)
      | Inr c \<Rightarrow> session c)"

section \<open>Drawing the report\<close>

definition plot_title :: "(pyval \<Rightarrow> string) \<Rightarrow> pyval \<Rightarrow> string result" where
  "plot_title repr_of vs =
     bindE (py_item vs ''sourceIPv4Address'') (\<lambda>s. bindE (py_item vs ''sourceTransportPort'') (\<lambda>sp.
     bindE (py_item vs ''destinationIPv4Address'') (\<lambda>d. bindE (py_item vs ''destinationTransportPort'') (\<lambda>dp.
       Inr (''sourceIPv4Address: '' @ py_str repr_of s @ '' -> sourceTransportPort: '' @ py_str repr_of sp @ [CHR 0x0A] @
            ''destinationIPv4Address: '' @ py_str repr_of d @ '' -> destinationTransportPort: '' @ py_str repr_of dp)))))"

text \<open>One round of the loop: nothing, or the values drawn and the title. Only sequences have a length here.\<close>

definition plot_flow :: "(pyval \<Rightarrow> string) \<Rightarrow> pyval \<Rightarrow> (pyval list \<times> string) list result" where
  "plot_flow repr_of entry =
     bindE (py_item entry ''values'') (\<lambda>vs. bindE (py_item vs ''delta_bps_records'') (\<lambda>rs.
       (case rs of
          PyList xs \<Rightarrow> (if 2 \<le> length xs then bindE (plot_title repr_of vs) (\<lambda>t. Inr [(xs, t)]) else Inr [])
        | _ \<Rightarrow> Inl TypeError)))"

definition visualise :: "(pyval \<Rightarrow> string) \<Rightarrow> pyval \<Rightarrow> (pyval list \<times> string) list result" where
  "visualise repr_of data =
     (case data of
        PyList es \<Rightarrow> bindE (mapE (plot_flow repr_of) es) (\<lambda>pss. Inr (concat pss))
      | _ \<Rightarrow> Inl TypeError)"

section \<open>Properties\<close>

text \<open>The plot of a flow: its rates, and its endpoints in the title.\<close>

definition drawn :: "(pyval \<Rightarrow> string) \<Rightarrow> flow \<Rightarrow> pyval list \<times> string" where
  "drawn repr_of f = (let ((d, src), (dp, sp)) = endpoints f in
     (map PyFloat (delta_bps_records f),
      ''sourceIPv4Address: '' @ py_str repr_of src @ '' -> sourceTransportPort: '' @ py_str repr_of sp @ [CHR 0x0A] @
      ''destinationIPv4Address: '' @ py_str repr_of d @ '' -> destinationTransportPort: '' @ py_str repr_of dp))"

text \<open>
  Every report can be drawn. The script draws one plot, with the rates in their order and the endpoints in the title, for each
  flow of the updater with at least two rates, in the order of the flows, and never fails on a report.
\<close>

theorem report_is_drawn:
  "visualise repr_of (flows_doc assigned s) =
     Inr (map (\<lambda>(h, f). drawn repr_of f) (filter (\<lambda>(h, f). 2 \<le> length (delta_bps_records f)) (flows s)))"
proof -
  have one: "plot_flow repr_of (flow_entry assigned (h, f)) =
      Inr (if 2 \<le> length (delta_bps_records f) then [drawn repr_of f] else [])" for h f
    by (simp add: plot_flow_def flow_entry_def flow_dict_def first_attrs_def rate_list_def plot_title_def drawn_def case_prod_beta
        Let_def)
  have "\<exists>pss. mapE (plot_flow repr_of) (map (flow_entry assigned) fs) = Inr pss \<and>
      concat pss = map (\<lambda>(h, f). drawn repr_of f) (filter (\<lambda>(h, f). 2 \<le> length (delta_bps_records f)) fs)" for fs
    by (induction fs) (auto simp: one)
  from this[of "flows s"] show ?thesis by (auto simp: visualise_def flows_doc_def)
qed

text \<open>
  A report is written exactly if the application was interrupted while it was training and the file can be opened; it has an entry
  for every flow. An interrupt before that, while the old thresholds are read, writes nothing.
\<close>

theorem report_on_interrupt:
  assumes "training_session net np_std forecast hash_of mktime raw_input assigned retrieved opened c rounds = (s, reqs, doc, r)"
  shows "(doc \<noteq> None \<longrightarrow> r = Inr () \<and> doc = Some (flows_doc assigned s) \<and> opened = Inr ()) \<and>
    (r = Inl keyboard_interrupt \<longrightarrow> retrieved = Inl keyboard_interrupt \<or> opened = Inl keyboard_interrupt)"
proof -
  have "retrieve_thresholds items m \<noteq> Inl keyboard_interrupt" for items m
  proof (induction items arbitrary: m)
    case (Cons x items)
    have "float_of v \<noteq> Inl keyboard_interrupt" for v
      by (cases v) (auto simp: keyboard_interrupt_def float_of_string_def unsigned_decimal_def Let_def res_simps
        split: list.split option.split)
    moreover have "py_item v k \<noteq> Inl keyboard_interrupt" for v k
      by (cases v) (auto simp: keyboard_interrupt_def of_option_def split: option.split)
    moreover have "int_of_string t \<noteq> Inl keyboard_interrupt" for t
      by (auto simp: keyboard_interrupt_def int_of_string_def nat_of_string_def of_option_def res_simps split: list.split option.splits)
    ultimately show ?case using Cons by (cases x) (auto simp: res_simps simp del: py_item.simps)
  qed simp
  then show ?thesis using assms
    by (cases retrieved) (auto simp: training_session_def Let_def split: sum.splits prod.splits if_splits)
qed

end
