(* ===== verification/Launchers.thy ===== *)
theory Launchers
  imports Watson_Apps
begin

text \<open>
  The programs that stand between the northbound interface and the applications: \<open>main.py\<close> of each application under
  \<open>coordinator/apps\<close>, the file server \<open>gui-legacy/httpd.py\<close>, and the unfinished \<open>tiered_manager.py\<close>.

  The two operator interfaces are run by a launcher that starts the real program as its child and ends it when it is told to end. The
  interface knows the launcher only. A step relation puts interface, launchers and children together.
\<close>

section \<open>The start scripts\<close>

text \<open>A script finds the modules of its own directory.\<close>

definition import_module :: "string list \<Rightarrow> string \<Rightarrow> unit result" where
  "import_module modules m = (if m \<in> set modules then Inr () else Inl (ExnOther ''ImportError''))"

definition ddos_main :: "string list \<Rightarrow> string \<Rightarrow> (string \<Rightarrow> 'a result) \<Rightarrow> 'a result" where
  "ddos_main modules here app = bindE (import_module modules ''ipfix_ddos'') (\<lambda>_. app (here @ ''/config.json''))"

definition portscan_main :: "string list \<Rightarrow> string \<Rightarrow> (string \<Rightarrow> 'a result) \<Rightarrow> 'a result" where
  "portscan_main modules here app = bindE (import_module modules ''ipfixportscan'') (\<lambda>_. app (here @ ''/config.json''))"

definition updater_main :: "string list \<Rightarrow> 'a result \<Rightarrow> 'a result" where
  "updater_main modules app = bindE (import_module modules ''thresholdUpdater'') (\<lambda>_. app)"

text \<open>The script of the tiered manager is a copy of the first one.\<close>

definition manager_main :: "string list \<Rightarrow> string \<Rightarrow> (string \<Rightarrow> 'a result) \<Rightarrow> 'a result" where
  "manager_main modules here app = bindE (import_module modules ''ipfix_ddos'') (\<lambda>_. app (here @ ''/config.json''))"

definition manager_modules :: "string list" where
  "manager_modules = [''main'', ''tiered_manager'']"

text \<open>The class: the requests sent, and the end of the constructor; it has no method \<open>read_ipfix\<close>.\<close>

definition tiered_manager :: "pyval result \<Rightarrow> unit result \<Rightarrow> string list \<times> unit result" where
  "tiered_manager load registered =
     (case load of
        Inl e \<Rightarrow> ([], Inl e)
      | Inr config \<Rightarrow> ([''http://127.0.0.1:2401/tennison/app/register/tiered-maanger''],
          bindE registered (\<lambda>_. Inl AttributeError)))"

text \<open>\<open>httpd.py\<close>: the outcome of entering the directory and of binding port 80, then the first signal.\<close>

datatype sig = SIGINT | SIGTERM | SIGKILL

definition httpd :: "unit result \<Rightarrow> unit result \<Rightarrow> sig option \<Rightarrow> bool \<times> unit result" where
  "httpd entered bound signal =
     (case bindE entered (\<lambda>_. bound) of
        Inl e \<Rightarrow> (False, Inl e)
      | Inr _ \<Rightarrow>
          (case signal of
             None \<Rightarrow> (True, Inr ())
           | Some sg \<Rightarrow> (False, Inl (if sg = SIGKILL then ExnOther ''killed'' else SystemExit))))"

section \<open>A launcher and its child\<close>

text \<open>
  \<open>gui/main.py\<close> and \<open>gui-legacy/main.py\<close>. The program counter is the next statement: the log file is opened, the child is started, the handlers
  for the two signals are installed one after the other, then the launcher sleeps for ever.
\<close>

datatype main_pc = Booting | Opened | Spawned | IntSet | Ready | Ended

text \<open>
  The process the interface knows: the launcher itself, or a shell in front of it, living or gone. \<open>Popen\<close> with \<open>shell=True\<close> runs the
  launcher through a shell, and it depends on the shell whether it replaces itself.
\<close>

datatype front = Direct | Shell | Gone

record launched =
  l_front :: front
  l_main :: main_pc
  l_child :: bool
  l_log :: bool

definition launch :: "front \<Rightarrow> launched" where
  "launch fr = \<lparr>l_front = fr, l_main = Booting, l_child = False, l_log = False\<rparr>"

definition main_ends :: "launched \<Rightarrow> launched" where
  "main_ends u = u\<lparr>l_main := Ended, l_log := False, l_front := (if l_front u = Shell then Gone else l_front u)\<rparr>"

text \<open>One statement; the argument is the outcome of the system call it makes.\<close>

definition main_statement :: "unit result \<Rightarrow> launched \<Rightarrow> launched" where
  "main_statement outcome u =
     (case l_main u of
        Booting \<Rightarrow> (case outcome of Inl e \<Rightarrow> main_ends u | Inr _ \<Rightarrow> u\<lparr>l_main := Opened, l_log := True\<rparr>)
      | Opened \<Rightarrow> (case outcome of Inl e \<Rightarrow> main_ends u | Inr _ \<Rightarrow> u\<lparr>l_main := Spawned, l_child := True\<rparr>)
      | Spawned \<Rightarrow> u\<lparr>l_main := IntSet\<rparr>
      | IntSet \<Rightarrow> u\<lparr>l_main := Ready\<rparr>
      | Ready \<Rightarrow> u
      | Ended \<Rightarrow> u)"

definition handles :: "main_pc \<Rightarrow> sig \<Rightarrow> bool" where
  "handles pc sg = (case sg of SIGINT \<Rightarrow> pc \<in> {IntSet, Ready} | SIGTERM \<Rightarrow> pc = Ready | SIGKILL \<Rightarrow> False)"

definition cleanup :: "launched \<Rightarrow> launched" where
  "cleanup u = main_ends (u\<lparr>l_child := False\<rparr>)"

definition main_signal :: "sig \<Rightarrow> launched \<Rightarrow> launched" where
  "main_signal sg u =
     (if l_main u = Ended then u else if handles (l_main u) sg then cleanup u else main_ends u)"

text \<open>A signal to the process the interface knows. A shell ends without telling the launcher.\<close>

definition signal_pid :: "sig \<Rightarrow> launched \<Rightarrow> launched" where
  "signal_pid sg u = (case l_front u of Direct \<Rightarrow> main_signal sg u | Shell \<Rightarrow> u\<lparr>l_front := Gone\<rparr> | Gone \<Rightarrow> u)"

section \<open>Interface, launchers and children\<close>

text \<open>
  The launchers are numbered like the processes of the interface. \<open>replaces\<close> tells whether the shell replaces itself. The route stops
  with \<open>kill\<close>, the end of the interface with \<open>terminate\<close>.
\<close>

type_synonym gui_world = "watson \<times> launched list"

datatype gui_event = Start string | Stop string | Statement nat "unit result" | ChildEnds nat | Close

definition ended :: "launched \<Rightarrow> bool" where
  "ended u = (l_front u = Gone \<or> l_main u = Ended)"

fun terminate_all :: "(string \<times> nat) list \<Rightarrow> launched list \<Rightarrow> launched list" where
  "terminate_all [] us = us"
| "terminate_all ((app, pid) # ps) us = terminate_all ps (us[pid := signal_pid SIGTERM (us ! pid)])"

inductive gui_step :: "(string \<times> app_dir) list \<Rightarrow> bool \<Rightarrow> gui_world \<Rightarrow> gui_event \<Rightarrow> gui_world \<Rightarrow> bool"
  for installed :: "(string \<times> app_dir) list" and replaces :: bool
where
  started: "start_app installed app w = (w', Inr (AppPid pid, 200)) \<Longrightarrow>
    gui_step installed replaces (w, us) (Start app) (w', us @ [launch (if replaces then Direct else Shell)])"
| refused: "start_app installed app w = (w, Inr (AppError m, 400)) \<Longrightarrow>
    gui_step installed replaces (w, us) (Start app) (w, us)"
| stopped: "map_of (app_procs w) app = Some pid \<Longrightarrow>
    gui_step installed replaces (w, us) (Stop app) (fst (stop_app app w), us[pid := signal_pid SIGKILL (us ! pid)])"
| statement: "i < length us \<Longrightarrow> u = main_statement outcome (us ! i) \<Longrightarrow>
    gui_step installed replaces (w, us) (Statement i outcome) (if ended u then kill i w else w, us[i := u])"
| child_ends: "i < length us \<Longrightarrow>
    gui_step installed replaces (w, us) (ChildEnds i) (w, us[i := (us ! i)\<lparr>l_child := False\<rparr>])"
| closed: "gui_step installed replaces (w, us) Close (watson_close w, terminate_all (app_procs w) us)"

inductive_cases gui_stepE: "gui_step installed replaces s e s'"

inductive gui_run :: "(string \<times> app_dir) list \<Rightarrow> bool \<Rightarrow> gui_world \<Rightarrow> gui_event list \<Rightarrow> gui_world \<Rightarrow> bool"
  for installed :: "(string \<times> app_dir) list" and replaces :: bool
where
  nil: "gui_run installed replaces s [] s"
| cons: "gui_step installed replaces s e s' \<Longrightarrow> gui_run installed replaces s' es s'' \<Longrightarrow>
    gui_run installed replaces s (e # es) s''"

lemmas gui_intros = gui_step.intros gui_run.intros

section \<open>Lemmas\<close>

definition gui_ok :: "gui_world \<Rightarrow> bool" where
  "gui_ok s \<longleftrightarrow> procs_ok (fst s) \<and> length (snd s) = length (alive (fst s))"

lemma close_procs: "app_procs (watson_close w) = app_procs w" "length (alive (watson_close w)) = length (alive w)"
proof -
  have "app_procs (foldl (\<lambda>s p. kill (snd p) s) w ps) = app_procs w \<and>
      length (alive (foldl (\<lambda>s p. kill (snd p) s) w ps)) = length (alive w)" for ps :: "(string \<times> nat) list"
    by (induction ps arbitrary: w) simp_all
  then show "app_procs (watson_close w) = app_procs w" "length (alive (watson_close w)) = length (alive w)"
    by (simp_all add: watson_close_def)
qed

lemma procs_ok_kill: "procs_ok w \<Longrightarrow> procs_ok (kill i w)"
  using app_step_ok[of w _ "Dies i"] by simp

lemma procs_ok_close: "procs_ok w \<Longrightarrow> procs_ok (watson_close w)"
proof -
  have "procs_ok w \<Longrightarrow> procs_ok (foldl (\<lambda>s p. kill (snd p) s) w ps)" for ps :: "(string \<times> nat) list"
    by (induction ps arbitrary: w) (simp_all add: procs_ok_kill)
  then show "procs_ok w \<Longrightarrow> procs_ok (watson_close w)" by (simp add: watson_close_def)
qed

lemma terminate_all_nth:
  "distinct (map snd ps) \<Longrightarrow> i < length us \<Longrightarrow>
    terminate_all ps us ! i = (if i \<in> snd ` set ps then signal_pid SIGTERM (us ! i) else us ! i)"
proof (induction ps us rule: terminate_all.induct)
  case (2 app pid ps us)
  then show ?case by (cases "pid = i") simp_all
qed simp

lemma terminate_all_length [simp]: "length (terminate_all ps us) = length us"
  by (induction ps us rule: terminate_all.induct) simp_all

lemma start_app_pid:
  "start_app installed app w = (w', Inr (AppPid pid, 200)) \<Longrightarrow>
    w' = w\<lparr>alive := alive w @ [True], app_procs := app_procs w @ [(app, length (alive w))]\<rparr>"
  by (auto simp: start_app_def popen_def values_put_fresh split: if_splits)

lemma gui_step_ok: "gui_step installed replaces s e s' \<Longrightarrow> gui_ok s \<Longrightarrow> gui_ok s'"
proof (induction rule: gui_step.induct)
  case (started app w w' pid us)
  then show ?case using app_step_ok[of w installed "StartApp app"] start_app_pid[OF started(1)] by (simp add: gui_ok_def)
next
  case (stopped w app pid us)
  then show ?case using app_step_ok[of w installed "StopApp app"] by (simp add: gui_ok_def stop_app_def)
next
  case (closed w us)
  then show ?case by (simp add: gui_ok_def procs_ok_close close_procs)
qed (auto simp: gui_ok_def procs_ok_kill)

text \<open>A launcher the interface does not know any more.\<close>

definition detached :: "nat \<Rightarrow> gui_world \<Rightarrow> bool" where
  "detached i s \<longleftrightarrow> i < length (snd s) \<and> i \<notin> snd ` set (app_procs (fst s))"

lemma gui_step_detached:
  "gui_step installed replaces s e s' \<Longrightarrow> gui_ok s \<Longrightarrow> detached i s \<Longrightarrow> detached i s'"
proof (induction rule: gui_step.induct)
  case (started app w w' pid us)
  then show ?case using start_app_pid[OF started(1)] by (auto simp: detached_def gui_ok_def)
next
  case (stopped w app pid us)
  then show ?case by (auto simp: detached_def stop_app_def AList.delete_eq image_iff)
next
  case (closed w us)
  then show ?case by (simp add: detached_def close_procs)
qed (auto simp: detached_def)

lemma statement_child: "l_child u \<Longrightarrow> l_child (main_statement outcome u)"
  by (auto simp: main_statement_def main_ends_def split: main_pc.splits sum.splits)

lemma kill_child: "l_child (signal_pid SIGKILL u) = l_child u"
  by (auto simp: signal_pid_def main_signal_def handles_def main_ends_def split: front.splits)

lemma gui_step_child:
  "gui_step installed replaces s e s' \<Longrightarrow> gui_ok s \<Longrightarrow> detached i s \<Longrightarrow> e \<noteq> ChildEnds i \<Longrightarrow> l_child (snd s ! i) \<Longrightarrow> l_child (snd s' ! i)"
proof (induction rule: gui_step.induct)
  case (closed w us)
  then show ?case by (simp add: detached_def gui_ok_def procs_ok_def terminate_all_nth)
next
  case (stopped w app pid us)
  then show ?case by (cases "pid = i") (simp_all add: detached_def kill_child)
qed (auto simp: detached_def nth_append nth_list_update statement_child)

lemma gui_run_child:
  "gui_run installed replaces s es s' \<Longrightarrow> gui_ok s \<Longrightarrow> detached i s \<Longrightarrow> ChildEnds i \<notin> set es \<Longrightarrow> l_child (snd s ! i) \<Longrightarrow>
    l_child (snd s' ! i) \<and> detached i s'"
proof (induction rule: gui_run.induct)
  case (cons s e s' es s'')
  then show ?case using gui_step_ok gui_step_detached gui_step_child by (metis list.set_intros)
qed simp

section \<open>Properties\<close>

text \<open>
  C24: stopping a running operator interface does not end it. The route for stopping kills the process it started, and
  the launcher cannot handle that: its child stays alive. From then on nothing the interface does ends the child, not
  even its own end, which terminates only what it still knows; the child lives until it ends by itself. Meanwhile
  the application counts as stopped and is started again when asked for.
\<close>

theorem stopped_app_leaves_child:
  assumes "gui_ok (w, us)" "map_of (app_procs w) app = Some pid" "l_child (us ! pid)"
    and "gui_step installed replaces (w, us) (Stop app) s" "gui_run installed replaces s es s'" "ChildEnds pid \<notin> set es"
  shows "l_child (snd s' ! pid) \<and> pid \<notin> snd ` set (app_procs (fst s')) \<and>
    (has_key installed app \<longrightarrow> (\<exists>w' n. start_app installed app (fst s) = (w', Inr (AppPid n, 200)) \<and> n \<noteq> pid))"
proof -
  have s: "s = (fst (stop_app app w), us[pid := signal_pid SIGKILL (us ! pid)])"
    using assms(4,2) by (auto elim: gui_stepE)
  have ok: "gui_ok s" by (rule gui_step_ok[OF assms(4,1)])
  have pid: "pid < length us" using assms(1,2) by (auto simp: gui_ok_def procs_ok_def dest: map_of_SomeD)
  have "snd ` set (app_procs (fst s)) = snd ` set (app_procs w) - {pid}"
    using values_del[OF _ assms(2)] assms(1,2) by (simp add: s stop_app_def gui_ok_def procs_ok_def)
  then have "detached pid s" using pid by (simp add: detached_def s)
  moreover have "l_child (snd s ! pid)" using assms(3) pid by (simp add: s kill_child)
  ultimately have "l_child (snd s' ! pid)" "detached pid s'" using gui_run_child[OF assms(5) ok _ assms(6)] by blast+
  moreover have "start_app installed app (fst s) =
      (snd (popen app (fst s)), Inr (AppPid (length (alive w)), 200))" if "has_key installed app"
    using that assms(2) by (auto simp: s start_app_def stop_app_def popen_def has_key_iff AList.delete_eq kill_def)
  ultimately show ?thesis using pid assms(1) by (auto simp: detached_def gui_ok_def)
qed

definition demo_gui :: gui_world where
  "demo_gui = (\<lparr>applications = [], app_procs = [(''gui'', 0)], alive = [True]\<rparr>,
     [\<lparr>l_front = Direct, l_main = Ready, l_child = True, l_log = True\<rparr>])"

lemma demo_gui_ok: "gui_ok demo_gui"
proof -
  have "living (fst demo_gui) \<subseteq> {0}" by (auto simp: living_def demo_gui_def)
  then show ?thesis by (simp add: gui_ok_def procs_ok_def demo_gui_def)
qed

text \<open>The interface is stopped and then everything is closed: the child of the operator interface is alive.\<close>

theorem stopped_app_leaves_child_witness:
  "\<exists>s s'. gui_step [] True demo_gui (Stop ''gui'') s \<and> gui_run [] True s [Close] s' \<and> l_child (snd s' ! 0)"
proof -
  let ?w = "fst demo_gui" and ?us = "snd demo_gui"
  let ?w1 = "fst (stop_app ''gui'' ?w)" and ?us1 = "?us[0 := signal_pid SIGKILL (?us ! 0)]"
  let ?s = "(?w1, ?us1)" and ?s' = "(watson_close ?w1, terminate_all (app_procs ?w1) ?us1)"
  have app: "map_of (app_procs ?w) ''gui'' = Some 0" by (simp add: demo_gui_def)
  have stop: "gui_step [] True (?w, ?us) (Stop ''gui'') ?s" by (rule gui_step.stopped[OF app])
  have run: "gui_run [] True ?s [Close] ?s'" by (rule gui_run.cons[OF gui_step.closed gui_run.nil])
  have "l_child (snd ?s' ! 0)"
    using stopped_app_leaves_child[OF _ app _ stop run] demo_gui_ok by (simp add: demo_gui_def)
  then show ?thesis using stop run by (metis prod.collapse)
qed

text \<open>
  The end of the interface is right: a launcher that was started directly and has installed its handlers ends its child and closes its log. A launcher that
  is terminated before leaves its child.
\<close>

theorem close_ends_ready_children:
  assumes "gui_ok (w, us)" "gui_step installed replaces (w, us) Close (w', us')"
    and "(app, pid) \<in> set (app_procs w)" "l_front (us ! pid) = Direct" "l_main (us ! pid) \<noteq> Ended"
  shows "l_main (us' ! pid) = Ended \<and> \<not> l_log (us' ! pid) \<and>
    (l_child (us' ! pid) \<longleftrightarrow> l_child (us ! pid) \<and> l_main (us ! pid) \<noteq> Ready)"
proof -
  have "us' = terminate_all (app_procs w) us" using assms(2) by (auto elim: gui_stepE)
  moreover have "pid < length us" "distinct (map snd (app_procs w))" "pid \<in> snd ` set (app_procs w)"
    using assms(1,3) by (force simp: gui_ok_def procs_ok_def)+
  ultimately have "us' ! pid = signal_pid SIGTERM (us ! pid)" by (simp add: terminate_all_nth)
  then show ?thesis using assms(4,5)
    by (auto simp: signal_pid_def main_signal_def handles_def cleanup_def main_ends_def)
qed

theorem close_ends_ready_children_witness:
  "l_child (snd demo_gui ! 0) \<and> \<not> l_child (terminate_all (app_procs (fst demo_gui)) (snd demo_gui) ! 0)"
  using close_ends_ready_children[OF _ gui_step.closed[where installed = "[]" and replaces = True], of "fst demo_gui" "snd demo_gui" "''gui''" 0]
    demo_gui_ok by (simp add: demo_gui_def)

text \<open>The tiered manager cannot run: its script fails at the import, and the class has no method to run.\<close>

theorem tiered_manager_never_runs:
  "manager_main manager_modules here app = Inl (ExnOther ''ImportError'') \<and>
   (\<exists>e. snd (tiered_manager load registered) = Inl e)"
  by (auto simp: manager_main_def import_module_def manager_modules_def tiered_manager_def split: sum.splits)
    (cases registered; simp)

end
