(* ===== verification/Scan_Loop.thy ===== *)
theory Scan_Loop
  imports System Watson_Apps
begin

text \<open>
  The loop closed: the process of the coordinator, the registry of its interface and the port scan detector
  (\<open>coordinator/tennison.py\<close>, \<open>core/watson.py\<close>, \<open>apps/ipfix-port-scan-app/ipfixportscan.py\<close>).

  The detector asks the interface for the alerts stored since its last query, works through them, and posts thresholds back
  to the same process. A round of the detector is taken as one step.
\<close>

section \<open>A round of the detector\<close>

record site =
  s_process :: tennison
  s_registry :: watson
  s_detector :: portscan

abbreviation s_store :: "site \<Rightarrow> store" where "s_store x \<equiv> c_store (t_coord (s_process x))"
abbreviation s_index :: "site \<Rightarrow> ipfix" where "s_index x \<equiv> c_ipfix (t_coord (s_process x))"
abbreviation s_alerts :: "site \<Rightarrow> pydict list" where "s_alerts x \<equiv> c_alerts (t_coord (s_process x))"

text \<open>
  \<open>pick\<close>: the values of the dictionary in the order Python has them, each with the number the detector would draw for it and the time.
  The interface answers every request, and the detector does not look at the status.
\<close>

definition scan_round ::
  "world \<Rightarrow> database \<Rightarrow> (pyval \<Rightarrow> string) \<Rightarrow> int \<Rightarrow> int \<times> int \<times> int \<Rightarrow> int \<Rightarrow> (pydict list \<Rightarrow> (nat \<times> rat \<times> pydict) list) \<Rightarrow> site \<Rightarrow> site"
where
  "scan_round w ins repr_of limit now finished pick x =
     (let (reg, answer) = query_ipfix repr_of ''ipfix-port-scan-app'' now (s_alerts x) finished (s_registry x)
      in (case answer of
            Inr (Records data, _) \<Rightarrow>
              (let (det, reqs, r) = flows_to_port_tracker (\<lambda>_. Inr 200) limit (pick (map snd data)) (s_detector x)
               in \<lparr>s_process = tennison_run w ins (map (Rest True) (List.map_filter deliver reqs)) (s_process x),
                   s_registry = reg, s_detector = det\<rparr>)
          | _ \<Rightarrow> x\<lparr>s_registry := reg\<rparr>))"

section \<open>Lemmas: the answer\<close>

lemma fold_put_distinct:
  "distinct (map f items) \<Longrightarrow> fst ` set data \<inter> f ` set items = {} \<Longrightarrow>
    foldl (\<lambda>data item. dict_put (f item) (g item) data) data items = data @ map (\<lambda>item. (f item, g item)) items"
proof (induction items arbitrary: data)
  case (Cons x items)
  then have "dict_put (f x) (g x) data = data @ [(f x, g x)]" by (intro dict_put_fresh) auto
  then show ?case using Cons.IH[of "data @ [(f x, g x)]"] Cons.prems by auto
qed simp

definition without_id :: "pydict \<Rightarrow> pydict" where
  "without_id item = filter (\<lambda>p. fst p \<noteq> ''_id'') item"

lemma without_id_lookup: "k \<noteq> ''_id'' \<Longrightarrow> map_of (without_id item) k = map_of item k"
  by (induction item) (auto simp: without_id_def)

lemma answer_is_fresh:
  assumes "last_ipfix app reg = Some l" "distinct (map (alert_id repr_of) (filter (newer ''ipfix'' (PyTime l)) alerts))"
  shows "\<exists>reg'. query_ipfix repr_of app now alerts finished reg =
      (reg', Inr (Records (map (\<lambda>item. (alert_id repr_of item, without_id item)) (filter (newer ''ipfix'' (PyTime l)) alerts)), 200)) \<and>
    last_ipfix app reg' = Some finished"
  using query_ipfix_known[OF assms(1), of repr_of now alerts finished]
    fold_put_distinct[OF assms(2), of "[]" without_id] by (simp add: without_id_def)

section \<open>Lemmas: the requests arrive\<close>

text \<open>Thresholds under new ids are all in the table afterwards, and nothing else has changed.\<close>

definition add_event :: "string \<times> pydict \<Rightarrow> event" where
  "add_event = (\<lambda>(i, d). Rest True (AddThr Ipfix i (json_post (PyDict d))))"

definition entry_of :: "store \<Rightarrow> (string \<times> pydict) list \<Rightarrow> store \<Rightarrow> nat \<Rightarrow> bool" where
  "entry_of s es s' b \<longleftrightarrow> b \<in> set (map snd (ipfix_thr s)) \<and> heap s' b = heap s b \<or> (\<exists>d \<in> snd ` set es. heap s' b = PyDict d)"

lemma add_one:
  assumes "t_running t" "wf_store (c_store (t_coord t))" "dumpable (c_store (t_coord t))"
    and "\<forall>x \<in> set (required Ipfix). has_key d x" "\<not> has_key (ipfix_thr (c_store (t_coord t))) (PyStr i)"
  shows "let s = c_store (t_coord t); t' = tennison_step w ins t (add_event (i, d)); s' = c_store (t_coord t') in
    t_running t' \<and> t_coord t' = (t_coord t)\<lparr>c_store := s'\<rparr> \<and> wf_store s' \<and> dumpable s' \<and>
    ipfix_thr s' = ipfix_thr s @ [(PyStr i, next_addr s)] \<and> heap s' = (heap s)(next_addr s := PyDict d)"
proof -
  have n: "wf_store (nbi_store (t_nbi t))" "dumpable (nbi_store (t_nbi t))" "\<not> has_key (thr Ipfix (nbi_store (t_nbi t))) (PyStr i)"
    using assms by (simp_all add: t_nbi_def)
  obtain n' where n': "nbi_handle True (AddThr Ipfix i (json_post (PyDict d))) (t_nbi t) = (n', Inr (Success, 200))"
    "wf_store (nbi_store n')" "dumpable (nbi_store n')"
    "thr Ipfix (nbi_store n') = dict_put (PyStr i) (next_addr (nbi_store (t_nbi t))) (thr Ipfix (nbi_store (t_nbi t)))"
    "heap (nbi_store n') = (heap (nbi_store (t_nbi t)))(next_addr (nbi_store (t_nbi t)) := PyDict d)"
    using threshold_added[OF n assms(4)] unfolding Let_def by blast
  have "PyStr i \<notin> fst ` set (ipfix_thr (c_store (t_coord t)))" using assms(5) by (simp add: has_key_iff)
  then show ?thesis using n' assms(1) by (simp add: add_event_def Let_def with_nbi_def t_nbi_def dict_put_fresh)
qed

lemma adds_applied:
  assumes "t_running t" "wf_store (c_store (t_coord t))" "dumpable (c_store (t_coord t))"
    and "\<forall>(i, d) \<in> set es. (\<forall>x \<in> set (required Ipfix). has_key d x) \<and> \<not> has_key (ipfix_thr (c_store (t_coord t))) (PyStr i)"
    and "distinct (map fst es)"
  shows "let s = c_store (t_coord t); t' = tennison_run w ins (map add_event es) t; s' = c_store (t_coord t') in
    t_running t' \<and> t_coord t' = (t_coord t)\<lparr>c_store := s'\<rparr> \<and> wf_store s' \<and> dumpable s' \<and>
    fst ` set (ipfix_thr s') = fst ` set (ipfix_thr s) \<union> PyStr ` fst ` set es \<and>
    (\<forall>b \<in> set (map snd (ipfix_thr s')). entry_of s es s' b) \<and>
    (\<forall>b \<in> set (map snd (ipfix_thr s)). b \<in> set (map snd (ipfix_thr s')) \<and> heap s' b = heap s b) \<and>
    (\<forall>d \<in> snd ` set es. \<exists>b \<in> set (map snd (ipfix_thr s')). heap s' b = PyDict d)"
  using assms
proof (induction es arbitrary: t)
  case Nil
  then show ?case by (simp add: tennison_run_def entry_of_def)
next
  case (Cons e es)
  obtain i d where e: "e = (i, d)" by (cases e)
  define s where "s = c_store (t_coord t)"
  define t1 where "t1 = tennison_step w ins t (add_event (i, d))"
  define s1 where "s1 = c_store (t_coord t1)"
  have fresh: "\<forall>x \<in> set (required Ipfix). has_key d x" "\<not> has_key (ipfix_thr s) (PyStr i)" using Cons.prems(4) by (simp_all add: e s_def)
  have one: "t_running t1" "t_coord t1 = (t_coord t)\<lparr>c_store := s1\<rparr>" "wf_store s1" "dumpable s1"
    "ipfix_thr s1 = ipfix_thr s @ [(PyStr i, next_addr s)]" "heap s1 = (heap s)(next_addr s := PyDict d)"
    using add_one[OF Cons.prems(1-3) fresh[unfolded s_def], of w ins] by (simp_all add: Let_def s_def t1_def s1_def)
  have "\<forall>(j, c) \<in> set es. (\<forall>x \<in> set (required Ipfix). has_key c x) \<and> \<not> has_key (ipfix_thr s1) (PyStr j)"
  proof (intro ballI, clarify)
    fix j c assume j: "(j, c) \<in> set es"
    then have "j \<noteq> i" using Cons.prems(5) by (force simp: e)
    then show "(\<forall>x \<in> set (required Ipfix). has_key c x) \<and> \<not> has_key (ipfix_thr s1) (PyStr j)"
      using Cons.prems(4) j by (auto simp: one(5) s_def has_key_iff)
  qed
  note rest = this
  define t2 where "t2 = tennison_run w ins (map add_event es) t1"
  define s2 where "s2 = c_store (t_coord t2)"
  have "distinct (map fst es)" using Cons.prems(5) by simp
  note IH = Cons.IH[OF one(1) one(3,4)[unfolded s1_def] rest[unfolded s1_def] this, folded t2_def, unfolded Let_def, folded s1_def s2_def]
  note t2 = refl refl IH[THEN conjunct1] IH[THEN conjunct2, THEN conjunct1] IH[THEN conjunct2, THEN conjunct2, THEN conjunct1]
    IH[THEN conjunct2, THEN conjunct2, THEN conjunct2, THEN conjunct1]
  have t2_keys: "fst ` set (ipfix_thr s2) = fst ` set (ipfix_thr s1) \<union> PyStr ` fst ` set es"
    and t2_entries: "\<forall>b \<in> set (map snd (ipfix_thr s2)). entry_of s1 es s2 b"
    and t2_kept: "\<forall>b \<in> set (map snd (ipfix_thr s1)). b \<in> set (map snd (ipfix_thr s2)) \<and> heap s2 b = heap s1 b"
    and t2_new: "\<forall>d \<in> snd ` set es. \<exists>b \<in> set (map snd (ipfix_thr s2)). heap s2 b = PyDict d"
    using IH by blast+
  have run: "tennison_run w ins (map add_event (e # es)) t = t2" by (simp add: tennison_run_Cons e t1_def t2_def)
  have old: "heap s1 b = heap s b" if "b \<in> set (map snd (ipfix_thr s))" for b
    using that Cons.prems(2) by (force simp: one(6) s_def wf_store_def wf_table_def)
  have keys: "fst ` set (ipfix_thr s2) = fst ` set (ipfix_thr s) \<union> PyStr ` fst ` set (e # es)"
    by (auto simp: t2_keys one(5) e)
  have entries: "entry_of s (e # es) s2 b" if b: "b \<in> set (map snd (ipfix_thr s2))" for b
  proof -
    have "entry_of s1 es s2 b" using t2_entries b by blast
    then consider "b \<in> set (map snd (ipfix_thr s))" "heap s2 b = heap s1 b" | "b = next_addr s" "heap s2 b = heap s1 b"
      | "\<exists>d \<in> snd ` set es. heap s2 b = PyDict d" by (auto simp: entry_of_def one(5))
    then show ?thesis by cases (auto simp: entry_of_def old one(6) e)
  qed
  have kept: "b \<in> set (map snd (ipfix_thr s2)) \<and> heap s2 b = heap s b" if b: "b \<in> set (map snd (ipfix_thr s))" for b
    using t2_kept old[OF b] b by (auto simp: one(5))
  have here: "next_addr s \<in> set (map snd (ipfix_thr s2)) \<and> heap s2 (next_addr s) = PyDict d"
    using t2_kept by (simp add: one(5,6))
  have new: "\<exists>b \<in> set (map snd (ipfix_thr s2)). heap s2 b = PyDict c" if "c \<in> snd ` set (e # es)" for c
  proof -
    have "c = d \<or> c \<in> snd ` set es" using that by (auto simp: e)
    then show ?thesis using t2_new here by blast
  qed
  have coord: "t_coord t2 = (t_coord t)\<lparr>c_store := s2\<rparr>" using t2(4) one(2) by simp
  show ?case unfolding run Let_def s_def[symmetric] s2_def[symmetric]
    by (intro conjI ballI coord keys entries kept new t2)
qed

section \<open>Lemmas: the engine takes up the table\<close>

text \<open>Several thresholds with the same value may match; whichever is chosen, its value is the same.\<close>

lemma same_value:
  assumes "heap s b = heap s a"
  shows "direct_match w s msg b = direct_match w s msg a" "priority_of s b = priority_of s a"
proof -
  have "state_matches w s msg b = state_matches w s msg a" "mask_keys (heap s b) = mask_keys (heap s a)"
    using assms by (simp_all only: state_matches_def)
  then show "direct_match w s msg b = direct_match w s msg a" by (simp add: direct_match_def cong: if_cong)
  show "priority_of s b = priority_of s a" using assms by (simp add: priority_of_def)
qed

lemma value_preferred:
  assumes "index_ok s ix" "a \<in> set (map snd (loaded ix))" "direct_match w s msg a = Inr True"
    and "priority_of s a = Some (of_int p)"
    and "\<forall>b \<in> set (map snd (loaded ix)). heap s b = heap s a \<or> out_of_the_way w s msg p b"
  shows "\<exists>ms c. find_mask_match w s ix msg = Inr (Some ms) \<and> find_highest_priority_match s ms = Inr c \<and> heap s c = heap s a"
proof -
  have "\<exists>x. direct_match w s msg b = Inr x" if "b \<in> set (map snd (loaded ix))" for b
    using assms(3,5) that same_value(1)[of s b a w msg] by (auto simp: out_of_the_way_def)
  then obtain found where found: "find_mask_match w s ix msg = Inr found"
    "mset (case found of None \<Rightarrow> [] | Some ms \<Rightarrow> ms) =
      mset (filter (\<lambda>a. direct_match w s msg a = Inr True) (map snd (loaded ix)))"
    using index_ok_equivalent[OF assms(1), of w msg] by (cases "find_mask_match w s ix msg") force+
  have members: "set (case found of None \<Rightarrow> [] | Some ms \<Rightarrow> ms) =
      {b \<in> set (map snd (loaded ix)). direct_match w s msg b = Inr True}"
    using arg_cong[OF found(2), of set_mset] by simp
  then obtain ms where ms: "found = Some ms" using assms(2,3) by (cases found) auto
  have a: "a \<in> set ms" using members assms(2,3) ms by simp
  have each: "heap s b = heap s a \<or> (\<exists>q. priority_of s b = Some q \<and> q < of_int p)" if "b \<in> set ms" for b
  proof -
    have "b \<in> set (map snd (loaded ix))" "direct_match w s msg b = Inr True" using members ms that by auto
    then show ?thesis using assms(5) by (fastforce simp: out_of_the_way_def)
  qed
  obtain h rest where cons: "ms = h # rest" using a by (cases ms) auto
  let ?p = "\<lambda>m. the (priority_of s m)"
  have "\<exists>q. priority_of s m = Some q" if "m \<in> set (h # rest)" for m
    using each[of m] that assms(4) same_value(2)[of s m a] cons by (auto simp: priority_of_def)
  then have choice: "find_highest_priority_match s ms = Inr (first_max ?p h ms)"
    using find_highest_first_max unfolding cons by blast
  have top: "first_max ?p h ms \<in> set ms" "?p a \<le> ?p (first_max ?p h ms)"
    using first_max_in[of ?p h ms] first_max_ge[of a h ms ?p] a unfolding cons by auto
  then have "heap s (first_max ?p h ms) = heap s a" using each[OF top(1)] assms(4) by fastforce
  then show ?thesis using found(1) ms choice by blast
qed

lemma table_decides:
  assumes "wf_store s" "wf_dict (loaded ix)" "has_key (ipfix_thr s) k" "\<not> has_key (loaded ix) k"
    and "a \<in> set (map snd (ipfix_thr s))" "direct_match w s msg a = Inr True" "priority_of s a = Some (of_int p)"
    and "\<forall>b \<in> set (map snd (ipfix_thr s)). heap s b = heap s a \<or> out_of_the_way w s msg p b"
    and "map_of msg ''type'' = Some (PyStr ''ipfix'')" "recognised msg" "record_flow now later msg ix = (ix2, Inr stats)"
  shows "\<exists>c ix'. heap s c = heap s a \<and> handle_message w now later msg s ix =
    (case decide_on w s c msg stats of (s', reqs, r) \<Rightarrow> (s', ix', reqs, r))"
proof -
  have "\<exists>ks. mask_keys (heap s b) = Inr ks" if "b \<in> set (map snd (ipfix_thr s))" for b
  proof -
    have "\<exists>x. direct_match w s msg b = Inr x"
      using assms(6,8) that same_value(1)[of s b a w msg] by (auto simp: out_of_the_way_def)
    then show ?thesis by (auto simp: direct_match_def res_simps)
  qed
  then obtain m where m: "reload_masks s ix = (ix\<lparr>loaded := ipfix_thr s, masks := m\<rparr>, Inr ())"
    "index_ok s (ix\<lparr>loaded := ipfix_thr s, masks := m\<rparr>)"
    using reload_succeeds[OF assms(2,1,4,3)] by blast
  define j where "j = ix2\<lparr>loaded := ipfix_thr s, masks := m\<rparr>"
  have j: "index_ok s j" "loaded j = ipfix_thr s" using m(2) by (simp_all add: j_def index_ok_def)
  obtain ms c where c: "find_mask_match w s j msg = Inr (Some ms)" "find_highest_priority_match s ms = Inr c" "heap s c = heap s a"
    using value_preferred[OF j(1) _ assms(6,7)] assms(5,8) unfolding j(2) by blast
  note decided = ipfix_decide_chosen[OF c(1,2), of stats]
  have "handle_message w now later msg s ix = (case decide_on w s c msg stats of (s', reqs, r) \<Rightarrow> (s', j, reqs, r))"
    using assms(9,10) m(1) record_flow_frame[OF assms(11), where l = "ipfix_thr s" and m = m] decided
    by (simp add: handle_message_def ipfix_handle_def j_def split: prod.split)
  then show ?thesis using c(3) by blast
qed

section \<open>Lemmas: what a round adds\<close>

definition scan_id :: "string \<Rightarrow> nat \<Rightarrow> string" where
  "scan_id kind i = ''portscan_'' @ kind @ ''_'' @ nat_str i"

definition block_entries :: "nat \<times> pyval \<times> l3flow \<Rightarrow> (string \<times> pydict) list" where
  "block_entries = (\<lambda>(i, src, key).
     [(scan_id ''prefix'' i, block_payload ''prefix'' src), (scan_id ''interfix'' i, block_payload ''interfix'' src)])"

lemma requests_delivered:
  "map (Rest True) (List.map_filter deliver (concat (map block_pair due))) = map add_event (concat (map block_entries due))"
proof (induction due)
  case (Cons x due)
  obtain i src key where x: "x = (i, src, key)" by (cases x) auto
  have "List.map_filter deliver (block_pair x @ reqs) =
      map (\<lambda>(i, d). AddThr Ipfix i (json_post (PyDict d))) (block_entries x) @ List.map_filter deliver reqs" for reqs
    by (simp add: x block_pair_def block_entries_def block_delivered scan_id_def List.map_filter_def)
  then show ?case using Cons by (simp add: x block_entries_def add_event_def)
qed (simp add: List.map_filter_def)

lemma scan_id_inj: "scan_id ''prefix'' i \<noteq> scan_id ''interfix'' j" "scan_id kind i = scan_id kind j \<longleftrightarrow> i = j"
  by (simp_all add: scan_id_def nat_str_inj)

lemma entry_ids: "fst ` set (concat (map block_entries due)) = (\<Union>i \<in> fst ` set due. {scan_id ''prefix'' i, scan_id ''interfix'' i})"
proof -
  have "fst ` set (block_entries x) = {scan_id ''prefix'' (fst x), scan_id ''interfix'' (fst x)}" for x
    by (cases x) (simp add: block_entries_def)
  then show ?thesis by (simp add: image_UN)
qed

lemma entries_distinct: "distinct (map fst due) \<Longrightarrow> distinct (map fst (concat (map block_entries due)))"
proof (induction due)
  case (Cons x due)
  obtain i src key where x: "x = (i, src, key)" by (cases x) auto
  have "scan_id ''prefix'' i \<notin> fst ` set (concat (map block_entries due))" "scan_id ''interfix'' i \<notin> fst ` set (concat (map block_entries due))"
    using Cons.prems unfolding entry_ids by (auto simp: x scan_id_inj scan_id_inj(1)[symmetric])
  then show ?case using Cons by (auto simp: x block_entries_def scan_id_inj)
qed simp

lemma entries_required: "(i, d) \<in> set (concat (map block_entries due)) \<Longrightarrow> x \<in> set (required Ipfix) \<Longrightarrow> has_key d x"
  by (auto simp: block_entries_def block_payload_def required_def)

text \<open>What the detector reads of a record.\<close>

definition reads :: "pydict \<Rightarrow> string \<Rightarrow> string \<Rightarrow> pyval \<Rightarrow> bool" where
  "reads item a b p \<longleftrightarrow> map_of item ''sourceIPv4Address'' = Some (PyStr a) \<and>
     map_of item ''destinationIPv4Address'' = Some (PyStr b) \<and>
     (\<exists>v. map_of item ''destinationTransportPort'' = Some v \<and> hash_key v = Inr p)"

definition readable :: "pydict \<Rightarrow> bool" where
  "readable item \<longleftrightarrow> (\<exists>a b p. reads item a b p \<and> CHR ''/'' \<notin> set a)"

lemma reads_without_id: "reads (without_id item) a b p = reads item a b p"
  by (simp add: reads_def without_id_lookup)

lemma readable_without_id: "readable (without_id item) = readable item"
  by (simp add: readable_def reads_without_id)

lemma list_all2_exists: "(\<forall>x \<in> set xs. \<exists>y. R x y) \<Longrightarrow> \<exists>ys. list_all2 R xs ys"
proof -
  assume "\<forall>x \<in> set xs. \<exists>y. R x y"
  then obtain f where "\<forall>x \<in> set xs. R x (f x)" by metis
  then have "list_all2 R xs (map f xs)" by (induction xs) auto
  then show ?thesis by blast
qed

lemma list_all2_partners:
  "list_all2 R xs ys \<Longrightarrow> y \<in> set ys \<Longrightarrow> \<exists>x \<in> set xs. R x y"
  "list_all2 R xs ys \<Longrightarrow> x \<in> set xs \<Longrightarrow> \<exists>y \<in> set ys. R x y"
  by (induction rule: list_all2_induct) auto

text \<open>A round over readable records: the treatments, and who is treated.\<close>

lemma detector_round:
  assumes "portscan_ok limit ps" "\<forall>(i, now, flow) \<in> set flows. readable flow" "distinct (map fst flows)"
  shows "\<exists>ps' due. flows_to_port_tracker (\<lambda>_. Inr 200) limit flows ps = (ps', concat (map block_pair due), Inr ()) \<and>
    portscan_ok limit ps' \<and> distinct (map fst due) \<and> fst ` set due \<subseteq> fst ` set flows \<and>
    (\<forall>(i, src, key) \<in> set due. \<exists>a b. src = PyStr a \<and> CHR ''/'' \<notin> set a \<and> key = (PyStr a, PyStr b)) \<and>
    (\<forall>a b. limit < int (card {p. \<exists>(i, now, flow) \<in> set flows. reads flow a b p}) \<longrightarrow>
       (PyStr a, PyStr b) \<notin> set (treated_flows ps) \<longrightarrow> (\<exists>i. (i, PyStr a, (PyStr a, PyStr b)) \<in> set due))"
proof -
  let ?R = "\<lambda>(i :: nat, now :: rat, flow) (src, key, p). \<exists>a b. reads flow a b p \<and> CHR ''/'' \<notin> set a \<and> src = PyStr a \<and> key = (PyStr a, PyStr b)"
  have "\<forall>x \<in> set flows. \<exists>y. ?R x y" using assms(2) by (fastforce simp: readable_def)
  then obtain fs where fs: "list_all2 ?R flows fs" using list_all2_exists[of flows ?R] by blast
  have usable: "list_all2 (\<lambda>(i, now, flow) (src, key, port). usable_flow flow src key port) flows fs"
    by (rule list_all2_mono[OF fs]) (auto simp: usable_flow_def reads_def)
  have from_fs: "\<exists>a b. src = PyStr a \<and> CHR ''/'' \<notin> set a \<and> key = (PyStr a, PyStr b)" if "(src, key, p) \<in> set fs" for src key p
    using list_all2_partners(1)[OF fs that] by auto
  have into_fs: "(PyStr a, (PyStr a, PyStr b), p) \<in> set fs" if item: "(i, now, flow) \<in> set flows" "reads flow a b p" for i now flow a b p
  proof -
    obtain y where y: "y \<in> set fs" "?R (i, now, flow) y"
      using list_all2_partners(2)[OF fs item(1)] by blast
    then show ?thesis using item(2) by (cases y) (auto simp: reads_def)
  qed
  obtain ps' due where run: "flows_to_port_tracker (\<lambda>_. Inr 200) limit flows ps = (ps', concat (map block_pair due), Inr ())"
    "portscan_ok limit ps'" "\<forall>key. ports_used ps' key = ports_used ps key \<union> {port. \<exists>src. (src, key, port) \<in> set fs}"
    "treated_flows ps' = treated_flows ps @ map (\<lambda>(i, src, key). key) due"
    "\<forall>(i, src, key) \<in> set due. (\<exists>port. (src, key, port) \<in> set fs) \<and> int (card (ports_used ps' key)) > limit"
    "set (map fst due) \<subseteq> set (map fst flows)" "distinct (map fst flows) \<longrightarrow> distinct (map fst due)"
    using tracker_run[OF assms(1) _ usable, of "\<lambda>_. Inr 200"] by blast
  have who: "\<exists>a b. src = PyStr a \<and> CHR ''/'' \<notin> set a \<and> key = (PyStr a, PyStr b)" if "(i, src, key) \<in> set due" for i src key
    using run(5) that from_fs by blast
  have "\<exists>i. (i, PyStr a, (PyStr a, PyStr b)) \<in> set due"
    if many: "limit < int (card {p. \<exists>(i, now, flow) \<in> set flows. reads flow a b p})" and new: "(PyStr a, PyStr b) \<notin> set (treated_flows ps)" for a b
  proof -
    let ?k = "(PyStr a, PyStr b)"
    have "{p. \<exists>(i, now, flow) \<in> set flows. reads flow a b p} \<subseteq> ports_used ps' ?k" using run(3) into_fs by fastforce
    moreover have "finite (ports_used ps' ?k)" by (simp add: ports_used_def split: option.split)
    ultimately have "limit < int (card (ports_used ps' ?k))" using many card_mono by (meson less_le_trans of_nat_mono)
    then have "?k \<in> set (treated_flows ps')" using run(2) by (simp add: portscan_ok_def)
    then obtain i src where "(i, src, ?k) \<in> set due" using new run(4) by auto
    then show ?thesis using who by fastforce
  qed
  then show ?thesis using run(1,2,6,7) assms(3) who by (intro exI[of _ ps'] exI[of _ due]) auto
qed

text \<open>A threshold of the detector matches a message of its own address and subtype, and no other.\<close>

lemma block_entry_matches:
  assumes "heap s b = PyDict (block_payload kind' (PyStr a'))" "CHR ''/'' \<notin> set a'"
    and "flow_message ''sourceIPv4Address'' a kind msg"
  shows "direct_match w s msg b = Inr (a' = a \<and> kind' = kind)"
proof -
  have "map_of msg ''sourceIPv4Address'' = Some (PyStr a)" "map_of msg ''subtype'' = Some (PyStr kind)"
    using assms(3) by (simp_all add: flow_message_def)
  moreover have "test_field w ''sourceIPv4Address'' (PyStr a) (PyStr a') = Inr (a' = a)"
    using assms(2) by (simp add: test_field_def test_ip_address_def is_infix_char)
  ultimately show ?thesis using assms(1)
    by (auto simp: direct_match_def mask_keys_def mask_applies_def state_matches_def test_match_similarity_def test_subtype_def
        block_payload_def has_key_def)
qed

lemma address_policy_decides:
  assumes "heap s a = PyDict d" "address_policy k addr subtype p t d" "map_of treatment_methods t = Some (meth, modul)"
  shows "\<exists>s'. decide_on w s a msg stats = (s', [HttpGet (onos_url (rpc_conf w) modul meth @ ''/'' @ address_path k addr)], Inr ())"
proof -
  have "map_of d ''treatment_fields'' = Some (PyDict [(k, PyStr addr)])" "\<not> has_key d ''metric''"
    using assms(2) by (simp_all add: address_policy_def)
  then have "py_item (PyDict d) ''treatment_fields'' = Inr (PyDict [(k, PyStr addr)])" "has_key d ''treatment_fields''"
    "check_threshold stats (heap s a) = Inr True"
    using assms(1) by (simp_all add: has_key_def check_threshold_def)
  then show ?thesis using address_policy_treats[OF assms] by (auto simp: decide_on_def assms(1) simp del: py_item.simps)
qed

text \<open>The table holds the old thresholds and those of a round; a message of a treated source is decided by one of the latter.\<close>

lemma treated_is_blocked:
  assumes "wf_store s'" "wf_dict (loaded ix)" "has_key (ipfix_thr s') k" "\<not> has_key (loaded ix) k"
    and "\<forall>b \<in> set (map snd (ipfix_thr s')). entry_of s (concat (map block_entries due)) s' b"
    and "\<forall>d \<in> snd ` set (concat (map block_entries due)). \<exists>b \<in> set (map snd (ipfix_thr s')). heap s' b = PyDict d"
    and "\<forall>(i, src, key) \<in> set due. \<exists>a b. src = PyStr a \<and> CHR ''/'' \<notin> set a \<and> key = (PyStr a, PyStr b)"
    and "(i, PyStr a, key) \<in> set due" "kind \<in> {''prefix'', ''interfix''}" "flow_message ''sourceIPv4Address'' a kind msg"
    and "\<forall>b \<in> set (map snd (ipfix_thr s)). out_of_the_way w s msg 10 b" "record_flow now later msg ix = (ix2, Inr stats)"
  shows "\<exists>s'' ix'. handle_message w now later msg s' ix =
    (s'', ix', [HttpGet (onos_url (rpc_conf w) ''block'' ''add'' @ ''/'' @ a @ ''/*/*/*/*'')], Inr ())"
proof -
  let ?d = "block_payload kind (PyStr a)"
  have a: "CHR ''/'' \<notin> set a" using assms(7,8) by fastforce
  have "?d \<in> snd ` set (block_entries (i, PyStr a, key))" using assms(9) by (auto simp: block_entries_def)
  then have "?d \<in> snd ` set (concat (map block_entries due))" using assms(8) by auto
  then obtain b where b: "b \<in> set (map snd (ipfix_thr s'))" "heap s' b = PyDict ?d" using assms(6) by blast
  have dm: "direct_match w s' msg b = Inr True" using block_entry_matches[OF b(2) a assms(10)] by simp
  have others: "heap s' c = heap s' b \<or> out_of_the_way w s' msg 10 c" if c: "c \<in> set (map snd (ipfix_thr s'))" for c
  proof -
    consider (old) "c \<in> set (map snd (ipfix_thr s))" "heap s' c = heap s c"
      | (new) j src key' kind' where "(j, src, key') \<in> set due" "heap s' c = PyDict (block_payload kind' src)"
      using assms(5) c by (fastforce simp: entry_of_def block_entries_def)
    then show ?thesis
    proof cases
      case old
      then have "out_of_the_way w s msg 10 c" using assms(11) by blast
      then show ?thesis using direct_match_heap[OF old(2)] priority_of_heap[OF old(2)] by (simp add: out_of_the_way_def)
    next
      case new
      obtain a' where a': "src = PyStr a'" "CHR ''/'' \<notin> set a'" using assms(7) new(1) by fastforce
      have "direct_match w s' msg c = Inr (a' = a \<and> kind' = kind)"
        using block_entry_matches[OF new(2)[unfolded a'(1)] a'(2) assms(10)] .
      then show ?thesis using new(2) b(2) a'(1) by (auto simp: out_of_the_way_def)
    qed
  qed
  have "priority_of s' b = Some (of_int 10)" by (simp add: priority_of_def b(2) block_payload_def)
  then obtain c ix' where c: "heap s' c = PyDict ?d"
    "handle_message w now later msg s' ix = (case decide_on w s' c msg stats of (s'', reqs, r) \<Rightarrow> (s'', ix', reqs, r))"
    using table_decides[OF assms(1-4) b(1) dm _ _ _ _ assms(12)] others assms(10) b(2) by (auto simp: flow_message_def)
  have tr: "map_of treatment_methods ''block'' = Some (''add'', ''block'')" by (simp add: treatment_methods_def)
  have path: "''/'' @ address_path ''sourceIPv4Address'' a = ''/'' @ a @ ''/*/*/*/*''"
    by (simp add: address_path_def onos_keys_def join_def)
  show ?thesis using c(2) address_policy_decides[OF c(1) block_policy[OF a assms(9)] tr, of w msg stats]
    unfolding path by auto
qed

section \<open>Properties\<close>

text \<open>
  C1: a scan that is in the stored alerts is stopped. Let the alerts stored since the detector's last query be readable, and let one address
  have used more ports of another than the limit among them, the pair not being treated yet. Then the next round of the detector goes through,
  whatever the order of the records; the process runs on and has sent nothing; and from then on the
  first message of the subtype \<open>prefix\<close> or \<open>interfix\<close> from that address makes it ask ONOS, with exactly one request, to block the
  address, unless a threshold from before that matches the message has the priority 10 or more. The numbers drawn for the thresholds
  have to be new: the interface refuses an id that is taken, and the detector does not notice.
\<close>

theorem scan_is_stopped:
  assumes "t_running (s_process x)" "wf_store (s_store x)" "dumpable (s_store x)" "wf_dict (loaded (s_index x))"
    and "portscan_ok limit (s_detector x)" "last_ipfix ''ipfix-port-scan-app'' (s_registry x) = Some l"
    and "fresh = filter (newer ''ipfix'' (PyTime l)) (s_alerts x)" "distinct (map (alert_id repr_of) fresh)" "\<forall>item \<in> set fresh. readable item"
    and "\<And>rs. set (map (snd \<circ> snd) (pick rs)) = set rs" "\<And>rs. distinct (map fst (pick rs))"
    and "\<And>rs i kind. i \<in> fst ` set (pick rs) \<Longrightarrow> kind \<in> {''prefix'', ''interfix''} \<Longrightarrow>
      \<not> has_key (ipfix_thr (s_store x)) (PyStr (scan_id kind i)) \<and> \<not> has_key (loaded (s_index x)) (PyStr (scan_id kind i))"
    and "limit < int (card {p. \<exists>item \<in> set fresh. reads item a b p})" "(PyStr a, PyStr b) \<notin> set (treated_flows (s_detector x))"
  shows "let x' = scan_round w ins repr_of limit now finished pick x in
    t_running (s_process x') \<and> s_alerts x' = s_alerts x \<and> c_sent (t_coord (s_process x')) = c_sent (t_coord (s_process x)) \<and>
    portscan_ok limit (s_detector x') \<and>
    (\<forall>kind \<in> {''prefix'', ''interfix''}. \<forall>msg msg' tm later ix2 stats.
       flow_message ''sourceIPv4Address'' a kind msg' \<longrightarrow> (\<forall>b \<in> set (map snd (ipfix_thr (s_store x))). out_of_the_way w (s_store x) msg' 10 b) \<longrightarrow>
       ins (s_alerts x) msg = (msg', Inr ()) \<longrightarrow> record_flow tm later msg' (s_index x) = (ix2, Inr stats) \<longrightarrow>
       (let t = tennison_step w ins (s_process x') (Received tm later msg)
        in t_running t \<and> c_sent (t_coord t) = c_sent (t_coord (s_process x)) @
             [HttpGet (onos_url (rpc_conf w) ''block'' ''add'' @ ''/'' @ a @ ''/*/*/*/*'')]))"
proof -
  let ?rs = "map without_id fresh"
  define t where "t = s_process x"
  obtain reg where q: "query_ipfix repr_of ''ipfix-port-scan-app'' now (s_alerts x) finished (s_registry x) =
      (reg, Inr (Records (map (\<lambda>item. (alert_id repr_of item, without_id item)) fresh), 200))"
    using answer_is_fresh[OF assms(6) assms(8)[unfolded assms(7)], of now finished] unfolding assms(7) by blast
  have records: "map snd (map (\<lambda>item. (alert_id repr_of item, without_id item)) fresh) = ?rs" by simp
  have picked: "(\<exists>(i, tm, flow) \<in> set (pick ?rs). P flow) \<longleftrightarrow> (\<exists>item \<in> set fresh. P (without_id item))" for P
  proof -
    have "(\<exists>(i, tm, flow) \<in> set (pick ?rs). P flow) \<longleftrightarrow> (\<exists>flow \<in> set (map (snd \<circ> snd) (pick ?rs)). P flow)" by force
    then show ?thesis unfolding assms(10) by simp
  qed
  have "\<forall>(i, tm, flow) \<in> set (pick ?rs). readable flow"
    using picked[of "\<lambda>flow. \<not> readable flow"] assms(9) unfolding readable_without_id by blast
  from detector_round[OF assms(5) this assms(11)]
  obtain ps due where det: "flows_to_port_tracker (\<lambda>_. Inr 200) limit (pick ?rs) (s_detector x) = (ps, concat (map block_pair due), Inr ())"
    "portscan_ok limit ps" "distinct (map fst due)" "fst ` set due \<subseteq> fst ` set (pick ?rs)"
    "\<forall>(i, src, key) \<in> set due. \<exists>a b. src = PyStr a \<and> CHR ''/'' \<notin> set a \<and> key = (PyStr a, PyStr b)"
    "limit < int (card {p. \<exists>(i, tm, flow) \<in> set (pick ?rs). reads flow a b p}) \<longrightarrow>
       (PyStr a, PyStr b) \<notin> set (treated_flows (s_detector x)) \<longrightarrow> (\<exists>i. (i, PyStr a, (PyStr a, PyStr b)) \<in> set due)"
    by blast
  have "{p. \<exists>(i, tm, flow) \<in> set (pick ?rs). reads flow a b p} = {p. \<exists>item \<in> set fresh. reads item a b p}"
    unfolding picked by (simp add: reads_without_id)
  then obtain i where i: "(i, PyStr a, (PyStr a, PyStr b)) \<in> set due" using det(6) assms(13,14) by auto
  let ?es = "concat (map block_entries due)"
  have fresh_ids: "\<not> has_key (ipfix_thr (s_store x)) (PyStr j) \<and> \<not> has_key (loaded (s_index x)) (PyStr j)" if "j \<in> fst ` set ?es" for j
    using that det(4) assms(12)[of _ ?rs] unfolding entry_ids by blast
  have new: "\<forall>(j, d) \<in> set ?es. (\<forall>y \<in> set (required Ipfix). has_key d y) \<and> \<not> has_key (ipfix_thr (c_store (t_coord t))) (PyStr j)"
    using entries_required fresh_ids unfolding t_def by fastforce
  define t' where "t' = tennison_run w ins (map add_event ?es) t"
  define s' where "s' = c_store (t_coord t')"
  note applied = adds_applied[where w = w and ins = ins, OF assms(1-3)[folded t_def] new entries_distinct[OF det(3)], folded t'_def,
      unfolded Let_def, folded s'_def]
  have t': "t_running t'" "t_coord t' = (t_coord t)\<lparr>c_store := s'\<rparr>" "wf_store s'"
    "fst ` set (ipfix_thr s') = fst ` set (ipfix_thr (s_store x)) \<union> PyStr ` fst ` set ?es"
    "\<forall>b \<in> set (map snd (ipfix_thr s')). entry_of (s_store x) ?es s' b"
    "\<forall>d \<in> snd ` set ?es. \<exists>b \<in> set (map snd (ipfix_thr s')). heap s' b = PyDict d"
    using applied unfolding t_def by blast+
  have x': "scan_round w ins repr_of limit now finished pick x = \<lparr>s_process = t', s_registry = reg, s_detector = ps\<rparr>"
    unfolding scan_round_def q Let_def prod.case sum.case app_body.case records det(1) requests_delivered t'_def t_def ..
  have "scan_id ''prefix'' i \<in> fst ` set ?es" unfolding entry_ids using i by force
  then have key: "has_key (ipfix_thr s') (PyStr (scan_id ''prefix'' i))" "\<not> has_key (loaded (s_index x)) (PyStr (scan_id ''prefix'' i))"
    using t'(4) fresh_ids by (auto simp: has_key_iff)
  have "let u = tennison_step w ins t' (Received tm later msg)
      in t_running u \<and> c_sent (t_coord u) = c_sent (t_coord t) @ [HttpGet (onos_url (rpc_conf w) ''block'' ''add'' @ ''/'' @ a @ ''/*/*/*/*'')]"
    if m: "kind \<in> {''prefix'', ''interfix''}" "flow_message ''sourceIPv4Address'' a kind msg'"
      "\<forall>b \<in> set (map snd (ipfix_thr (s_store x))). out_of_the_way w (s_store x) msg' 10 b"
      "ins (s_alerts x) msg = (msg', Inr ())" "record_flow tm later msg' (s_index x) = (ix2, Inr stats)" for kind msg msg' tm later ix2 stats
  proof -
    obtain s'' ix' where h: "handle_message w tm later msg' s' (s_index x) =
        (s'', ix', [HttpGet (onos_url (rpc_conf w) ''block'' ''add'' @ ''/'' @ a @ ''/*/*/*/*'')], Inr ())"
      using treated_is_blocked[OF t'(3) assms(4) key t'(5,6) det(5) i m(1,2,3,5)] by blast
    have "ins (c_alerts (t_coord t')) msg = (msg', Inr ())"
      "handle_message w tm later msg' (c_store (t_coord t')) (c_ipfix (t_coord t')) =
        (s'', ix', [HttpGet (onos_url (rpc_conf w) ''block'' ''add'' @ ''/'' @ a @ ''/*/*/*/*'')], Inr ())"
      using m(4) h by (simp_all add: t'(2) t_def)
    from coord_message_handled[where ins = ins, OF this] show ?thesis using t'(1) by (simp add: Let_def t'(2))
  qed
  note act = this
  have frame: "c_alerts (t_coord t') = s_alerts x" "c_sent (t_coord t') = c_sent (t_coord (s_process x))"
    by (simp_all add: t'(2) t_def)
  show ?thesis unfolding x' Let_def site.select_convs
  proof (intro conjI ballI allI impI)
    fix kind msg msg' tm later ix2 stats
    assume "kind \<in> {''prefix'', ''interfix''}" "flow_message ''sourceIPv4Address'' a kind msg'"
      "\<forall>b \<in> set (map snd (ipfix_thr (s_store x))). out_of_the_way w (s_store x) msg' 10 b"
      "ins (s_alerts x) msg = (msg', Inr ())" "record_flow tm later msg' (s_index x) = (ix2, Inr stats)"
    from act[OF this, unfolded Let_def t_def]
    show "t_running (tennison_step w ins t' (Received tm later msg))"
      "c_sent (t_coord (tennison_step w ins t' (Received tm later msg))) = c_sent (t_coord (s_process x)) @
         [HttpGet (onos_url (rpc_conf w) ''block'' ''add'' @ ''/'' @ a @ ''/*/*/*/*'')]" by blast+
  qed (rule t'(1) frame det(2))+
qed

text \<open>Two stored alerts of one address to two ports of another, and the limit one: the next message of that address is blocked.\<close>

definition port_alert :: "string \<Rightarrow> int \<Rightarrow> pydict" where
  "port_alert i port = [(''_id'', PyStr i), (''type'', PyStr ''ipfix''), (''time'', PyTime 20), (''sourceIPv4Address'', PyStr ''10.0.0.9''),
     (''destinationIPv4Address'', PyStr ''10.0.0.7''), (''destinationTransportPort'', PyInt port)]"

definition scanned_site :: site where
  "scanned_site = \<lparr>s_process = demo_tennison\<lparr>t_coord := (t_coord demo_tennison)\<lparr>c_alerts := [port_alert ''x'' 22, port_alert ''y'' 23]\<rparr>\<rparr>,
     s_registry = watson_new\<lparr>applications := [(''ipfix-port-scan-app'', [(''last_query_ipfix'', PyTime 10)])]\<rparr>,
     s_detector = portscan_new\<rparr>"

definition pick_in_order :: "pydict list \<Rightarrow> (nat \<times> rat \<times> pydict) list" where
  "pick_in_order rs = map (\<lambda>(i, r). (i, 0, r)) (zip [0..<length rs] rs)"

lemma pick_in_order: "set (map (snd \<circ> snd) (pick_in_order rs)) = set rs" "distinct (map fst (pick_in_order rs))"
proof -
  have "map (snd \<circ> snd) (pick_in_order rs) = rs" "map fst (pick_in_order rs) = [0..<length rs]"
    by (simp_all add: pick_in_order_def comp_def case_prod_beta)
  then show "set (map (snd \<circ> snd) (pick_in_order rs)) = set rs" "distinct (map fst (pick_in_order rs))" by simp_all
qed

lemma scanned_ports: "{p. \<exists>item \<in> set [port_alert ''x'' 22, port_alert ''y'' 23]. reads item ''10.0.0.9'' ''10.0.0.7'' p} = {PyFloat 22, PyFloat 23}"
  by (auto simp: reads_def port_alert_def)

lemma scan_message_passes: "b \<in> {0, 1} \<Longrightarrow> out_of_the_way demo_world demo_store scan_message 10 b"
  by (auto simp: out_of_the_way_def direct_match_def mask_keys_def demo_store_def demo_threshold_def mask_applies_def scan_message_def
      state_matches_def test_match_similarity_def test_field_def)

lemma scan_message_recorded: "\<exists>ix2 stats. record_flow 0 0 scan_message (s_index scanned_site) = (ix2, Inr stats)"
proof -
  have "delta_bps demo_ipfix = []" "avg_bps demo_ipfix = []"
    using create_initial_masks_ok[OF demo_ipfix_built] by (simp_all add: ipfix_empty_def)
  then show ?thesis
    by (simp add: scanned_site_def record_flow_def demo_tennison_def scan_message_def flow_of_def update_totals_def stat_num_def
        average_stats_def)
qed

theorem scan_is_stopped_witness:
  "c_sent (t_coord (tennison_step demo_world (\<lambda>alerts msg. (msg, Inr ()))
     (s_process (scan_round demo_world (\<lambda>alerts msg. (msg, Inr ())) (\<lambda>_. []) 1 (0, 0, 0) 30 pick_in_order scanned_site))
     (Received 0 0 scan_message))) = [HttpGet ''http://onos/mervyn/block/add/10.0.0.9/*/*/*/*'']"
proof -
  let ?x = scanned_site and ?fresh = "[port_alert ''x'' 22, port_alert ''y'' 23]"
  have state: "t_running (s_process ?x)" "wf_store (s_store ?x)" "dumpable (s_store ?x)" "wf_dict (loaded (s_index ?x))"
    by (simp_all add: scanned_site_def demo_tennison_def demo_wf demo_loaded)
      (simp_all add: demo_store_def dumpable_def dict_entries_def demo_threshold_def)
  have det: "portscan_ok 1 (s_detector ?x)" "(PyStr ''10.0.0.9'', PyStr ''10.0.0.7'') \<notin> set (treated_flows (s_detector ?x))"
    by (simp_all add: scanned_site_def portscan_ok_def portscan_new_def ports_used_def)
  have reg: "last_ipfix ''ipfix-port-scan-app'' (s_registry ?x) = Some 10" by (simp add: last_ipfix_def scanned_site_def watson_new_def)
  have fresh: "?fresh = filter (newer ''ipfix'' (PyTime 10)) (s_alerts ?x)"
    by (simp add: scanned_site_def newer_def port_alert_def)
  have ids: "distinct (map (alert_id (\<lambda>_. [])) ?fresh)" by (simp add: alert_id_def port_alert_def)
  have readable: "\<forall>item \<in> set ?fresh. readable item" by (auto simp: readable_def reads_def port_alert_def)
  have free: "\<not> has_key (ipfix_thr (s_store ?x)) (PyStr (scan_id kind i)) \<and> \<not> has_key (loaded (s_index ?x)) (PyStr (scan_id kind i))" for kind i
    by (simp add: scanned_site_def demo_tennison_def demo_loaded scan_id_def) (simp add: demo_store_def)
  have many: "1 < int (card {p. \<exists>item \<in> set ?fresh. reads item ''10.0.0.9'' ''10.0.0.7'' p})" unfolding scanned_ports by simp
  obtain ix2 stats where rec: "record_flow 0 0 scan_message (s_index ?x) = (ix2, Inr stats)" using scan_message_recorded by blast
  have msg: "flow_message ''sourceIPv4Address'' ''10.0.0.9'' ''prefix'' scan_message"
    by (simp add: flow_message_def scan_message_def recognised_def)
  have pass: "\<forall>b \<in> set (map snd (ipfix_thr (s_store ?x))). out_of_the_way demo_world (s_store ?x) scan_message 10 b"
  proof -
    have "set (map snd (ipfix_thr demo_store)) = {0, 1}" by (simp add: demo_store_def insert_commute)
    then show ?thesis using scan_message_passes by (simp add: scanned_site_def demo_tennison_def)
  qed
  have empty: "c_sent (t_coord (s_process ?x)) = []" by (simp add: scanned_site_def demo_tennison_def)
  have url: "onos_url (rpc_conf demo_world) ''block'' ''add'' @ ''/'' @ ''10.0.0.9'' @ ''/*/*/*/*'' = ''http://onos/mervyn/block/add/10.0.0.9/*/*/*/*''"
    by (simp add: onos_url_def demo_world_def onos_endpoint_def)
  note stopped = scan_is_stopped[where pick = pick_in_order and w = demo_world and ins = "\<lambda>alerts msg. (msg, Inr ())" and repr_of = "\<lambda>_. []",
      OF state det(1) reg fresh ids readable pick_in_order free many det(2), of "(0, 0, 0)" 30]
  from stopped msg pass rec show ?thesis unfolding Let_def empty url append_Nil by blast
qed

end
