(* ===== verification/Cluster_Tests.thy ===== *)
theory Cluster_Tests
  imports Cluster_Bench
begin

text \<open>
  The high availability tests of the bench as they run: \<open>tools/dev/tennison-experimenter/experimenter/old/ha.py\<close>, from the
  dynamic nodes and their cluster to the test runner, and the remaining commands of the shell in \<open>onos.py\<close>.
\<close>

section \<open>Commands of the shell\<close>

text \<open>\<open>cprint\<close>: the text between the escape sequences of its colour and of the end; an unknown colour is none.\<close>

definition escape :: "string \<Rightarrow> string" where
  "escape code = [CHR 0x1B] @ ''['' @ code @ ''m''"

definition colors :: "(string \<times> string) list" where
  "colors = [(''cyan'', escape ''96''), (''purple'', escape ''95''), (''blue'', escape ''94''), (''green'', escape ''92''),
     (''yellow'', escape ''93''), (''red'', escape ''91''), (''end'', escape ''0'')]"

definition cprint :: "string \<Rightarrow> string \<Rightarrow> string" where
  "cprint msg color = or_default (map_of colors (str_lower color)) [] @ msg @ escape ''0''"

definition do_balance :: "(string \<times> onos_cluster) list \<Rightarrow> string option result" where
  "do_balance controllers = do_onos controllers '':balance-masters''"

definition do_log :: "(string \<times> onos_cluster) list \<Rightarrow> string result" where
  "do_log controllers =
     (case controllers of
        [] \<Rightarrow> Inl IndexError
      | (cls, c) # _ \<Rightarrow>
          (case cluster_hosts c of
             [] \<Rightarrow> Inl IndexError
           | n # _ \<Rightarrow> Inr (onos_name n @ '' tail -f /tmp/'' @ onos_name n @ ''/log'')))"

text \<open>The networks the shell covers: the data network and those of the clusters.\<close>

definition shell_clusters :: "(string \<times> onos_cluster) list \<Rightarrow> onos_cluster list" where
  "shell_clusters controllers = map snd (filter (\<lambda>(cls, c). is_infix ''ONOSCluster'' cls) controllers)"

text \<open>
  What a cluster makes of its topology argument: an instance is taken as it is, a class gets its arguments, and none means a switch
  with one node. The nodes of a class are renamed. The options of the nodes get the alert action, if there is one.
\<close>

datatype topo_arg = NoTopo | TopoClass string | TopoInstance string

definition cluster_topo :: "topo_arg \<Rightarrow> nat list \<Rightarrow> string + string \<times> nat list" where
  "cluster_topo topo args =
     (case topo of
        TopoInstance t \<Rightarrow> Inl t
      | TopoClass c \<Rightarrow> Inr (c, args)
      | NoTopo \<Rightarrow> Inr (''SingleSwitchTopo'', if args = [] then [1] else args))"

definition node_opts :: "env \<Rightarrow> string option \<Rightarrow> env" where
  "node_opts opts action = (case action of None \<Rightarrow> opts | Some a \<Rightarrow> if a = [] then opts else dict_put ''alertAction'' a opts)"

section \<open>Dynamic nodes\<close>

text \<open>\<open>HTTP\<close>: the host that serves the metadata file.\<close>

definition http_dir :: "string \<Rightarrow> string" where
  "http_dir name = ''/tmp/'' @ name"

definition http_new :: "string \<Rightarrow> bench_cmd list" where
  "http_new name = map (NodeCmd name) [''rm -rf '' @ http_dir name, ''mkdir '' @ http_dir name, ''cd '' @ http_dir name]"

definition http_start :: "string \<Rightarrow> bench_cmd list" where
  "http_start name = [NodeCmd name ''python -m SimpleHTTPServer &> web.log &'']"

definition http_stop :: "string \<Rightarrow> bench_cmd list" where
  "http_stop name = [NodeCmd name ''fg'', NodeCmd name [CHR 0x03]]"

text \<open>A node that is to be told when to start; its alerts are warnings, whatever the options say.\<close>

definition dyn_new :: "onos_node \<Rightarrow> dyn_node \<times> onos_node" where
  "dyn_new n = (\<lparr>dyn_name = onos_name n, should_start = False, started = False, remote = []\<rparr>, n\<lparr>alert_action := ''warn''\<rparr>)"

text \<open>
  \<open>DynamicONOSNode.start\<close>: the commands and the metadata file written between them; the node counts as started only after
  its pid has been read.
\<close>

datatype dyn_cmd = Run bench_cmd | WriteFile string pyval

definition dyn_node_start ::
  "bench_world \<Rightarrow> string \<Rightarrow> string \<Rightarrow> int \<Rightarrow> string \<Rightarrow> onos_node \<Rightarrow> dyn_node \<Rightarrow> env \<Rightarrow> string list \<Rightarrow> dyn_cmd list \<times> dyn_node result"
where
  "dyn_node_start w user onos_root hashed_name metadata n d env ips =
     (if \<not> should_start d \<or> started d then ([], Inr d)
      else (let env1 = dyn_env (onos_home n) d env; c = (\<lambda>x. Run (NodeCmd (onos_name n) x)) in
        case karaf_bins w n of
          [] \<Rightarrow> ([c (update_env env1)], Inl IndexError)
        | karafbin # _ \<Rightarrow>
            ([c (update_env env1),
              c (''export PATH='' @ path_join onos_root ''tools/test/bin'' @ '':'' @ karafbin @ '':$PATH''),
              c (''cd '' @ onos_home n),
              c (ucmd user [''mkdir -p config '']),
              WriteFile metadata (gen_partitions hashed_name ips),
              c (ucmd user [path_join (onos_home n) ''bin/onos-service'',
                   ''server 1>../onos.log 2>../onos.log & echo $! > onos.pid; ln -s `pwd`/onos.pid ..'']),
              c ''cat onos.pid''],
             bindE (int_of_string (strip (pid_text w n))) (\<lambda>pid. Inr (d\<lparr>started := True\<rparr>)))))"

text \<open>A node that is not started is neither checked nor waited for.\<close>

definition dyn_sanity_check :: "dyn_node \<Rightarrow> onos_node \<Rightarrow> nat \<Rightarrow> node_poll \<Rightarrow> nat \<times> unit result" where
  "dyn_sanity_check d n seen p = (if started d then sanity_check n seen p else (seen, Inr ()))"

definition dyn_wait_started :: "dyn_node \<Rightarrow> onos_node \<Rightarrow> nat \<Rightarrow> node_poll list \<Rightarrow> nat \<times> node_poll list \<times> wait_result" where
  "dyn_wait_started d n seen ps = (if started d then wait_started n seen ps else (seen, ps, Ready))"

section \<open>The scaling test\<close>

text \<open>
  The steps of a run: a node is started with the active nodes as members, waited for, all nodes are asked, the tester gets a shell,
  or the metadata file is written anew when a node leaves.
\<close>

datatype scale_step = Starts string "string list" | Waits string | Look | Pause | Leaves string "string list"

text \<open>
  The cluster starts: every node is called, those that should not start return at once; then the active nodes are waited for.
\<close>

definition cluster_boot :: "dyn_cluster \<Rightarrow> dyn_cluster \<times> scale_step list" where
  "cluster_boot c =
     (c\<lparr>dyn_nodes := map dyn_start (dyn_nodes c)\<rparr>,
      map (\<lambda>n. Starts (dyn_name n) (active_nodes c)) (filter (\<lambda>n. should_start n \<and> \<not> started n) (dyn_nodes c)) @
      map Waits (active_nodes c))"

text \<open>
  \<open>DynamicONOSCluster\<close>: its environment names all nodes, but when it starts it forwards the ports of the active ones, and when it stops it
  removes the rules of those that are active then.
\<close>

definition dyn_cluster_env :: "onos_node list \<Rightarrow> env \<times> env \<Rightarrow> env \<times> env" where
  "dyn_cluster_env hosts = update_node_ips (map onos_ip (filter is_onos_node hosts))"

definition dyn_cluster_forwarding :: "onos_cluster \<Rightarrow> onos_node list \<Rightarrow> char \<Rightarrow> bench_cmd list" where
  "dyn_cluster_forwarding c active action = cluster_forwarding (c\<lparr>cluster_hosts := active\<rparr>) (forward c) action"

definition start_steps :: "(string list \<Rightarrow> string list) \<Rightarrow> string list \<Rightarrow> dyn_cluster \<Rightarrow> scale_step list" where
  "start_steps ord names c =
     (let members = ord (remdups (active_nodes c @ names))
      in map (\<lambda>x. Starts x members) (filter (\<lambda>x. x \<in> set (not_started c)) names) @ map Waits names)"

definition pauses :: "bool \<Rightarrow> scale_step list" where
  "pauses interactive = (if interactive then [Pause] else [])"

function up_steps :: "(string list \<Rightarrow> string list) \<Rightarrow> bool \<Rightarrow> dyn_cluster \<Rightarrow> scale_step list" where
  "up_steps ord interactive c =
     (let new = take 2 (not_started c)
      in if new = [] then []
         else start_steps ord new c @ [Look] @ pauses interactive @ up_steps ord interactive (start_nodes ord new c))"
  by pat_completeness auto
termination
  by (relation "measure (\<lambda>(ord, i, c). length (not_started c))") (use pending_decreases in auto)

declare up_steps.simps [simp del]

definition down_steps :: "bool \<Rightarrow> string list \<Rightarrow> scale_step list" where
  "down_steps interactive active =
     concat (map (\<lambda>(x, rest). [Leaves x rest, Look] @ pauses interactive) (snd (scale_down_all active)))"

text \<open>\<open>Scaling\<close>; \<open>first\<close> is the first host of the control network.\<close>

definition scaling_test ::
  "(string list \<Rightarrow> string list) \<Rightarrow> bool \<Rightarrow> string \<Rightarrow> dyn_cluster \<Rightarrow> dyn_cluster \<times> scale_step list"
where
  "scaling_test ord interactive first c =
     (let c1 = c\<lparr>active_nodes := ord (remdups (active_nodes c @ [first]))\<rparr>;
          c2 = start_nodes ord (active_nodes c1) c1;
          c3 = scale_up ord c2
      in (c3\<lparr>active_nodes := fst (scale_down_all (active_nodes c3))\<rparr>,
          start_steps ord (active_nodes c1) c1 @ [Look] @ pauses interactive @ up_steps ord interactive c2 @
          down_steps interactive (active_nodes c3) @ pauses interactive))"

section \<open>The runner\<close>

datatype ha_test = PartitionArgs string string | ScalingArgs nat | NoTest

datatype run_step = Build ha_topo | NetStart | Shell | Test "test_step list" | Scale "scale_step list" | NetStop | Say string

text \<open>
  The nodes of the scaling test are those of the topology; the first ones are active and told to start, all get the
  address of the metadata file.
\<close>

definition scaling_cluster :: "string \<Rightarrow> string list \<Rightarrow> nat \<Rightarrow> dyn_cluster" where
  "scaling_cluster server_ip hosts server_count =
     (let first = map (\<lambda>i. ''onos'' @ nat_str (i + 1)) [0 ..< server_count]
      in \<lparr>dyn_nodes = map (\<lambda>h. \<lparr>dyn_name = h, should_start = h \<in> set first, started = False,
            remote = [(''ip'', server_ip), (''port'', ''8000''), (''filename'', ''cluster.json'')]\<rparr>) hosts,
          active_nodes = first\<rparr>)"

definition dyn_hosts :: "ha_topo \<Rightarrow> string list" where
  "dyn_hosts t = map fst (filter (\<lambda>(h, cls). cls = ''DynamicONOSNode'') (ha_hosts t))"

definition run_test :: "(string list \<Rightarrow> string list) \<Rightarrow> string \<Rightarrow> bool \<Rightarrow> ha_test \<Rightarrow> run_step list result" where
  "run_test ord server_ip interactive test =
     (let cli = (if interactive then [Shell] else []) in
      case test of
        PartitionArgs a b \<Rightarrow>
          bindE (ha_build [a, b] 1 False) (\<lambda>t.
            (case ha_switches t of
               cs1 # cs2 # _ \<Rightarrow> Inr ([Build t, NetStart] @ cli @ [Test (partition_test interactive cs1 cs2), Shell, NetStop])
             | _ \<Rightarrow> Inl IndexError))
      | ScalingArgs n \<Rightarrow>
          bindE (ha_build [] n True) (\<lambda>t.
            (case dyn_hosts t of
               [] \<Rightarrow> Inl IndexError
             | first # _ \<Rightarrow>
                 (let (c, boot) = cluster_boot (scaling_cluster server_ip (dyn_hosts t) n)
                  in Inr ([Build t, NetStart, Scale boot] @ cli @ [Scale (snd (scaling_test ord interactive first c)), Shell, NetStop]))))
      | NoTest \<Rightarrow> Inr [Say ''Incorrect test''])"

section \<open>Properties\<close>

definition starts :: "scale_step list \<Rightarrow> string list" where
  "starts steps = concat (map (\<lambda>s. case s of Starts x m \<Rightarrow> [x] | _ \<Rightarrow> []) steps)"

lemma starts_simps [simp]: "starts [] = []" "starts (xs @ ys) = starts xs @ starts ys" "starts (Starts x m # xs) = x # starts xs"
  "starts (Waits x # xs) = starts xs" "starts (Look # xs) = starts xs" "starts (Leaves x m # xs) = starts xs" "starts (pauses i) = []"
  by (simp_all add: starts_def pauses_def)

lemma starts_waits [simp]: "starts (map Waits xs) = []"
  by (induction xs) simp_all

lemma starts_maps [simp]: "starts (map (\<lambda>n. Starts (f n) m) ns) = map f ns"
  by (induction ns) simp_all

lemma starts_names [simp]: "starts (map (\<lambda>x. Starts x m) xs) = xs"
  by (induction xs) simp_all

lemma starts_down [simp]: "starts (down_steps i active) = []"
proof -
  have "starts (concat (map (\<lambda>(x, rest). [Leaves x rest, Look] @ pauses i) xs)) = []" for xs
    by (induction xs) auto
  then show ?thesis by (simp add: down_steps_def)
qed

lemma starts_start_steps: "starts (start_steps ord names c) = filter (\<lambda>x. x \<in> set (not_started c)) names"
  by (simp add: start_steps_def Let_def)

lemma not_started_after: "not_started (start_nodes ord names c) = filter (\<lambda>x. x \<notin> set names) (not_started c)"
proof -
  have "map dyn_name (filter (\<lambda>n. \<not> started n) (map (\<lambda>n. if dyn_name n \<in> set names then dyn_start (n\<lparr>should_start := True\<rparr>) else n) ns)) =
      filter (\<lambda>x. x \<notin> set names) (map dyn_name (filter (\<lambda>n. \<not> started n) ns))" for ns
    by (induction ns) (auto simp: dyn_start_def)
  then show ?thesis by (simp add: not_started_def start_nodes_def)
qed

lemma filter_not_taken: "distinct xs \<Longrightarrow> filter (\<lambda>x. x \<notin> set (take k xs)) xs = drop k xs"
proof -
  assume d: "distinct xs"
  then have "set (take k xs) \<inter> set (drop k xs) = {}" by (rule set_take_disj_set_drop_if_distinct) simp
  then have "filter (\<lambda>x. x \<notin> set (take k xs)) (drop k xs) = drop k xs" by (auto simp: filter_id_conv)
  moreover have "filter (\<lambda>x. x \<notin> set (take k xs)) (take k xs) = []" by (simp add: filter_empty_conv)
  ultimately show ?thesis using filter_append[of "\<lambda>x. x \<notin> set (take k xs)" "take k xs" "drop k xs"] by simp
qed

lemma starts_up: "distinct (not_started c) \<Longrightarrow> starts (up_steps ord i c) = not_started c"
proof (induction ord i c rule: up_steps.induct)
  case (1 ord i c)
  let ?new = "take 2 (not_started c)"
  show ?case
  proof (cases "?new = []")
    case True
    then show ?thesis by (simp add: up_steps.simps[of ord i c])
  next
    case False
    have rest: "not_started (start_nodes ord ?new c) = drop 2 (not_started c)"
      using filter_not_taken[OF "1.prems"] by (simp add: not_started_after)
    have "filter (\<lambda>x. x \<in> set (not_started c)) ?new = ?new" by (auto simp: filter_id_conv dest: in_set_takeD)
    then have "starts (up_steps ord i c) = ?new @ starts (up_steps ord i (start_nodes ord ?new c))"
      using False by (simp add: up_steps.simps[of ord i c] starts_start_steps Let_def)
    also have "\<dots> = ?new @ drop 2 (not_started c)" using "1.IH"[OF refl False] rest "1.prems" by simp
    finally show ?thesis by simp
  qed
qed

text \<open>
  The scaling test starts every node exactly once: those told to start when the network starts, the rest while scaling, none
  twice, although the test asks for the active nodes to be started again.
\<close>

theorem scaling_starts_once:
  assumes "distinct (map dyn_name (dyn_nodes c))" "\<And>xs. set (ord xs) = set xs \<and> distinct (ord xs)"
    and "cluster_boot c = (c', boot)" "scaling_test ord interactive first c' = (c'', steps)"
  shows "distinct (starts (boot @ steps)) \<and> set (starts (boot @ steps)) = set (not_started c)"
proof -
  let ?told = "map dyn_name (filter (\<lambda>n. should_start n \<and> \<not> started n) (dyn_nodes c))"
  have boot: "starts boot = ?told" using assms(3) by (auto simp: cluster_boot_def)
  have pending: "not_started c' = map dyn_name (filter (\<lambda>n. \<not> should_start n \<and> \<not> started n) (dyn_nodes c))"
  proof -
    have "map dyn_name (filter (\<lambda>n. \<not> started n) (map dyn_start ns)) = map dyn_name (filter (\<lambda>n. \<not> should_start n \<and> \<not> started n) ns)" for ns
      by (induction ns) (auto simp: dyn_start_def)
    then show ?thesis using assms(3) by (auto simp: cluster_boot_def not_started_def)
  qed
  have d: "distinct (map dyn_name (filter P (dyn_nodes c)))" for P
    using assms(1) by (simp add: distinct_map_filter)
  define c1 where "c1 = c'\<lparr>active_nodes := ord (remdups (active_nodes c' @ [first]))\<rparr>"
  define c2 where "c2 = start_nodes ord (active_nodes c1) c1"
  have c1: "not_started c1 = not_started c'" "distinct (active_nodes c1)" using assms(2) by (simp_all add: c1_def not_started_def)
  let ?again = "filter (\<lambda>x. x \<in> set (not_started c')) (active_nodes c1)"
  have c2: "not_started c2 = filter (\<lambda>x. x \<notin> set (active_nodes c1)) (not_started c')" by (simp add: c2_def not_started_after c1(1))
  have "distinct (not_started c2)" unfolding c2 pending using d by simp
  then have steps: "starts steps = ?again @ not_started c2"
    using assms(4) starts_up by (auto simp: scaling_test_def Let_def c1_def[symmetric] c2_def[symmetric] starts_start_steps c1(1))
  have "set ?told \<inter> set (not_started c') = {}"
    using assms(1) unfolding pending by (auto simp: distinct_map inj_on_def)
  moreover have "set ?again \<union> set (not_started c2) = set (not_started c')" unfolding c2 by auto
  moreover have "set ?told \<union> set (not_started c') = set (not_started c)" unfolding pending by (auto simp: not_started_def)
  ultimately show ?thesis using d c1(2) \<open>distinct (not_started c2)\<close> by (auto simp: boot steps c2)
qed

text \<open>Two nodes and one of them told to start, the identity on lists without repetition for the order.\<close>

theorem scaling_starts_once_witness:
  "let c = scaling_cluster ''10.0.0.1'' [''onos1'', ''onos2''] 1; (c', boot) = cluster_boot c in
    distinct (starts (boot @ snd (scaling_test (remdups) False ''onos1'' c')))"
proof -
  let ?c = "scaling_cluster ''10.0.0.1'' [''onos1'', ''onos2''] 1"
  have d: "distinct (map dyn_name (dyn_nodes ?c))" by (simp add: scaling_cluster_def)
  have o: "set (remdups xs) = set xs \<and> distinct (remdups xs)" for xs :: "string list" by simp
  obtain c' boot where b: "cluster_boot ?c = (c', boot)" by fastforce
  obtain c'' steps where t: "scaling_test remdups False ''onos1'' c' = (c'', steps)" by fastforce
  show ?thesis unfolding Let_def b prod.case using scaling_starts_once[OF d o b t] by (simp add: t)
qed

end
